(* ===== verification/Prelude.thy ===== *)
theory Prelude
  imports Main "HOL-Library.Word" "HOL-Library.Char_ord" "HOL-Library.List_Lexorder"
    "HOL-Library.Product_Lexorder"
begin

text \<open>
  Shared vocabulary of the development: Go errors as values, Go contexts, structured log
  records, the lemma collections, and the generic lemmas on lists that the components share.

  A Go \<open>string\<close> is a sequence of bytes, so it is the HOL type \<open>string\<close> (a \<open>char\<close> is one
  byte). \<open>int64\<close> is a 64-bit word read with \<open>sint\<close>. An instant (\<open>time.Time\<close>) is the number
  of nanoseconds since the Unix epoch, an \<open>int\<close>.
\<close>

section \<open>Types\<close>

type_synonym int64 = "64 word"
type_synonym instant = int

text \<open>
  Go errors. A message built with \<open>fmt.Errorf\<close> or \<open>fmt.Sprintf\<close> is kept as its format string
  and its arguments, not rendered: two such messages are compared by format and arguments.
  \<open>AErr\<close> is a \<open>%w\<close> argument (it takes part in \<open>errors.Is\<close>), \<open>AVal\<close> an error printed with
  \<open>%v\<close> (it does not). \<open>ErrOther\<close> is an error produced by code outside the repository.
\<close>

datatype go_error =
    ErrNew string
  | Errorf string "fmt_arg list"
  | ErrJoin "go_error list"
  | ErrOther string
and fmt_arg =
    AStr string
  | AInt int
  | AStrs "string list"
  | AErr go_error
  | AVal go_error

text \<open>\<open>errors.Is\<close>: the error itself, or one that it wraps.\<close>

fun errors_is :: "go_error \<Rightarrow> go_error \<Rightarrow> bool"
and arg_is :: "go_error \<Rightarrow> fmt_arg \<Rightarrow> bool" where
  "errors_is t (ErrNew m) = (ErrNew m = t)"
| "errors_is t (ErrOther m) = (ErrOther m = t)"
| "errors_is t (Errorf f as) = (Errorf f as = t \<or> list_ex (arg_is t) as)"
| "errors_is t (ErrJoin es) = (ErrJoin es = t \<or> list_ex (errors_is t) es)"
| "arg_is t (AErr e) = errors_is t e"
| "arg_is t (AStr s) = False"
| "arg_is t (AInt i) = False"
| "arg_is t (AStrs ss) = False"
| "arg_is t (AVal e) = False"

lemma errors_is_refl [simp]: "errors_is e e"
  by (cases e) auto

text \<open>
  The contexts the repository builds: the background context, the context that
  \<open>signal.NotifyContext\<close> cancels on SIGINT or SIGTERM, an HTTP request's context, and
  \<open>context.WithTimeout\<close> (the limit in nanoseconds).
\<close>

datatype go_ctx =
    Background
  | SignalCtx
  | RequestCtx
  | WithTimeout go_ctx int

text \<open>Whether the shutdown signal cancels a context.\<close>

fun cancelled_by_signal :: "go_ctx \<Rightarrow> bool" where
  "cancelled_by_signal Background = False"
| "cancelled_by_signal SignalCtx = True"
| "cancelled_by_signal RequestCtx = False"
| "cancelled_by_signal (WithTimeout c d) = cancelled_by_signal c"

text \<open>A structured log record: level, message, attributes.\<close>

datatype log_level = LevelInfo | LevelWarn | LevelError

datatype log = Log (log_lvl: log_level) (log_msg: string) (log_attrs: "(string \<times> fmt_arg) list")

section \<open>Durations\<close>

text \<open>\<open>time.Duration\<close> constants in nanoseconds.\<close>

definition millisecond :: int where
  "millisecond = 1000000"

definition second :: int where
  "second = 1000000000"

definition min_duration :: int where
  "min_duration = - (2 ^ 63)"

definition max_duration :: int where
  "max_duration = 2 ^ 63 - 1"

text \<open>\<open>Time.Sub\<close>: the difference, saturated at the limits of a duration.\<close>

definition time_sub :: "instant \<Rightarrow> instant \<Rightarrow> int" where
  "time_sub t u = max min_duration (min max_duration (t - u))"

text \<open>\<open>time.UnixMilli\<close> and \<open>Time.UnixMilli\<close>.\<close>

definition unix_milli_time :: "int \<Rightarrow> instant" where
  "unix_milli_time ms = ms * millisecond"

definition unix_milli :: "instant \<Rightarrow> int" where
  "unix_milli t = t div millisecond"

lemma unix_milli_time_inverse [simp]: "unix_milli (unix_milli_time ms) = ms"
  by (simp add: unix_milli_def unix_milli_time_def millisecond_def)

lemma time_sub_nonneg: "u \<le> t \<Longrightarrow> 0 \<le> time_sub t u"
  by (simp add: time_sub_def min_duration_def max_duration_def)

lemma time_sub_ge_iff:
  "min_duration < d \<Longrightarrow> d \<le> max_duration \<Longrightarrow> d \<le> time_sub t u \<longleftrightarrow> d \<le> t - u"
  by (auto simp: time_sub_def)

section \<open>Lemma collections\<close>

named_theorems text_simps \<open>printing and parsing of Go text\<close>
named_theorems circuit_defs \<open>the operations of the circuit breaker\<close>
named_theorems script_defs \<open>the Lua scripts\<close>
named_theorems store_simps \<open>the abstract effect of a store operation\<close>

section \<open>Lists\<close>

lemma filter_snd_neq_id: "m \<notin> snd ` set z \<Longrightarrow> filter (\<lambda>e. snd e \<noteq> m) z = z"
  by (induction z) auto

lemma sorted_filter_id: "sorted (xs::'a::linorder list) \<Longrightarrow> sorted (filter P xs)"
  using sorted_filter [of id xs P] by simp

lemma sorted_drop_take:
  "sorted (xs::'a::linorder list) \<Longrightarrow> sorted (take n xs) \<and> sorted (drop n xs)"
  by (simp add: sorted_wrt_take sorted_wrt_drop)

text \<open>A strictly sorted list is determined by its set.\<close>

lemma sorted_distinct_set_eq:
  "sorted (xs::'a::linorder list) \<Longrightarrow> distinct xs \<Longrightarrow> sorted ys \<Longrightarrow> distinct ys
    \<Longrightarrow> set xs = set ys \<Longrightarrow> xs = ys"
  by (rule sorted_distinct_set_unique)

lemma map_sum_id_Inr: "map_sum id f x = Inr y \<longleftrightarrow> (\<exists>z. x = Inr z \<and> y = f z)"
  by (cases x) auto

lemma take2_cases: "2 \<le> length xs \<Longrightarrow> \<exists>a b r. xs = a # b # r"
  by (cases xs; cases "tl xs") auto

end
