(* ===== verification/Domain.thy ===== *)
theory Domain
  imports Prelude
begin

text \<open>
  The domain records of internal/domain and the interfaces of internal/port. A Go interface
  value is a record of functions over a world \<open>'w\<close>; each method takes the world and returns
  its result with the next world, so a caller sees a method's effects and its failures and
  nothing of its implementation. A method's \<open>(T, error)\<close> result is the sum \<open>go_error + T\<close>.
\<close>

section \<open>internal/domain\<close>

definition MatchPlayerCount :: nat where
  "MatchPlayerCount = 2"

record QueueEntry =
  PlayerID :: string
  DeckID :: int64
  Name :: string
  Level :: int64
  JoinedAt :: instant

record MatchedPlayer =
  mp_PlayerID :: string
  mp_DeckID :: int64
  mp_Name :: string
  mp_Level :: int64

record MatchMadeEvent =
  mm_MatchID :: string
  mm_Players :: "MatchedPlayer list"

section \<open>internal/port\<close>

text \<open>\<open>port.Queue\<close>.\<close>

record 'w Queue =
  Enqueue :: "go_ctx \<Rightarrow> string \<Rightarrow> int64 \<Rightarrow> string \<Rightarrow> int64 \<Rightarrow> string \<Rightarrow> 'w \<Rightarrow> (go_error + int) \<times> 'w"
  Cancel :: "go_ctx \<Rightarrow> string \<Rightarrow> 'w \<Rightarrow> (go_error + bool) \<times> 'w"
  Size :: "go_ctx \<Rightarrow> 'w \<Rightarrow> (go_error + int) \<times> 'w"
  PopPair :: "go_ctx \<Rightarrow> 'w \<Rightarrow> (go_error + QueueEntry list \<times> string) \<times> 'w"
  Reenqueue :: "go_ctx \<Rightarrow> QueueEntry list \<Rightarrow> string \<Rightarrow> 'w \<Rightarrow> (go_error + bool) \<times> 'w"

text \<open>\<open>port.RawEventPublisher\<close>: \<open>None\<close> is a nil error.\<close>

record 'w RawEventPublisher =
  Publish :: "go_ctx \<Rightarrow> string \<Rightarrow> string \<Rightarrow> 'w \<Rightarrow> go_error option \<times> 'w"

text \<open>
  \<open>port.Clock\<close>. The code uses \<open>After\<close> only in a \<open>select\<close> against a context's \<open>Done\<close> channel
  (\<open>WaitOrDone\<close>: \<open>True\<close> when the \<open>select\<close> took the \<open>Done\<close> case) or against the completion of
  running work (the step relation of the loop). \<open>CtxErr\<close> is \<open>ctx.Err() != nil\<close>.
\<close>

record 'w Clock =
  Now :: "'w \<Rightarrow> instant \<times> 'w"
  WaitOrDone :: "go_ctx \<Rightarrow> int \<Rightarrow> 'w \<Rightarrow> bool \<times> 'w"
  CtxErr :: "go_ctx \<Rightarrow> 'w \<Rightarrow> bool \<times> 'w"

text \<open>\<open>port.MatchIDGenerator\<close>.\<close>

record 'w MatchIDGenerator =
  NewMatchID :: "'w \<Rightarrow> string \<times> 'w"

end
