(* ===== verification/GoText.thy ===== *)
theory GoText
  imports Prelude
begin

text \<open>
  The parts of Go's standard library on text that the repository uses: decimal printing
  (\<open>%d\<close>) and parsing (\<open>strconv.ParseInt\<close> in base 10, \<open>strconv.Atoi\<close>), \<open>strings.SplitN\<close> on a
  one-byte separator, rune decoding (\<open>utf8.DecodeRune\<close>) and \<open>strings.TrimSpace(s) == ""\<close>.
  The lemmas show that printing and parsing an \<open>int64\<close> are inverse and that printed integers
  contain no separator.
\<close>

section \<open>Decimal integers\<close>

definition digit_char :: "nat \<Rightarrow> char" where
  "digit_char d = char_of (48 + d)"

definition digit_val :: "char \<Rightarrow> nat option" where
  "digit_val c = (let v = of_char c in if 48 \<le> v \<and> v \<le> 57 then Some (v - 48) else None)"

lemma digit_val_char [simp]: "d < 10 \<Longrightarrow> digit_val (digit_char d) = Some d"
  by (simp add: digit_val_def digit_char_def)

lemma digit_val_colon [simp]: "digit_val (CHR '':'') = None"
  by (simp add: digit_val_def)

lemma digit_char_of_val: "digit_val c = Some d \<Longrightarrow> d < 10 \<and> digit_char d = c"
  by (auto simp: digit_val_def digit_char_def Let_def split: if_splits)

fun fmt_nat :: "nat \<Rightarrow> string" where
  "fmt_nat n = (if n < 10 then [digit_char n] else fmt_nat (n div 10) @ [digit_char (n mod 10)])"

declare fmt_nat.simps [simp del]

text \<open>\<open>%d\<close> of a signed integer.\<close>

definition fmt_int :: "int \<Rightarrow> string" where
  "fmt_int i = (if i < 0 then CHR ''-'' # fmt_nat (nat (- i)) else fmt_nat (nat i))"

datatype num_error = NumSyntax | NumRange

text \<open>
  \<open>strconv.ParseUint(s, 10, 64)\<close>: the digits from left to right, stopping with a range error
  as soon as the value passes the largest \<open>uint64\<close>.
\<close>

fun parse_digits :: "nat \<Rightarrow> string \<Rightarrow> num_error + nat" where
  "parse_digits acc [] = Inr acc"
| "parse_digits acc (c # cs) =
     (case digit_val c of
        None \<Rightarrow> Inl NumSyntax
      | Some d \<Rightarrow>
          if 2 ^ 64 \<le> acc * 10 + d then Inl NumRange else parse_digits (acc * 10 + d) cs)"

definition parse_uint64 :: "string \<Rightarrow> num_error + nat" where
  "parse_uint64 s = (if s = [] then Inl NumSyntax else parse_digits 0 s)"

text \<open>\<open>strconv.ParseInt(s, 10, 64)\<close>, and \<open>strconv.Atoi\<close> on a 64-bit platform.\<close>

definition parse_int64 :: "string \<Rightarrow> num_error + int" where
  "parse_int64 s =
     (case s of
        [] \<Rightarrow> Inl NumSyntax
      | c # cs \<Rightarrow>
          (let neg = (c = CHR ''-'');
               rest = (if c = CHR ''+'' \<or> c = CHR ''-'' then cs else s)
           in case parse_uint64 rest of
                Inl e \<Rightarrow> Inl e
              | Inr un \<Rightarrow>
                  if \<not> neg \<and> 2 ^ 63 \<le> un then Inl NumRange
                  else if neg \<and> 2 ^ 63 < un then Inl NumRange
                  else Inr (if neg then - int un else int un)))"

lemma fmt_nat_nonempty [simp]: "fmt_nat n \<noteq> []"
  by (subst fmt_nat.simps) simp

lemma fmt_nat_digits: "c \<in> set (fmt_nat n) \<Longrightarrow> \<exists>d. digit_val c = Some d"
proof (induction n rule: fmt_nat.induct)
  case (1 n)
  show ?case
  proof (cases "n < 10")
    case True
    with "1.prems" show ?thesis by (subst (asm) fmt_nat.simps) simp
  next
    case False
    with 1 show ?thesis by (subst (asm) fmt_nat.simps) (auto simp: False)
  qed
qed

lemma parse_digits_append:
  "parse_digits acc (xs @ ys) =
     (case parse_digits acc xs of Inl e \<Rightarrow> Inl e | Inr n \<Rightarrow> parse_digits n ys)"
  by (induction xs arbitrary: acc) (auto split: option.split)

lemma parse_digits_fmt_nat: "n < 2 ^ 64 \<Longrightarrow> parse_digits 0 (fmt_nat n) = Inr n"
proof (induction n rule: fmt_nat.induct)
  case (1 n)
  show ?case
  proof (cases "n < 10")
    case True
    then show ?thesis by (subst fmt_nat.simps) simp
  next
    case False
    have "n div 10 < 2 ^ 64" using "1.prems" by (rule order.strict_trans1 [OF div_le_dividend])
    with False have "parse_digits 0 (fmt_nat (n div 10)) = Inr (n div 10)" using "1.IH" by blast
    moreover have "n div 10 * 10 + n mod 10 = n" by simp
    ultimately show ?thesis using False "1.prems"
      by (subst fmt_nat.simps) (simp add: parse_digits_append)
  qed
qed

lemma fmt_nat_Cons: "fmt_nat n = c # cs \<Longrightarrow> c \<noteq> CHR ''+'' \<and> c \<noteq> CHR ''-''"
  using fmt_nat_digits [of c n] by (auto simp: digit_val_def)

lemma parse_int64_fmt_int [text_simps]:
  assumes "- (2 ^ 63) \<le> i" and "i < 2 ^ 63"
  shows "parse_int64 (fmt_int i) = Inr i"
proof (cases "i < 0")
  case True
  have "parse_digits 0 (fmt_nat (nat (- i))) = Inr (nat (- i))"
    by (rule parse_digits_fmt_nat) (use assms in simp)
  then show ?thesis using True assms
    by (simp add: parse_int64_def fmt_int_def parse_uint64_def)
next
  case False
  obtain c cs where c: "fmt_nat (nat i) = c # cs" by (cases "fmt_nat (nat i)") auto
  have "parse_digits 0 (fmt_nat (nat i)) = Inr (nat i)"
    by (rule parse_digits_fmt_nat) (use assms False in simp)
  then show ?thesis using False assms c fmt_nat_Cons [OF c]
    by (simp add: parse_int64_def fmt_int_def parse_uint64_def)
qed

lemma parse_int64_fmt_sint [text_simps]: "parse_int64 (fmt_int (sint (w::int64))) = Inr (sint w)"
proof (rule parse_int64_fmt_int)
  show "- (2 ^ 63) \<le> sint w" using sint_ge [of w] by simp
  show "sint w < 2 ^ 63" using sint_lt [of w] by simp
qed

lemma parse_int64_range: "parse_int64 s = Inr i \<Longrightarrow> - (2 ^ 63) \<le> i \<and> i < 2 ^ 63"
  by (auto simp: parse_int64_def Let_def split: list.splits sum.splits if_splits)

lemma colon_notin_fmt_nat [simp]: "CHR '':'' \<notin> set (fmt_nat n)"
  using fmt_nat_digits by fastforce

lemma colon_notin_fmt_int [simp]: "CHR '':'' \<notin> set (fmt_int i)"
  by (simp add: fmt_int_def)

section \<open>Splitting\<close>

text \<open>
  \<open>strings.SplitN(s, sep, n)\<close> for a one-byte separator and \<open>n > 0\<close>: at most \<open>n\<close> fields, the
  last one holding the rest unsplit.
\<close>

fun split_n :: "nat \<Rightarrow> char \<Rightarrow> string \<Rightarrow> string list" where
  "split_n 0 sep s = []"
| "split_n (Suc 0) sep s = [s]"
| "split_n (Suc (Suc n)) sep s =
     (if sep \<in> set s
      then takeWhile (\<lambda>c. c \<noteq> sep) s # split_n (Suc n) sep (tl (dropWhile (\<lambda>c. c \<noteq> sep) s))
      else [s])"

lemma takeWhile_sep [simp]: "c \<notin> set xs \<Longrightarrow> takeWhile (\<lambda>x. x \<noteq> c) (xs @ c # ys) = xs"
  by (induction xs) auto

lemma dropWhile_sep [simp]: "c \<notin> set xs \<Longrightarrow> dropWhile (\<lambda>x. x \<noteq> c) (xs @ c # ys) = c # ys"
  by (induction xs) auto

lemma split_n_field [simp]:
  "sep \<notin> set x \<Longrightarrow> split_n (Suc (Suc n)) sep (x @ sep # r) = x # split_n (Suc n) sep r"
  by simp

declare split_n.simps(3) [simp del]

text \<open>Re-joining the fields gives the text back.\<close>

fun join_sep :: "char \<Rightarrow> string list \<Rightarrow> string" where
  "join_sep sep [] = []"
| "join_sep sep [x] = x"
| "join_sep sep (x # y # ys) = x @ sep # join_sep sep (y # ys)"

lemma split_n_nonempty: "split_n (Suc n) sep s \<noteq> []"
  by (cases n) (simp_all add: split_n.simps(3))

lemma join_split_n: "join_sep sep (split_n (Suc n) sep s) = s"
proof (induction n arbitrary: s)
  case 0
  then show ?case by simp
next
  case (Suc n)
  show ?case
  proof (cases "sep \<in> set s")
    case False
    then show ?thesis by (simp add: split_n.simps(3))
  next
    case True
    then obtain xs ys where s: "s = xs @ sep # ys" and "sep \<notin> set xs"
      by (metis split_list_first)
    moreover obtain y r where "split_n (Suc n) sep ys = y # r"
      using split_n_nonempty by (metis neq_Nil_conv)
    ultimately show ?thesis using Suc.IH [of ys] by simp
  qed
qed

section \<open>Runes and blank text\<close>

text \<open>
  \<open>utf8.DecodeRune\<close>: the first rune and its width in bytes. An invalid sequence is the
  replacement rune \<open>U+FFFD\<close> with width one; empty text is width zero.
\<close>

definition cont_byte :: "nat \<Rightarrow> bool" where
  "cont_byte b \<longleftrightarrow> 128 \<le> b \<and> b \<le> 191"

definition rune_error :: nat where
  "rune_error = 0xFFFD"

definition decode_rune :: "string \<Rightarrow> nat \<times> nat" where
  "decode_rune s =
     (case map of_char s of
        [] \<Rightarrow> (rune_error, 0)
      | b0 # bs \<Rightarrow>
          if b0 < 128 then (b0, 1)
          else if 194 \<le> b0 \<and> b0 \<le> 223 then
            (case bs of
               b1 # _ \<Rightarrow> if cont_byte b1 then ((b0 - 192) * 64 + (b1 - 128), 2) else (rune_error, 1)
             | _ \<Rightarrow> (rune_error, 1))
          else if 224 \<le> b0 \<and> b0 \<le> 239 then
            (case bs of
               b1 # b2 # _ \<Rightarrow>
                 if cont_byte b1 \<and> (b0 = 224 \<longrightarrow> 160 \<le> b1) \<and> (b0 = 237 \<longrightarrow> b1 \<le> 159) \<and> cont_byte b2
                 then ((b0 - 224) * 4096 + (b1 - 128) * 64 + (b2 - 128), 3) else (rune_error, 1)
             | _ \<Rightarrow> (rune_error, 1))
          else if 240 \<le> b0 \<and> b0 \<le> 244 then
            (case bs of
               b1 # b2 # b3 # _ \<Rightarrow>
                 if cont_byte b1 \<and> (b0 = 240 \<longrightarrow> 144 \<le> b1) \<and> (b0 = 244 \<longrightarrow> b1 \<le> 143)
                    \<and> cont_byte b2 \<and> cont_byte b3
                 then ((b0 - 240) * 262144 + (b1 - 128) * 4096 + (b2 - 128) * 64 + (b3 - 128), 4)
                 else (rune_error, 1)
             | _ \<Rightarrow> (rune_error, 1))
          else (rune_error, 1))"

lemma decode_rune_width: "s \<noteq> [] \<Longrightarrow> 0 < snd (decode_rune s)"
  by (cases s) (auto simp: decode_rune_def split: list.split)

text \<open>\<open>unicode.IsSpace\<close>.\<close>

definition is_space :: "nat \<Rightarrow> bool" where
  "is_space r \<longleftrightarrow>
     (9 \<le> r \<and> r \<le> 13) \<or> r = 32 \<or> r = 0x85 \<or> r = 0xA0 \<or> r = 0x1680 \<or> (0x2000 \<le> r \<and> r \<le> 0x200A)
     \<or> r = 0x2028 \<or> r = 0x2029 \<or> r = 0x202F \<or> r = 0x205F \<or> r = 0x3000"

text \<open>
  The expression \<open>strings.TrimSpace(s) == ""\<close>, the only use the repository makes of
  \<open>TrimSpace\<close>: trimming from the left stops at the first rune that is not white space, and
  trimming from the right never removes that rune, so the result is empty exactly when every
  rune is white space.
\<close>

function is_blank :: "string \<Rightarrow> bool" where
  "is_blank s =
     (if s = [] then True
      else if is_space (fst (decode_rune s)) then is_blank (drop (snd (decode_rune s)) s)
      else False)"
  by pat_completeness auto
termination
  by (relation "measure length") (auto simp: decode_rune_width intro!: diff_less)

declare is_blank.simps [simp del]

lemma is_blank_Nil [simp]: "is_blank []"
  by (simp add: is_blank.simps)

lemma is_blank_ascii [simp]:
  "of_char c < (128::nat) \<Longrightarrow> is_blank (c # cs) \<longleftrightarrow> is_space (of_char c) \<and> is_blank cs"
  by (subst is_blank.simps) (simp add: decode_rune_def)

end
