(* ===== verification/Base64.thy ===== *)
theory Base64
  imports Prelude
begin

text \<open>
  \<open>base64.RawStdEncoding\<close> of Go's standard library: the standard alphabet, no padding, not
  strict (the unused low bits of the last group are ignored) and skipping line breaks when it
  decodes. The member strings of the queue carry the player's name in this form. The lemmas
  show that decoding inverts encoding and that the encoded text contains no separator.
\<close>

section \<open>The alphabet\<close>

definition b64_char :: "nat \<Rightarrow> char" where
  "b64_char n =
     (if n < 26 then char_of (65 + n)
      else if n < 52 then char_of (71 + n)
      else if n < 62 then char_of (n - 4)
      else if n = 62 then CHR ''+'' else CHR ''/'')"

definition b64_val :: "char \<Rightarrow> nat option" where
  "b64_val c =
     (let v = of_char c in
      if 65 \<le> v \<and> v \<le> 90 then Some (v - 65)
      else if 97 \<le> v \<and> v \<le> 122 then Some (v - 71)
      else if 48 \<le> v \<and> v \<le> 57 then Some (v + 4)
      else if c = CHR ''+'' then Some 62
      else if c = CHR ''/'' then Some 63
      else None)"

lemma b64_val_char [simp]: "n < 64 \<Longrightarrow> b64_val (b64_char n) = Some n"
proof -
  assume n: "n < 64"
  consider "n < 26" | "26 \<le> n" "n < 52" | "52 \<le> n" "n < 62" | "n = 62" | "n = 63"
    using n by linarith
  then show ?thesis by cases (auto simp: b64_char_def b64_val_def Let_def)
qed

lemma b64_val_None [simp]:
  "b64_val (CHR '':'') = None" "b64_val (CHR 0x0A) = None" "b64_val (CHR 0x0D) = None"
  by (simp_all add: b64_val_def)

lemma b64_char_neq [simp]:
  assumes "n < 64"
  shows "b64_char n \<noteq> CHR '':''" "b64_char n \<noteq> CHR 0x0A" "b64_char n \<noteq> CHR 0x0D"
  using b64_val_char [OF assms] by (metis b64_val_None option.distinct(1))+

section \<open>Encoding and decoding\<close>

text \<open>Three bytes are cut into four six-bit values; a last group of one or two bytes into two or three.\<close>

fun b64_split :: "string \<Rightarrow> nat list" where
  "b64_split [] = []"
| "b64_split [a] = [of_char a div 4, of_char a mod 4 * 16]"
| "b64_split [a, b] =
     [of_char a div 4, of_char a mod 4 * 16 + of_char b div 16, of_char b mod 16 * 4]"
| "b64_split (a # b # c # cs) =
     [of_char a div 4, of_char a mod 4 * 16 + of_char b div 16,
      of_char b mod 16 * 4 + of_char c div 64, of_char c mod 64] @ b64_split cs"

definition b64_encode :: "string \<Rightarrow> string" where
  "b64_encode s = map b64_char (b64_split s)"

text \<open>Joining the six-bit values again; a group of a single value is corrupt input.\<close>

fun b64_join :: "nat list \<Rightarrow> string option" where
  "b64_join [] = Some []"
| "b64_join [p] = None"
| "b64_join [p, q] = Some [char_of (p * 4 + q div 16)]"
| "b64_join [p, q, r] =
     Some [char_of (p * 4 + q div 16), char_of (q mod 16 * 16 + r div 4)]"
| "b64_join (p # q # r # s # vs) =
     map_option (\<lambda>t. [char_of (p * 4 + q div 16), char_of (q mod 16 * 16 + r div 4),
                      char_of (r mod 4 * 64 + s)] @ t) (b64_join vs)"

fun b64_vals :: "string \<Rightarrow> nat list option" where
  "b64_vals [] = Some []"
| "b64_vals (c # cs) =
     (case b64_val c of
        None \<Rightarrow> None
      | Some v \<Rightarrow> map_option (\<lambda>vs. v # vs) (b64_vals cs))"

definition b64_decode :: "string \<Rightarrow> string option" where
  "b64_decode s =
     Option.bind (b64_vals (filter (\<lambda>c. c \<noteq> CHR 0x0A \<and> c \<noteq> CHR 0x0D) s)) b64_join"

lemma byte_parts [simp]:
  "(of_char (c::char) :: nat) div 4 < 64" "(of_char (c::char) :: nat) div 16 < 16"
  "(of_char (c::char) :: nat) div 64 < 4"
  using nat_of_char_less_256 [of c] by (simp_all add: less_mult_imp_div_less)

lemma two_parts:
  fixes q d k :: nat
  assumes "d < k"
  shows "(q * k + d) div k = q" and "(q * k + d) mod k = d"
  using assms by simp_all

lemma sextet_lt:
  fixes q d k m :: nat
  assumes "q < m" and "d < k"
  shows "q * k + d < m * k"
proof -
  have "q * k + d < Suc q * k" using assms by simp
  also have "\<dots> \<le> m * k" using assms by (intro mult_le_mono1) simp
  finally show ?thesis .
qed

lemma b64_split_lt: "v \<in> set (b64_split s) \<Longrightarrow> v < 64"
proof (induction s rule: b64_split.induct)
  case (2 a)
  have "(of_char a :: nat) mod 4 * 16 + 0 < 4 * 16" by (rule sextet_lt) simp_all
  with 2 show ?case by auto
next
  case (3 a b)
  have "(of_char a :: nat) mod 4 * 16 + of_char b div 16 < 4 * 16"
    and "(of_char b :: nat) mod 16 * 4 + 0 < 16 * 4" by (rule sextet_lt; simp)+
  with 3 show ?case by auto
next
  case (4 a b c cs)
  have "(of_char a :: nat) mod 4 * 16 + of_char b div 16 < 4 * 16"
    and "(of_char b :: nat) mod 16 * 4 + of_char c div 64 < 16 * 4" by (rule sextet_lt; simp)+
  with 4 show ?case by auto
qed simp

lemma join_bytes [simp]:
  "char_of ((of_char (a::char) :: nat) div 4 * 4 + of_char a mod 4 * 16 div 16) = a"
  "char_of ((of_char a :: nat) div 4 * 4 + (of_char a mod 4 * 16 + of_char b div 16) div 16) = a"
  "char_of (((of_char a :: nat) mod 4 * 16 + of_char b div 16) mod 16 * 16
     + of_char b mod 16 * 4 div 4) = b"
  "char_of (((of_char a :: nat) mod 4 * 16 + of_char b div 16) mod 16 * 16
     + (of_char b mod 16 * 4 + of_char c div 64) div 4) = b"
  "char_of (((of_char b :: nat) mod 16 * 4 + of_char c div 64) mod 4 * 64 + of_char c mod 64) = c"
  by (simp_all only: two_parts byte_parts div_mult_mod_eq char_of_char
      nonzero_mult_div_cancel_right numeral_neq_zero not_False_eq_True)

lemma b64_join_split: "b64_join (b64_split s) = Some s"
  by (induction s rule: b64_split.induct)
     (simp_all only: b64_split.simps b64_join.simps append.simps join_bytes option.map)

lemma b64_vals_map: "(\<And>v. v \<in> set vs \<Longrightarrow> v < 64) \<Longrightarrow> b64_vals (map b64_char vs) = Some vs"
  by (induction vs) auto

lemma b64_encode_clean:
  "c \<in> set (b64_encode s) \<Longrightarrow> c \<noteq> CHR '':'' \<and> c \<noteq> CHR 0x0A \<and> c \<noteq> CHR 0x0D"
  by (auto simp: b64_encode_def dest: b64_split_lt)

lemma colon_notin_b64 [simp]: "CHR '':'' \<notin> set (b64_encode s)"
  using b64_encode_clean by blast

lemma b64_decode_encode [simp]: "b64_decode (b64_encode s) = Some s"
proof -
  have "filter (\<lambda>c. c \<noteq> CHR 0x0A \<and> c \<noteq> CHR 0x0D) (b64_encode s) = b64_encode s"
    by (rule filter_True) (use b64_encode_clean in blast)
  then show ?thesis
    by (simp add: b64_decode_def b64_encode_def b64_vals_map b64_split_lt b64_join_split)
qed

end
