(* ===== verification/Member.thy ===== *)
theory Member
  imports Domain GoText Base64
begin

text \<open>
  The member strings of the queue's sorted set: \<open>validateMemberPlayerID\<close>, \<open>encodeMember\<close> and
  \<open>decodeMember\<close> of internal/adapter/redisqueue/redis_queue.go, and the pattern with which the
  Lua scripts read a member's first field. The lemmas show that decoding inverts encoding, that
  the scripts' first field is the player's identifier, and what a decoded member looks like.
\<close>

definition memberSeparator :: char where
  "memberSeparator = CHR '':''"

definition memberFieldCount :: nat where
  "memberFieldCount = 4"

definition errPlayerIDEmpty :: go_error where
  "errPlayerIDEmpty = ErrNew ''playerID is empty''"

definition errPlayerIDColon :: go_error where
  "errPlayerIDColon = ErrNew (''playerID contains '' @ [CHR 0x27, CHR '':'', CHR 0x27])"

definition validateMemberPlayerID :: "string \<Rightarrow> go_error option" where
  "validateMemberPlayerID playerID =
     (if playerID = [] then Some errPlayerIDEmpty
      else if memberSeparator \<in> set playerID then Some errPlayerIDColon
      else None)"

definition encodeMember :: "string \<Rightarrow> int64 \<Rightarrow> int64 \<Rightarrow> string \<Rightarrow> string" where
  "encodeMember playerID deckID level name =
     playerID @ CHR '':'' # fmt_int (sint deckID) @ CHR '':'' # fmt_int (sint level) @ CHR '':''
       # b64_encode name"

text \<open>The error of \<open>strconv\<close> as a \<open>%w\<close> argument.\<close>

definition num_err :: "num_error \<Rightarrow> go_error" where
  "num_err e = (case e of NumSyntax \<Rightarrow> ErrOther ''invalid syntax''
                        | NumRange \<Rightarrow> ErrOther ''value out of range'')"

definition decodeMember :: "string \<Rightarrow> go_error + string \<times> int64 \<times> int64 \<times> string" where
  "decodeMember member =
     (let parts = split_n memberFieldCount memberSeparator member in
      if length parts \<noteq> memberFieldCount then
        Inl (Errorf ''decode member: expected %d fields, got %d in %q''
               [AInt (int memberFieldCount), AInt (int (length parts)), AStr member])
      else case parse_int64 (parts ! 1) of
        Inl e \<Rightarrow> Inl (Errorf ''decode member: parse deck: %w'' [AErr (num_err e)])
      | Inr deckID \<Rightarrow>
      (case parse_int64 (parts ! 2) of
        Inl e \<Rightarrow> Inl (Errorf ''decode member: parse level: %w'' [AErr (num_err e)])
      | Inr level \<Rightarrow>
      (case b64_decode (parts ! 3) of
        None \<Rightarrow> Inl (Errorf ''decode member: parse name: %w'' [AErr (ErrOther ''illegal base64 data'')])
      | Some name \<Rightarrow> Inr (parts ! 0, word_of_int deckID, word_of_int level, name))))"

text \<open>\<open>string.match(member, '^[^:]*')\<close> in the Lua scripts.\<close>

definition first_field :: "string \<Rightarrow> string" where
  "first_field member = takeWhile (\<lambda>c. c \<noteq> CHR '':'') member"

lemma validate_None_iff:
  "validateMemberPlayerID p = None \<longleftrightarrow> p \<noteq> [] \<and> CHR '':'' \<notin> set p"
  by (auto simp: validateMemberPlayerID_def memberSeparator_def)

lemma split_encodeMember:
  "CHR '':'' \<notin> set p \<Longrightarrow>
     split_n memberFieldCount memberSeparator (encodeMember p d l n)
       = [p, fmt_int (sint d), fmt_int (sint l), b64_encode n]"
  by (simp add: memberFieldCount_def memberSeparator_def encodeMember_def numeral_eq_Suc)

lemma decode_encode:
  assumes "CHR '':'' \<notin> set p"
  shows "decodeMember (encodeMember p d l n) = Inr (p, d, l, n)"
  unfolding decodeMember_def split_encodeMember [OF assms] Let_def
  by (simp add: memberFieldCount_def text_simps)

lemma first_field_encode [simp]:
  "CHR '':'' \<notin> set p \<Longrightarrow> first_field (encodeMember p d l n) = p"
  by (simp add: first_field_def encodeMember_def)

lemma first_field_no_colon: "CHR '':'' \<notin> set (first_field m)"
  by (auto simp: first_field_def dest: set_takeWhileD)

lemma first_field_ne_colon: "CHR '':'' \<in> set p \<Longrightarrow> first_field m \<noteq> p"
  using first_field_no_colon by metis

lemma encode_inj:
  assumes "CHR '':'' \<notin> set p" "CHR '':'' \<notin> set p'"
    and "encodeMember p d l n = encodeMember p' d' l' n'"
  shows "p = p' \<and> d = d' \<and> l = l' \<and> n = n'"
  using decode_encode [OF assms(1)] decode_encode [OF assms(2)] assms(3)
  by (metis Inr_inject Pair_inject)

text \<open>
  A member string holds its entry: for every player that passes validation, decoding gives back
  player, deck, level and name (any bytes, the separator included), and the first field, by which the
  Lua scripts find a player's entries, is the player's identifier.
\<close>

lemma member_roundtrip:
  assumes "validateMemberPlayerID p = None"
  shows "decodeMember (encodeMember p d l n) = Inr (p, d, l, n) \<and> first_field (encodeMember p d l n) = p"
  using assms by (simp add: validate_None_iff decode_encode)

lemma member_roundtrip_witness:
  "decodeMember (encodeMember ''p1'' (- 3) 7 ''a:b'') = Inr (''p1'', - 3, 7, ''a:b'')
   \<and> first_field (encodeMember ''p1'' (- 3) 7 ''a:b'') = ''p1''"
  by (rule member_roundtrip) (simp add: validate_None_iff)

end
