(* ===== verification/RedisServer.thy ===== *)
theory RedisServer
  imports GoText
begin

text \<open>
  The Redis server and its Go client are not part of the repository, so they are a parameter of
  the model: the record \<open>'s redis\<close> holds the commands the Lua scripts call, the calls of the
  go-redis client, and the wall clock, over an abstract state \<open>'s\<close>. The locale \<open>redis_server\<close>
  names what the code relies on: an abstraction \<open>alpha\<close> of the state to a \<open>store\<close> of sorted sets
  and strings, the documented effect of each command on it, and that a script runs atomically
  but that its call can fail before it runs or lose its reply afterwards.

  A reference server \<open>ref_redis\<close> (a store, a script of network outcomes and a clock) shows that
  these laws can hold together and is the instance the witnesses evaluate.
\<close>

section \<open>Scores\<close>

text \<open>
  Go's conversion \<open>float64(x)\<close> of an \<open>int64\<close>: 53 significant bits, rounding half to even. The
  result is a whole number, kept as an \<open>int\<close>.
\<close>

fun bit_length :: "nat \<Rightarrow> nat" where
  "bit_length n = (if n = 0 then 0 else Suc (bit_length (n div 2)))"

declare bit_length.simps [simp del]

definition float64_of_int :: "int \<Rightarrow> int" where
  "float64_of_int x =
     (if \<bar>x\<bar> < 2 ^ 53 then x
      else let u = 2 ^ (bit_length (nat \<bar>x\<bar>) - 53);
               q = \<bar>x\<bar> div u; r = \<bar>x\<bar> mod u;
               q' = (if u < 2 * r \<or> (u = 2 * r \<and> odd q) then q + 1 else q)
           in sgn x * (q' * u))"

lemma float64_exact [simp]: "\<bar>x\<bar> < 2 ^ 53 \<Longrightarrow> float64_of_int x = x"
  by (simp add: float64_of_int_def)

section \<open>Stores\<close>

text \<open>
  A sorted set is the list of its (score, member) pairs, ordered by score and then by the bytes
  of the member. An absent key is an empty sorted set and no string.
\<close>

type_synonym zentry = "int \<times> string"

record store =
  zset :: "string \<Rightarrow> zentry list"
  strs :: "string \<Rightarrow> string option"

definition zset_ok :: "zentry list \<Rightarrow> bool" where
  "zset_ok z \<longleftrightarrow> sorted z \<and> distinct (map snd z)"

definition zput :: "int \<Rightarrow> string \<Rightarrow> zentry list \<Rightarrow> zentry list" where
  "zput x m z = insort (x, m) (filter (\<lambda>e. snd e \<noteq> m) z)"

lemma set_zput [store_simps]: "set (zput x m z) = insert (x, m) {e \<in> set z. snd e \<noteq> m}"
  by (auto simp: zput_def set_insort_key)

lemma zset_ok_Nil [simp]: "zset_ok []"
  by (simp add: zset_ok_def)

lemma zset_ok_filter [intro]: "zset_ok z \<Longrightarrow> zset_ok (filter P z)"
  by (simp add: zset_ok_def sorted_filter_id distinct_map_filter)

lemma zset_ok_drop [intro]: "zset_ok z \<Longrightarrow> zset_ok (drop n z)"
  by (simp add: zset_ok_def sorted_drop_take drop_map [symmetric])

lemma distinct_snd_insort:
  "m \<notin> snd ` set z \<Longrightarrow> distinct (map snd (insort (x, m) z)) = distinct (map snd z)"
  by (induction z) (auto simp: set_insort_key)

lemma zset_ok_zput [intro]:
  assumes "zset_ok z"
  shows "zset_ok (zput x m z)"
proof -
  have "zset_ok (filter (\<lambda>e. snd e \<noteq> m) z)" using assms by blast
  moreover have "m \<notin> snd ` set (filter (\<lambda>e. snd e \<noteq> m) z)" by auto
  ultimately show ?thesis
    by (simp add: zset_ok_def zput_def sorted_insort distinct_snd_insort)
qed

lemma zset_ok_distinct: "zset_ok z \<Longrightarrow> distinct z"
  by (auto simp: zset_ok_def distinct_map)

text \<open>Two sorted sets with the same pairs are equal.\<close>

lemma zset_ok_eqI: "zset_ok z \<Longrightarrow> zset_ok z' \<Longrightarrow> set z = set z' \<Longrightarrow> z = z'"
  by (metis zset_ok_distinct zset_ok_def sorted_distinct_set_eq)

lemma length_zput: "m \<notin> snd ` set z \<Longrightarrow> length (zput x m z) = Suc (length z)"
  by (simp add: zput_def filter_snd_neq_id)

section \<open>The interface\<close>

datatype reply = RInt int | RStrs "string list"

type_synonym 's lua = "'s \<Rightarrow> reply \<times> 's"

record 's redis =
  rd_get :: "string \<Rightarrow> 's \<Rightarrow> string option"
  rd_set :: "string \<Rightarrow> string \<Rightarrow> 's \<Rightarrow> 's"
  rd_del :: "string \<Rightarrow> 's \<Rightarrow> 's"
  rd_zcard :: "string \<Rightarrow> 's \<Rightarrow> int"
  rd_zrange :: "string \<Rightarrow> 's \<Rightarrow> string list"
  rd_zrem :: "string \<Rightarrow> string \<Rightarrow> 's \<Rightarrow> int \<times> 's"
  rd_zadd :: "string \<Rightarrow> string \<Rightarrow> string \<Rightarrow> 's \<Rightarrow> 's"
  rd_zpopmin :: "string \<Rightarrow> nat \<Rightarrow> 's \<Rightarrow> string list \<times> 's"
  rd_eval :: "go_ctx \<Rightarrow> 's lua \<Rightarrow> 's \<Rightarrow> (go_error + reply) \<times> 's"
  rd_int64 :: "reply \<Rightarrow> go_error + int"
  rd_strings :: "reply \<Rightarrow> go_error + string list"
  rd_float_arg :: "int \<Rightarrow> string"
  rd_client_zcard :: "go_ctx \<Rightarrow> string \<Rightarrow> 's \<Rightarrow> (go_error + int) \<times> 's"
  rd_now :: "'s \<Rightarrow> instant"

text \<open>
  The outcome of a script's call: the reply, a failure before the script ran, or a failure
  after it ran.
\<close>

definition eval_outcome ::
  "('s \<Rightarrow> store) \<Rightarrow> 's lua \<Rightarrow> 's \<Rightarrow> (go_error + reply) \<times> 's \<Rightarrow> bool" where
  "eval_outcome alpha sc s res \<longleftrightarrow>
     (\<exists>s0. alpha s0 = alpha s \<and>
        (res = (Inr (fst (sc s0)), snd (sc s0))
         \<or> (\<exists>e. res = (Inl e, s0)) \<or> (\<exists>e. res = (Inl e, snd (sc s0)))))"

locale redis_server =
  fixes R :: "'s redis" and alpha :: "'s \<Rightarrow> store"
  assumes zsets_ok: "zset_ok (zset (alpha s) k)"
    and get: "zset (alpha s) k = [] \<Longrightarrow> rd_get R k s = strs (alpha s) k"
    and set_cmd: "alpha (rd_set R k v s)
          = (alpha s)\<lparr>zset := (zset (alpha s))(k := []), strs := (strs (alpha s))(k \<mapsto> v)\<rparr>"
    and del_cmd: "alpha (rd_del R k s)
          = (alpha s)\<lparr>zset := (zset (alpha s))(k := []), strs := (strs (alpha s))(k := None)\<rparr>"
    and zcard: "strs (alpha s) k = None \<Longrightarrow> rd_zcard R k s = int (length (zset (alpha s) k))"
    and zrange: "strs (alpha s) k = None \<Longrightarrow> rd_zrange R k s = map snd (zset (alpha s) k)"
    and zrem_count: "strs (alpha s) k = None \<Longrightarrow>
          fst (rd_zrem R k m s) = (if m \<in> snd ` set (zset (alpha s) k) then 1 else 0)"
    and zrem: "strs (alpha s) k = None \<Longrightarrow> alpha (snd (rd_zrem R k m s))
          = (alpha s)\<lparr>zset := (zset (alpha s))(k := filter (\<lambda>e. snd e \<noteq> m) (zset (alpha s) k))\<rparr>"
    and zadd: "strs (alpha s) k = None \<Longrightarrow> \<bar>x\<bar> < 2 ^ 53 \<Longrightarrow>
          alpha (rd_zadd R k (rd_float_arg R x) m s)
            = (alpha s)\<lparr>zset := (zset (alpha s))(k := zput x m (zset (alpha s) k))\<rparr>"
    and zpopmin_reply: "strs (alpha s) k = None \<Longrightarrow>
          list_all (\<lambda>e. \<bar>fst e\<bar> < 2 ^ 53) (take n (zset (alpha s) k)) \<Longrightarrow>
          fst (rd_zpopmin R k n s)
            = concat (map (\<lambda>e. [snd e, fmt_int (fst e)]) (take n (zset (alpha s) k)))"
    and zpopmin: "strs (alpha s) k = None \<Longrightarrow> alpha (snd (rd_zpopmin R k n s))
          = (alpha s)\<lparr>zset := (zset (alpha s))(k := drop n (zset (alpha s) k))\<rparr>"
    and eval: "eval_outcome alpha sc s (rd_eval R c sc s)"
    and int64: "rd_int64 R (RInt i) = Inr i"
    and strings: "rd_strings R (RStrs ss) = Inr ss"
    and client_zcard: "strs (alpha s) k = None \<Longrightarrow> \<exists>s0. alpha s0 = alpha s \<and>
          (rd_client_zcard R c k s = (Inr (int (length (zset (alpha s) k))), s0)
           \<or> (\<exists>e. rd_client_zcard R c k s = (Inl e, s0)))"
    and now_range: "0 \<le> unix_milli (rd_now R s) \<and> unix_milli (rd_now R s) < 2 ^ 53"

section \<open>The reference server\<close>

datatype net = NetOk | NetRequestLost go_error | NetReplyLost go_error

record ref_world =
  rw_store :: store
  rw_net :: "net list"
  rw_now :: instant

definition ref_eval :: "ref_world lua \<Rightarrow> ref_world \<Rightarrow> (go_error + reply) \<times> ref_world" where
  "ref_eval sc w =
     (case rw_net w of
        [] \<Rightarrow> (Inr (fst (sc w)), snd (sc w))
      | NetOk # ns \<Rightarrow> (let r = sc (w\<lparr>rw_net := ns\<rparr>) in (Inr (fst r), snd r))
      | NetRequestLost e # ns \<Rightarrow> (Inl e, w\<lparr>rw_net := ns\<rparr>)
      | NetReplyLost e # ns \<Rightarrow> (Inl e, snd (sc (w\<lparr>rw_net := ns\<rparr>))))"

text \<open>A state whose lists are not sorted sets reads as holding none.\<close>

definition znorm :: "zentry list \<Rightarrow> zentry list" where
  "znorm z = (if zset_ok z then z else [])"

definition ref_zset :: "ref_world \<Rightarrow> string \<Rightarrow> zentry list" where
  "ref_zset w k = znorm (zset (rw_store w) k)"

definition ref_view :: "ref_world \<Rightarrow> store" where
  "ref_view w = (rw_store w)\<lparr>zset := ref_zset w\<rparr>"

definition on_zset :: "string \<Rightarrow> (zentry list \<Rightarrow> zentry list) \<Rightarrow> ref_world \<Rightarrow> ref_world" where
  "on_zset k f w =
     w\<lparr>rw_store := (rw_store w)\<lparr>zset := (zset (rw_store w))(k := f (ref_zset w k))\<rparr>\<rparr>"

definition ref_score :: "string \<Rightarrow> int" where
  "ref_score s = (case parse_int64 s of Inl _ \<Rightarrow> 0 | Inr x \<Rightarrow> x)"

definition ref_clock :: "ref_world \<Rightarrow> instant" where
  "ref_clock w = (if 0 \<le> unix_milli (rw_now w) \<and> unix_milli (rw_now w) < 2 ^ 53 then rw_now w else 0)"

definition ref_redis :: "ref_world redis" where
  "ref_redis = \<lparr>
     rd_get = (\<lambda>k w. strs (rw_store w) k),
     rd_set = (\<lambda>k v w. w\<lparr>rw_store := (rw_store w)
        \<lparr>zset := (zset (rw_store w))(k := []), strs := (strs (rw_store w))(k \<mapsto> v)\<rparr>\<rparr>),
     rd_del = (\<lambda>k w. w\<lparr>rw_store := (rw_store w)
        \<lparr>zset := (zset (rw_store w))(k := []), strs := (strs (rw_store w))(k := None)\<rparr>\<rparr>),
     rd_zcard = (\<lambda>k w. int (length (ref_zset w k))),
     rd_zrange = (\<lambda>k w. map snd (ref_zset w k)),
     rd_zrem = (\<lambda>k m w. (if m \<in> snd ` set (ref_zset w k) then 1 else 0,
        on_zset k (filter (\<lambda>e. snd e \<noteq> m)) w)),
     rd_zadd = (\<lambda>k sc m. on_zset k (zput (ref_score sc) m)),
     rd_zpopmin = (\<lambda>k n w. (concat (map (\<lambda>e. [snd e, fmt_int (fst e)]) (take n (ref_zset w k))),
        on_zset k (drop n) w)),
     rd_eval = (\<lambda>c. ref_eval),
     rd_int64 = (\<lambda>r. case r of RInt i \<Rightarrow> Inr i | RStrs ss \<Rightarrow> Inl (ErrOther ''unexpected type'')),
     rd_strings = (\<lambda>r. case r of RStrs ss \<Rightarrow> Inr ss | RInt i \<Rightarrow> Inl (ErrOther ''unexpected type'')),
     rd_float_arg = fmt_int,
     rd_client_zcard = (\<lambda>c k w. case rw_net w of
          [] \<Rightarrow> (Inr (int (length (ref_zset w k))), w)
        | NetOk # ns \<Rightarrow> (Inr (int (length (ref_zset w k))), w\<lparr>rw_net := ns\<rparr>)
        | NetRequestLost e # ns \<Rightarrow> (Inl e, w\<lparr>rw_net := ns\<rparr>)
        | NetReplyLost e # ns \<Rightarrow> (Inl e, w\<lparr>rw_net := ns\<rparr>)),
     rd_now = ref_clock\<rparr>"

lemma znorm_ok [simp]: "zset_ok (znorm z)"
  by (simp add: znorm_def)

lemma znorm_id [simp]: "zset_ok z \<Longrightarrow> znorm z = z"
  by (simp add: znorm_def)

lemma ref_view_simps [simp]:
  "strs (ref_view w) = strs (rw_store w)" "zset (ref_view w) = ref_zset w"
  by (simp_all add: ref_view_def)

lemma ref_view_on_zset:
  "zset_ok (f (ref_zset w k)) \<Longrightarrow>
     ref_view (on_zset k f w) = (ref_view w)\<lparr>zset := (zset (ref_view w))(k := f (ref_zset w k))\<rparr>"
  by (auto simp: ref_view_def on_zset_def ref_zset_def fun_eq_iff)

lemma ref_view_net [simp]: "ref_view (w\<lparr>rw_net := ns\<rparr>) = ref_view w"
  by (auto simp: ref_view_def ref_zset_def fun_eq_iff)

lemma ref_zset_ok [simp]: "zset_ok (ref_zset w k)"
  by (simp add: ref_zset_def)

lemma ref_eval_outcome: "eval_outcome ref_view sc w (ref_eval sc w)"
proof (cases "rw_net w")
  case Nil
  then show ?thesis by (auto simp: ref_eval_def eval_outcome_def)
next
  case (Cons n ns)
  then show ?thesis
    unfolding ref_eval_def eval_outcome_def
    by (cases n; intro exI [of _ "w\<lparr>rw_net := ns\<rparr>"]) (auto simp: Let_def)
qed

lemma ref_score_fmt: "\<bar>x\<bar> < 2 ^ 53 \<Longrightarrow> ref_score (fmt_int x) = x"
  by (simp add: ref_score_def text_simps)

lemma ref_clock_range: "0 \<le> unix_milli (ref_clock w) \<and> unix_milli (ref_clock w) < 2 ^ 53"
  by (auto simp: ref_clock_def unix_milli_def)

interpretation ref: redis_server ref_redis ref_view
proof (unfold_locales, goal_cases)
  case (3 k v s)
  show ?case by (auto simp: ref_redis_def ref_view_def ref_zset_def fun_eq_iff)
next
  case (4 k s)
  show ?case by (auto simp: ref_redis_def ref_view_def ref_zset_def fun_eq_iff)
next
  case (8 s k m)
  show ?case by (simp add: ref_redis_def ref_view_on_zset zset_ok_filter)
next
  case (9 s k x m)
  then show ?case by (simp add: ref_redis_def ref_view_on_zset zset_ok_zput ref_score_fmt)
next
  case (11 s k n)
  show ?case by (simp add: ref_redis_def ref_view_on_zset zset_ok_drop)
next
  case (12 sc s c)
  show ?case by (simp add: ref_redis_def ref_eval_outcome)
next
  case (15 s k c)
  show ?case
  proof (cases "rw_net s")
    case Nil
    then show ?thesis by (auto simp: ref_redis_def)
  next
    case (Cons n ns)
    then show ?thesis
      by (intro exI [of _ "s\<lparr>rw_net := ns\<rparr>"]) (cases n; simp add: ref_redis_def)
  qed
next
  case (16 s)
  show ?case using ref_clock_range by (simp add: ref_redis_def)
qed (simp_all add: ref_redis_def)

end
