(* ===== verification/RedisRefine.thy ===== *)
theory RedisRefine
  imports RedisQueue
begin

text \<open>
  Each Lua script refines the operation of the abstract queue: run on a server that keeps its
  documented laws, it changes the store exactly as the operation says and replies its result.
\<close>

lemma owned_by_eq: "owned_by p = (\<lambda>e. first_field (snd e) = p)"
  by (simp add: fun_eq_iff owned_by_def)

context redis_server
begin

lemma removeLoop_store:
  "strs (alpha s) k = None \<Longrightarrow>
     alpha (snd (removeLoop R k p ms n s))
       = (alpha s)\<lparr>zset := (zset (alpha s))
           (k := filter (\<lambda>e. \<not> (snd e \<in> set ms \<and> owned_by p e)) (zset (alpha s) k))\<rparr>"
proof (induction ms arbitrary: n s)
  case Nil
  then show ?case by simp
next
  case (Cons m ms)
  show ?case
  proof (cases "first_field m = p")
    case True
    obtain n' s' where z: "rd_zrem R k m s = (n', s')" by fastforce
    have s': "alpha s' = (alpha s)\<lparr>zset := (zset (alpha s))
        (k := filter (\<lambda>e. snd e \<noteq> m) (zset (alpha s) k))\<rparr>"
      using zrem [OF Cons.prems, of m] z by simp
    then have "strs (alpha s') k = None" using Cons.prems by simp
    from Cons.IH [OF this, of "n + n'"] have "alpha (snd (removeLoop R k p (m # ms) n s))
        = (alpha s)\<lparr>zset := (zset (alpha s))(k := filter (\<lambda>e. \<not> (snd e \<in> set ms \<and> owned_by p e))
            (filter (\<lambda>e. snd e \<noteq> m) (zset (alpha s) k)))\<rparr>"
      by (simp add: z s' True fun_upd_def del: filter_filter cong: if_cong)
    also have "filter (\<lambda>e. \<not> (snd e \<in> set ms \<and> owned_by p e))
          (filter (\<lambda>e. snd e \<noteq> m) (zset (alpha s) k))
        = filter (\<lambda>e. \<not> (snd e \<in> set (m # ms) \<and> owned_by p e)) (zset (alpha s) k)"
      by (simp only: filter_filter, rule filter_cong) (auto simp: owned_by_def True)
    finally show ?thesis .
  next
    case False
    from Cons.IH [OF Cons.prems, of n] have "alpha (snd (removeLoop R k p (m # ms) n s))
        = (alpha s)\<lparr>zset := (zset (alpha s))
            (k := filter (\<lambda>e. \<not> (snd e \<in> set ms \<and> owned_by p e)) (zset (alpha s) k))\<rparr>"
      by (simp only: removeLoop.simps(2) False if_False)
    also have "filter (\<lambda>e. \<not> (snd e \<in> set ms \<and> owned_by p e)) (zset (alpha s) k)
        = filter (\<lambda>e. \<not> (snd e \<in> set (m # ms) \<and> owned_by p e)) (zset (alpha s) k)"
      by (rule filter_cong) (use False in \<open>auto simp: owned_by_def\<close>)
    finally show ?thesis .
  qed
qed

lemma removeLoop_count:
  "strs (alpha s) k = None \<Longrightarrow> distinct ms \<Longrightarrow> set ms \<subseteq> snd ` set (zset (alpha s) k) \<Longrightarrow>
     fst (removeLoop R k p ms n s) = n + int (length (filter (\<lambda>m. first_field m = p) ms))"
proof (induction ms arbitrary: n s)
  case Nil
  then show ?case by simp
next
  case (Cons m ms)
  show ?case
  proof (cases "first_field m = p")
    case True
    obtain n' s' where z: "rd_zrem R k m s = (n', s')" by fastforce
    have s': "alpha s' = (alpha s)\<lparr>zset := (zset (alpha s))
        (k := filter (\<lambda>e. snd e \<noteq> m) (zset (alpha s) k))\<rparr>"
      using zrem [OF Cons.prems(1), of m] z by simp
    have n': "n' = 1" using zrem_count [OF Cons.prems(1), of m] z Cons.prems(3) by auto
    have "strs (alpha s') k = None" using s' Cons.prems(1) by simp
    moreover have "set ms \<subseteq> snd ` set (zset (alpha s') k)"
      using Cons.prems(2,3) s' by force
    ultimately have "fst (removeLoop R k p ms (n + n') s')
        = n + n' + int (length (filter (\<lambda>m. first_field m = p) ms))"
      using Cons.IH Cons.prems(2) by simp
    then show ?thesis using True z n' by simp
  next
    case False
    with Cons show ?thesis by simp
  qed
qed

lemma removePlayerEntries_store:
  assumes "keys_ok (alpha s)"
  shows "alpha (snd (removePlayerEntries R queueKey p s))
           = put_mq (mq_remove p (mq_of (alpha s))) (alpha s)"
proof -
  have k: "strs (alpha s) queueKey = None" using assms by (simp add: keys_ok_def)
  have "filter (\<lambda>e. \<not> (snd e \<in> snd ` set (zset (alpha s) queueKey) \<and> owned_by p e)) (zset (alpha s) queueKey)
      = filter (\<lambda>e. \<not> owned_by p e) (zset (alpha s) queueKey)"
    by (rule filter_cong) auto
  then show ?thesis
    using removeLoop_store [OF k, of p "rd_zrange R queueKey s" 0]
    by (simp add: removePlayerEntries_def zrange [OF k] put_mq_def mq_remove_def)
qed

lemma removePlayerEntries_count:
  assumes "keys_ok (alpha s)"
  shows "fst (removePlayerEntries R queueKey p s)
           = int (length (filter (owned_by p) (zset (alpha s) queueKey)))"
proof -
  have k: "strs (alpha s) queueKey = None" using assms by (simp add: keys_ok_def)
  have "distinct (map snd (zset (alpha s) queueKey))" using zsets_ok by (simp add: zset_ok_def)
  then show ?thesis
    using removeLoop_count [OF k, of "map snd (zset (alpha s) queueKey)" p 0]
    by (simp add: removePlayerEntries_def zrange [OF k] filter_map o_def owned_by_eq)
qed

lemma zadd_mq:
  assumes "keys_ok (alpha s)" and "\<bar>x\<bar> < 2 ^ 53"
  shows "alpha (rd_zadd R queueKey (rd_float_arg R x) m s)
           = put_mq ((mq_of (alpha s))\<lparr>waiting := zput x m (zset (alpha s) queueKey)\<rparr>) (alpha s)"
  using zadd [of s queueKey x m] assms by (simp add: keys_ok_def put_mq_def)

lemma put_entry_store:
  assumes "keys_ok (alpha s)" and "\<bar>x\<bar> < 2 ^ 53"
  shows "alpha (rd_zadd R queueKey (rd_float_arg R x) m (snd (removePlayerEntries R queueKey p s)))
           = put_mq (mq_put p m x (mq_of (alpha s))) (alpha s)"
  using assms zadd_mq [of "snd (removePlayerEntries R queueKey p s)" x m]
  by (simp add: removePlayerEntries_store mq_put_def mq_remove_def)

lemma get_instance:
  "keys_ok (alpha s) \<Longrightarrow> rd_get R gatewayInstanceKey s = inst (mq_of (alpha s))"
  by (simp add: get keys_ok_def)

lemma enqueueScript_refines:
  assumes ok: "keys_ok (alpha s)" and x: "\<bar>x\<bar> < 2 ^ 53"
  shows "alpha (snd (enqueueScript R queueKey gatewayInstanceKey p m (rd_float_arg R x) g s))
           = put_mq (mq_enqueue p m x g (mq_of (alpha s))) (alpha s)" (is ?store)
    and "fst (enqueueScript R queueKey gatewayInstanceKey p m (rd_float_arg R x) g s)
           = RInt (if inst (mq_of (alpha s)) = Some g then 0
                   else int (length (waiting (mq_of (alpha s)))))" (is ?reply)
proof -
  let ?keep = "inst (mq_of (alpha s)) = Some g"
  define s1 where "s1 = (if ?keep then s else rd_del R queueKey s)"
  define s2 where "s2 = rd_set R gatewayInstanceKey g s1"
  have k: "strs (alpha s) queueKey = None" "zset (alpha s) gatewayInstanceKey = []"
    using ok by (simp_all add: keys_ok_def)
  have s1: "alpha s1 = put_mq \<lparr>waiting = (if ?keep then zset (alpha s) queueKey else []),
      inst = strs (alpha s) gatewayInstanceKey\<rparr> (alpha s)"
    using k by (simp add: s1_def del_cmd put_mq_def fun_upd_idem)
  then have "alpha s2 = put_mq \<lparr>waiting = (if ?keep then zset (alpha s) queueKey else []),
      inst = Some g\<rparr> (alpha s)"
    using k by (auto simp: s2_def set_cmd put_mq_def fun_upd_idem fun_upd_twist)
  moreover from this have "keys_ok (alpha s2)" using ok by simp
  moreover have "enqueueScript R queueKey gatewayInstanceKey p m (rd_float_arg R x) g s
      = (RInt (if ?keep then 0 else rd_zcard R queueKey s),
         rd_zadd R queueKey (rd_float_arg R x) m (snd (removePlayerEntries R queueKey p s2)))"
    using get_instance [OF ok] by (simp add: enqueueScript_def s1_def s2_def)
  ultimately show ?store ?reply
    using put_entry_store [OF _ x, of s2 m p] zcard [OF k(1)]
    by (simp_all add: mq_enqueue_def)
qed

lemma popPairScript_refines:
  assumes ok: "keys_ok (alpha s)"
  shows "alpha (snd (popPairScript R queueKey gatewayInstanceKey s))
           = put_mq (mq_pop (mq_of (alpha s))) (alpha s)" (is ?store)
    and "list_all (\<lambda>e. \<bar>fst e\<bar> < 2 ^ 53) (zset (alpha s) queueKey) \<Longrightarrow>
         fst (popPairScript R queueKey gatewayInstanceKey s)
           = RStrs (if length (zset (alpha s) queueKey) < 2 then []
                    else inst_text (mq_of (alpha s))
                       # concat (map (\<lambda>e. [snd e, fmt_int (fst e)]) (take 2 (zset (alpha s) queueKey))))"
      (is "_ \<Longrightarrow> ?reply")
proof -
  have k: "strs (alpha s) queueKey = None" using ok by (simp add: keys_ok_def)
  obtain pair s1 where z: "rd_zpopmin R queueKey 2 s = (pair, s1)" by fastforce
  have s1: "alpha s1 = put_mq ((mq_of (alpha s))\<lparr>waiting := drop 2 (zset (alpha s) queueKey)\<rparr>) (alpha s)"
    using zpopmin [OF k, of 2] z by (simp add: put_mq_def)
  then have g: "rd_get R gatewayInstanceKey s1 = inst (mq_of (alpha s))"
    using get_instance [of s1] ok by simp
  show ?store
    using s1 by (simp add: popPairScript_def zcard [OF k] z mq_pop_def)
  assume "list_all (\<lambda>e. \<bar>fst e\<bar> < 2 ^ 53) (zset (alpha s) queueKey)"
  then have "list_all (\<lambda>e. \<bar>fst e\<bar> < 2 ^ 53) (take 2 (zset (alpha s) queueKey))"
    by (metis append_take_drop_id list_all_append)
  from zpopmin_reply [OF k this] show ?reply
    using z g by (simp add: popPairScript_def zcard [OF k] inst_text_def)
qed

lemma cancelScript_refines:
  assumes "keys_ok (alpha s)"
  shows "alpha (snd (cancelScript R queueKey p s)) = put_mq (mq_remove p (mq_of (alpha s))) (alpha s)"
    and "fst (cancelScript R queueKey p s)
           = RInt (int (length (filter (owned_by p) (zset (alpha s) queueKey))))"
  using removePlayerEntries_store [OF assms, of p] removePlayerEntries_count [OF assms, of p]
  by (simp_all add: cancelScript_def case_prod_beta)

lemma reenqueueLoop_store:
  "keys_ok (alpha s) \<Longrightarrow> list_all (\<lambda>(p, m, x). \<bar>x\<bar> < 2 ^ 53) ts \<Longrightarrow>
     alpha (reenqueueLoop R queueKey (script_args R ts) s)
       = put_mq (mq_puts ts (mq_of (alpha s))) (alpha s)"
proof (induction ts arbitrary: s)
  case Nil
  then show ?case by (simp add: script_args_def)
next
  case (Cons t ts)
  obtain p m x where t: "t = (p, m, x)" by (cases t)
  let ?s = "rd_zadd R queueKey (rd_float_arg R x) m (snd (removePlayerEntries R queueKey p s))"
  have s: "alpha ?s = put_mq (mq_put p m x (mq_of (alpha s))) (alpha s)"
    using Cons.prems t by (intro put_entry_store) simp_all
  then have "alpha (reenqueueLoop R queueKey (script_args R ts) ?s)
      = put_mq (mq_puts ts (mq_of (alpha ?s))) (alpha ?s)"
    using Cons.prems by (intro Cons.IH) simp_all
  moreover have "script_args R (t # ts) = p # m # rd_float_arg R x # script_args R ts"
    by (simp add: script_args_def t)
  ultimately show ?case by (simp add: t s Let_def)
qed

lemma reenqueueScript_refines:
  assumes ok: "keys_ok (alpha s)" and "list_all (\<lambda>(p, m, x). \<bar>x\<bar> < 2 ^ 53) ts"
  shows "alpha (snd (reenqueueScript R queueKey gatewayInstanceKey g (script_args R ts) s))
           = put_mq (mq_reenqueue ts g (mq_of (alpha s))) (alpha s)"
    and "fst (reenqueueScript R queueKey gatewayInstanceKey g (script_args R ts) s)
           = RInt (if inst_text (mq_of (alpha s)) = g then 1 else 0)"
  using get_instance [OF ok] reenqueueLoop_store [OF assms]
  by (simp_all add: reenqueueScript_def mq_reenqueue_def inst_text_def)

end

end
