(* ===== verification/QueueSpec.thy ===== *)
theory QueueSpec
  imports RedisQueue
begin

text \<open>
  What the abstract queue keeps: the well-formedness invariant (sorted by join time and member,
  every member canonical, one entry per player), preserved by every operation; the entries a
  well-formed queue holds; and that writing a popped pair back restores the queue.
\<close>

section \<open>Well-formed queues\<close>

definition canonical :: "string \<Rightarrow> bool" where
  "canonical m =
     (case decodeMember m of
        Inl _ \<Rightarrow> False
      | Inr (p, d, l, n) \<Rightarrow> validateMemberPlayerID p = None \<and> m = encodeMember p d l n)"

definition entry_wf :: "zentry \<Rightarrow> bool" where
  "entry_wf e \<longleftrightarrow> \<bar>fst e\<bar> < 2 ^ 53 \<and> canonical (snd e)"

definition owner :: "zentry \<Rightarrow> string" where
  "owner e = first_field (snd e)"

definition mq_wf :: "mqueue \<Rightarrow> bool" where
  "mq_wf q \<longleftrightarrow> zset_ok (waiting q) \<and> list_all entry_wf (waiting q) \<and> distinct (map owner (waiting q))"

lemma owned_by_owner: "owned_by p e \<longleftrightarrow> owner e = p"
  by (simp add: owned_by_def owner_def)

lemma canonical_encode: "validateMemberPlayerID p = None \<Longrightarrow> canonical (encodeMember p d l n)"
  by (auto simp: canonical_def validate_None_iff decode_encode)

lemma canonicalE:
  assumes "canonical m"
  obtains p d l n where "validateMemberPlayerID p = None" "m = encodeMember p d l n"
    "decodeMember m = Inr (p, d, l, n)" "first_field m = p"
  using assms by (fastforce simp: canonical_def validate_None_iff split: sum.splits)

section \<open>Entries\<close>

text \<open>The domain entry that a pair of the sorted set stands for.\<close>

definition entry_of :: "zentry \<Rightarrow> QueueEntry" where
  "entry_of e =
     (case (case decodeMember (snd e) of Inl _ \<Rightarrow> ([], 0, 0, []) | Inr r \<Rightarrow> r) of
        (p, d, l, n) \<Rightarrow> \<lparr>PlayerID = p, DeckID = d, Name = n, Level = l,
                         JoinedAt = unix_milli_time (fst e)\<rparr>)"

text \<open>The triple with which \<open>Reenqueue\<close> writes an entry.\<close>

definition triple_of :: "QueueEntry \<Rightarrow> string \<times> string \<times> int" where
  "triple_of e = (PlayerID e, encodeMember (PlayerID e) (DeckID e) (Level e) (Name e),
                  float64_of_int (unix_milli (JoinedAt e)))"

lemma entry_of_encode:
  "validateMemberPlayerID p = None \<Longrightarrow> entry_of (x, encodeMember p d l n)
     = \<lparr>PlayerID = p, DeckID = d, Name = n, Level = l, JoinedAt = unix_milli_time x\<rparr>"
  by (simp add: entry_of_def validate_None_iff decode_encode)

lemma entry_wfE:
  assumes "entry_wf e"
  obtains p d l n x where "validateMemberPlayerID p = None" "e = (x, encodeMember p d l n)"
    "\<bar>x\<bar> < 2 ^ 53" "owner e = p"
    "entry_of e = \<lparr>PlayerID = p, DeckID = d, Name = n, Level = l, JoinedAt = unix_milli_time x\<rparr>"
proof -
  obtain x m where e: "e = (x, m)" by (cases e)
  from assms have "canonical m" and x: "\<bar>x\<bar> < 2 ^ 53" by (simp_all add: entry_wf_def e)
  then obtain p d l n where *: "validateMemberPlayerID p = None" "m = encodeMember p d l n"
    "first_field m = p" by (blast elim: canonicalE)
  show ?thesis
    by (rule that [of p x d l n]) (use * x e in \<open>simp_all add: entry_of_encode owner_def\<close>)
qed

lemma PlayerID_entry_of: "entry_wf e \<Longrightarrow> PlayerID (entry_of e) = owner e"
  by (erule entry_wfE) simp

lemma JoinedAt_entry_of: "JoinedAt (entry_of e) = unix_milli_time (fst e)"
  by (simp add: entry_of_def split: prod.split)

lemma validate_entry_of: "entry_wf e \<Longrightarrow> validateMemberPlayerID (PlayerID (entry_of e)) = None"
  by (erule entry_wfE) simp

lemma triple_entry_of: "entry_wf e \<Longrightarrow> triple_of (entry_of e) = (owner e, snd e, fst e)"
  by (erule entry_wfE) (simp add: triple_of_def)

lemma parsePair_entries:
  "list_all entry_wf es \<Longrightarrow>
     parsePair (concat (map (\<lambda>e. [snd e, fmt_int (fst e)]) es)) = Inr (map entry_of es)"
proof (induction es)
  case Nil
  then show ?case by simp
next
  case (Cons e es)
  then obtain p d l n x where e: "validateMemberPlayerID p = None" "e = (x, encodeMember p d l n)"
    "\<bar>x\<bar> < 2 ^ 53" by (auto elim: entry_wfE)
  then have "parse_int64 (fmt_int x) = Inr x" by (intro parse_int64_fmt_int) auto
  moreover have "decodeMember (encodeMember p d l n) = Inr (p, d, l, n)"
    using e(1) by (simp add: validate_None_iff decode_encode)
  ultimately show ?case
    using Cons e by (simp add: entry_of_encode)
qed

section \<open>The operations keep well-formedness\<close>

lemma mq_wf_filter: "mq_wf q \<Longrightarrow> mq_wf (q\<lparr>waiting := filter P (waiting q)\<rparr>)"
  by (auto simp: mq_wf_def list_all_iff distinct_map_filter)

lemma mq_wf_drop: "mq_wf q \<Longrightarrow> mq_wf (q\<lparr>waiting := drop k (waiting q)\<rparr>)"
  by (auto simp: mq_wf_def list_all_iff drop_map [symmetric] dest: in_set_dropD)

lemma mq_wf_remove: "mq_wf q \<Longrightarrow> mq_wf (mq_remove p q)"
  unfolding mq_remove_def by (rule mq_wf_filter)

lemma mq_wf_pop: "mq_wf q \<Longrightarrow> mq_wf (mq_pop q)"
  unfolding mq_pop_def by (simp add: mq_wf_drop)

lemma distinct_owner_insort:
  "owner e \<notin> owner ` set z \<Longrightarrow> distinct (map owner (insort e z)) = distinct (map owner z)"
  by (induction z) (auto simp: set_insort_key)

lemma zput_no_owner:
  assumes "\<not> (\<exists>e\<in>set z. owner e = first_field m)"
  shows "zput x m z = insort (x, m) z"
proof -
  have "filter (\<lambda>e. snd e \<noteq> m) z = z"
    by (rule filter_True) (use assms in \<open>auto simp: owner_def\<close>)
  then show ?thesis by (simp add: zput_def)
qed

text \<open>Putting an entry replaces whatever the player had.\<close>

lemma waiting_mq_put:
  assumes "first_field m = p"
  shows "waiting (mq_put p m x q) = insort (x, m) (filter (\<lambda>e. owner e \<noteq> p) (waiting q))"
  using assms by (auto simp: mq_put_def owned_by_owner intro!: zput_no_owner)

lemma mq_wf_put:
  assumes "mq_wf q" and "validateMemberPlayerID p = None" and "\<bar>x\<bar> < 2 ^ 53"
  shows "mq_wf (mq_put p (encodeMember p d l n) x q)"
proof -
  let ?z = "filter (\<lambda>e. owner e \<noteq> p) (waiting q)" and ?e = "(x, encodeMember p d l n)"
  have f: "first_field (encodeMember p d l n) = p"
    using assms(2) by (simp add: validate_None_iff)
  have w: "waiting (mq_put p (encodeMember p d l n) x q) = insort ?e ?z"
    by (rule waiting_mq_put [OF f])
  have "owner ?e \<notin> owner ` set ?z" using f by (auto simp: owner_def)
  then have "distinct (map owner (insort ?e ?z))"
    using assms(1) by (simp add: distinct_owner_insort mq_wf_def distinct_map_filter)
  moreover have "zset_ok (zput x (encodeMember p d l n) ?z)"
    using assms(1) by (intro zset_ok_zput zset_ok_filter) (simp add: mq_wf_def)
  moreover have "zput x (encodeMember p d l n) ?z = insort ?e ?z"
    using f by (intro zput_no_owner) auto
  moreover have "list_all entry_wf (insort ?e ?z)"
    using assms by (auto simp: list_all_iff set_insort_key entry_wf_def canonical_encode mq_wf_def)
  ultimately show ?thesis by (simp add: mq_wf_def w)
qed

lemma mq_wf_enqueue:
  assumes "mq_wf q" and "validateMemberPlayerID p = None" and "\<bar>x\<bar> < 2 ^ 53"
  shows "mq_wf (mq_enqueue p (encodeMember p d l n) x g q)"
proof -
  have "mq_wf \<lparr>waiting = (if inst q = Some g then waiting q else []), inst = Some g\<rparr>"
    using assms(1) by (simp add: mq_wf_def)
  then show ?thesis
    unfolding mq_enqueue_def using assms(2,3) by (rule mq_wf_put)
qed

definition writable :: "QueueEntry \<Rightarrow> bool" where
  "writable e \<longleftrightarrow> validateMemberPlayerID (PlayerID e) = None \<and> \<bar>unix_milli (JoinedAt e)\<bar> < 2 ^ 53"

lemma mq_wf_puts:
  "mq_wf q \<Longrightarrow> list_all writable es \<Longrightarrow> mq_wf (mq_puts (map triple_of es) q)"
  by (induction es arbitrary: q) (auto simp: triple_of_def writable_def mq_wf_put)

lemma mq_wf_reenqueue:
  "mq_wf q \<Longrightarrow> list_all writable es \<Longrightarrow> mq_wf (mq_reenqueue (map triple_of es) g q)"
  by (simp add: mq_reenqueue_def mq_wf_puts)

lemma writable_entry_of: "entry_wf e \<Longrightarrow> writable (entry_of e)"
  by (erule entry_wfE) (simp add: writable_def)

lemma inst_mq_put [simp]: "inst (mq_put p m x q) = inst q"
  by (simp add: mq_put_def)

lemma inst_mq_puts [simp]: "inst (mq_puts ts q) = inst q"
  by (induction ts arbitrary: q) auto

lemma inst_mq_pop [simp]: "inst (mq_pop q) = inst q"
  by (simp add: mq_pop_def)

section \<open>Popping and writing back\<close>

lemma insort_min:
  "sorted (a # z) \<Longrightarrow> insort (a::'a::linorder) z = a # z"
  by (cases z) auto

lemma filter_owner_id: "p \<notin> owner ` set z \<Longrightarrow> filter (\<lambda>e. owner e \<noteq> p) z = z"
  by (induction z) auto

lemma mq_put_front:
  assumes "mq_wf (q\<lparr>waiting := a # z\<rparr>)" and "waiting q = z"
  shows "mq_put (owner a) (snd a) (fst a) q = q\<lparr>waiting := a # z\<rparr>"
proof -
  have "filter (\<lambda>e. owner e \<noteq> owner a) z = z"
    by (rule filter_owner_id) (use assms in \<open>simp add: mq_wf_def\<close>)
  moreover have "insort a z = a # z"
    using assms by (intro insort_min) (simp add: mq_wf_def zset_ok_def)
  ultimately have "waiting (mq_put (owner a) (snd a) (fst a) q) = a # z"
    using assms(2) by (subst waiting_mq_put) (simp_all add: owner_def)
  then show ?thesis by (simp add: mq_put_def)
qed

text \<open>Writing a popped pair back under an unchanged identifier restores the queue.\<close>

lemma reenqueue_popped:
  assumes wf: "mq_wf q" and n: "2 \<le> length (waiting q)"
  shows "mq_reenqueue (map triple_of (map entry_of (take 2 (waiting q)))) (inst_text q) (mq_pop q) = q"
proof -
  obtain a b z where w: "waiting q = a # b # z" using take2_cases [OF n] by blast
  let ?r = "q\<lparr>waiting := z\<rparr>"
  have q: "q = q\<lparr>waiting := a # b # z\<rparr>" using w by (metis mqueue.surjective mqueue.update_convs(1))
  have ab: "owner a \<noteq> owner b" and ew: "entry_wf a" "entry_wf b"
    and ok: "zset_ok (a # b # z)" and ds: "distinct (map owner (a # b # z))"
    using wf by (auto simp: mq_wf_def w)
  have wf_az: "mq_wf (?r\<lparr>waiting := a # z\<rparr>)"
    using wf ok by (auto simp: mq_wf_def w zset_ok_def)
  have a: "mq_put (owner a) (snd a) (fst a) ?r = q\<lparr>waiting := a # z\<rparr>"
    using mq_put_front [OF wf_az] by simp
  have "filter (\<lambda>e. owner e \<noteq> owner b) (a # z) = a # z"
    by (rule filter_owner_id) (use ds in auto)
  then have "waiting (mq_put (owner b) (snd b) (fst b) (q\<lparr>waiting := a # z\<rparr>)) = insort b (a # z)"
    by (subst waiting_mq_put) (simp_all add: owner_def)
  also have "insort b (a # z) = a # b # z"
  proof -
    have "sorted (a # b # z)" and "a \<noteq> b" using ok ab by (auto simp: zset_ok_def)
    then show ?thesis using insort_min [of b z] by auto
  qed
  finally have "mq_put (owner b) (snd b) (fst b) (q\<lparr>waiting := a # z\<rparr>) = q"
    using q by (metis mq_put_def mqueue.select_convs(1) mqueue.surjective mqueue.update_convs(1))
  then show ?thesis
    using ew by (simp add: mq_reenqueue_def mq_pop_def w triple_entry_of inst_text_def a)
qed

end
