(* ===== verification/QueueContract.thy ===== *)
theory QueueContract
  imports QueueSpec
begin

text \<open>
  The contract of \<open>port.Queue\<close> (internal/port/queue.go), as the use cases rely on it: the locale
  \<open>queue_contract\<close> gives, for an implementation \<open>Q\<close> over a world \<open>'w\<close>, the waiting entries in
  the order in which they leave, the last gateway instance identifier, and what each operation
  does to them when it succeeds and when it fails. A failed call leaves the queue as it was or
  has its full effect (its reply was lost); nothing else.
\<close>

text \<open>An entry as the queue stores it: the join time in whole milliseconds.\<close>

definition stored :: "QueueEntry \<Rightarrow> QueueEntry" where
  "stored e = e\<lparr>JoinedAt := unix_milli_time (unix_milli (JoinedAt e))\<rparr>"

text \<open>The entries after writing a list of entries: each replaces what its player had.\<close>

fun requeue :: "QueueEntry list \<Rightarrow> QueueEntry set \<Rightarrow> QueueEntry set" where
  "requeue [] E = E"
| "requeue (e # es) E = requeue es (insert (stored e) {e' \<in> E. PlayerID e' \<noteq> PlayerID e})"

definition id_text :: "string option \<Rightarrow> string" where
  "id_text i = (case i of None \<Rightarrow> [] | Some v \<Rightarrow> v)"

locale queue_contract =
  fixes Q :: "'w Queue" and inv :: "'w \<Rightarrow> bool"
    and entries :: "'w \<Rightarrow> QueueEntry list" and instance_of :: "'w \<Rightarrow> string option"
  assumes unique: "inv w \<Longrightarrow> distinct (map PlayerID (entries w))"
    and fifo: "inv w \<Longrightarrow> sorted (map JoinedAt (entries w))"
    and entries_writable: "inv w \<Longrightarrow> list_all writable (entries w)"
    and exact_times: "inv w \<Longrightarrow> e \<in> set (entries w) \<Longrightarrow> stored e = e"
    and enqueue_invalid: "validateMemberPlayerID p \<noteq> None \<or> g = [] \<Longrightarrow>
          \<exists>err. Enqueue Q c p d n l g w = (Inl err, w)"
    and enqueue_inv: "inv w \<Longrightarrow> inv (snd (Enqueue Q c p d n l g w))"
    and enqueue_ok: "inv w \<Longrightarrow> Enqueue Q c p d n l g w = (Inr k, w') \<Longrightarrow>
          k = (if instance_of w = Some g then 0 else int (length (entries w)))
          \<and> instance_of w' = Some g
          \<and> (\<exists>t. set (entries w') =
                insert \<lparr>PlayerID = p, DeckID = d, Name = n, Level = l, JoinedAt = t\<rparr>
                  {e \<in> (if instance_of w = Some g then set (entries w) else {}). PlayerID e \<noteq> p})"
    and enqueue_err: "inv w \<Longrightarrow> Enqueue Q c p d n l g w = (Inl err, w') \<Longrightarrow>
          (entries w' = entries w \<and> instance_of w' = instance_of w)
          \<or> (instance_of w' = Some g
             \<and> (\<exists>t. set (entries w') =
                insert \<lparr>PlayerID = p, DeckID = d, Name = n, Level = l, JoinedAt = t\<rparr>
                  {e \<in> (if instance_of w = Some g then set (entries w) else {}). PlayerID e \<noteq> p}))"
    and cancel_inv: "inv w \<Longrightarrow> inv (snd (Cancel Q c p w)) \<and> instance_of (snd (Cancel Q c p w)) = instance_of w"
    and cancel_ok: "inv w \<Longrightarrow> Cancel Q c p w = (Inr b, w') \<Longrightarrow>
          entries w' = filter (\<lambda>e. PlayerID e \<noteq> p) (entries w) \<and> (b \<longleftrightarrow> p \<in> PlayerID ` set (entries w))"
    and cancel_err: "inv w \<Longrightarrow> Cancel Q c p w = (Inl err, w') \<Longrightarrow>
          entries w' = entries w \<or> entries w' = filter (\<lambda>e. PlayerID e \<noteq> p) (entries w)"
    and size_inv: "inv w \<Longrightarrow> inv (snd (Size Q c w)) \<and> entries (snd (Size Q c w)) = entries w
          \<and> instance_of (snd (Size Q c w)) = instance_of w"
    and size_ok: "inv w \<Longrightarrow> Size Q c w = (Inr k, w') \<Longrightarrow> k = int (length (entries w))"
    and pop_inv: "inv w \<Longrightarrow> inv (snd (PopPair Q c w)) \<and> instance_of (snd (PopPair Q c w)) = instance_of w"
    and pop_ok: "inv w \<Longrightarrow> PopPair Q c w = (Inr (es, g), w') \<Longrightarrow>
          (if length (entries w) < 2 then es = [] \<and> entries w' = entries w
           else es = take 2 (entries w) \<and> g = id_text (instance_of w) \<and> entries w' = drop 2 (entries w))"
    and pop_err: "inv w \<Longrightarrow> PopPair Q c w = (Inl err, w') \<Longrightarrow>
          entries w' = entries w \<or> (2 \<le> length (entries w) \<and> entries w' = drop 2 (entries w))"
    and reenqueue_inv: "inv w \<Longrightarrow> list_all writable es \<Longrightarrow>
          inv (snd (Reenqueue Q c es g w)) \<and> instance_of (snd (Reenqueue Q c es g w)) = instance_of w"
    and reenqueue_ok: "inv w \<Longrightarrow> list_all writable es \<Longrightarrow> Reenqueue Q c es g w = (Inr b, w') \<Longrightarrow>
          (b \<longleftrightarrow> g = id_text (instance_of w))
          \<and> (if b then set (entries w') = requeue es (set (entries w)) else entries w' = entries w)"
    and reenqueue_err: "inv w \<Longrightarrow> list_all writable es \<Longrightarrow> Reenqueue Q c es g w = (Inl err, w') \<Longrightarrow>
          entries w' = entries w
          \<or> (g = id_text (instance_of w) \<and> set (entries w') = requeue es (set (entries w)))"
    and same_entries: "inv w \<Longrightarrow> inv w' \<Longrightarrow> set (entries w) = set (entries w') \<Longrightarrow> entries w = entries w'"

section \<open>Consequences\<close>

lemma stored_PlayerID [simp]: "PlayerID (stored e) = PlayerID e"
  by (simp add: stored_def)

lemma requeue_others:
  "e' \<in> requeue es E \<longleftrightarrow> e' \<in> requeue es {} \<or> (e' \<in> E \<and> PlayerID e' \<notin> PlayerID ` set es)"
proof (induction es arbitrary: E)
  case Nil
  then show ?case by simp
next
  case (Cons e es)
  show ?case
    by (subst (1 2) requeue.simps, subst (1 2) Cons.IH) auto
qed

lemma requeue_players: "PlayerID ` requeue es E = PlayerID ` set es \<union> PlayerID ` E"
proof (induction es arbitrary: E)
  case (Cons e es)
  have "PlayerID ` {e' \<in> E. PlayerID e' \<noteq> PlayerID e} \<union> {PlayerID e} = PlayerID ` E \<union> {PlayerID e}"
    by auto
  then show ?case using Cons by auto
qed simp

lemma requeue_distinct:
  "distinct (map PlayerID es) \<Longrightarrow>
     requeue es E = stored ` set es \<union> {e' \<in> E. PlayerID e' \<notin> PlayerID ` set es}"
proof (induction es arbitrary: E)
  case Nil
  then show ?case by simp
next
  case (Cons e es)
  then show ?case by auto
qed

text \<open>Writing the same entries twice is writing them once.\<close>

lemma requeue_idem:
  assumes "distinct (map PlayerID es)"
  shows "requeue es (requeue es E) = requeue es E"
  using requeue_distinct [OF assms] by auto

context queue_contract
begin

lemma popped_pair:
  assumes "inv w" and "PopPair Q c w = (Inr (es, g), w')" and "es \<noteq> []"
  shows "es = take 2 (entries w)" "2 \<le> length (entries w)" "g = id_text (instance_of w)"
    "entries w' = drop 2 (entries w)" "list_all writable es" "distinct (map PlayerID es)"
    "\<forall>e \<in> set es. stored e = e"
proof -
  show es: "es = take 2 (entries w)" "2 \<le> length (entries w)" "g = id_text (instance_of w)"
    "entries w' = drop 2 (entries w)"
    using pop_ok [OF assms(1,2)] assms(3) by (auto split: if_splits)
  show "list_all writable es" using entries_writable [OF assms(1)] es(1)
    by (auto simp: list_all_iff dest: in_set_takeD)
  show "distinct (map PlayerID es)" using unique [OF assms(1)] es(1)
    by (simp add: take_map [symmetric])
  show "\<forall>e \<in> set es. stored e = e" using exact_times [OF assms(1)] es(1)
    by (auto dest: in_set_takeD)
qed

lemma requeue_keeps_all:
  "distinct (map PlayerID es) \<Longrightarrow> \<forall>e \<in> set es. stored e = e \<Longrightarrow> set es \<subseteq> requeue es E"
  by (force simp: requeue_distinct)

text \<open>
  A popped pair that is written back before anything else happens restores the queue, so the
  players keep their place.
\<close>

lemma reenqueue_puts_back:
  assumes w: "inv w" and pop: "PopPair Q c w = (Inr (es, g), w1)" and es: "es \<noteq> []"
    and re: "Reenqueue Q c' es g w1 = (Inr b, w2)"
  shows "b \<and> entries w2 = entries w"
proof -
  have es_eq: "es = take 2 (entries w)" and g: "g = id_text (instance_of w)"
    and app: "entries w = es @ entries w1"
    using pop_ok [OF w pop] es by (auto split: if_splits)
  have inv1: "inv w1" and i1: "instance_of w1 = instance_of w"
    using pop_inv [OF w, of c] pop by simp_all
  have wr: "list_all writable es" using entries_writable [OF w] app by simp
  have d: "distinct (map PlayerID es)" "PlayerID ` set es \<inter> PlayerID ` set (entries w1) = {}"
    using unique [OF w] app by simp_all
  have b: "b" and s: "set (entries w2) = requeue es (set (entries w1))"
    using reenqueue_ok [OF inv1 wr re] g i1 by (auto split: if_splits)
  have "stored ` set es = set es"
    using exact_times [OF w] app by force
  moreover have "{e \<in> set (entries w1). PlayerID e \<notin> PlayerID ` set es} = set (entries w1)"
    using d(2) by auto
  ultimately have "set (entries w2) = set (entries w)"
    using s d(1) app by (simp add: requeue_distinct)
  moreover have "inv w2" using reenqueue_inv [OF inv1 wr, of c' g] re by simp
  ultimately show ?thesis using b same_entries w by blast
qed

end

end
