(* ===== verification/RedisContract.thy ===== *)
theory RedisContract
  imports RedisRefine QueueContract
begin

text \<open>
  \<open>NewRedisQueue\<close> keeps the contract of \<open>port.Queue\<close> on every server that keeps the documented
  laws: the locale \<open>queue_contract\<close> is interpreted on the Redis queue inside \<open>redis_server\<close>, with
  the entries read off the sorted set. \<open>queue_inv\<close> says that the keys are not used by another
  program and that the queue is well formed.
\<close>

definition queue_inv :: "store \<Rightarrow> bool" where
  "queue_inv st \<longleftrightarrow> keys_ok st \<and> mq_wf (mq_of st)"

definition queue_entries :: "store \<Rightarrow> QueueEntry list" where
  "queue_entries st = map entry_of (zset st queueKey)"

definition stored_instance :: "store \<Rightarrow> string option" where
  "stored_instance st = strs st gatewayInstanceKey"

lemma queue_inv_put [simp]: "keys_ok st \<Longrightarrow> queue_inv (put_mq q st) \<longleftrightarrow> mq_wf q"
  by (simp add: queue_inv_def)

lemma queue_invD:
  assumes "queue_inv st"
  shows "keys_ok st" "mq_wf (mq_of st)" "list_all entry_wf (zset st queueKey)"
    "zset_ok (zset st queueKey)" "distinct (map owner (zset st queueKey))"
  using assms by (simp_all add: queue_inv_def mq_wf_def)

lemma PlayerIDs_entries:
  "list_all entry_wf z \<Longrightarrow> map PlayerID (map entry_of z) = map owner z"
  by (induction z) (simp_all add: PlayerID_entry_of)

lemma entries_filter:
  "list_all entry_wf z \<Longrightarrow>
     map entry_of (filter (\<lambda>e. owner e \<noteq> p) z) = filter (\<lambda>e. PlayerID e \<noteq> p) (map entry_of z)"
  by (induction z) (simp_all add: PlayerID_entry_of)

lemma entry_of_inj:
  assumes "entry_wf a" "entry_wf b" "entry_of a = entry_of b"
  shows "a = b"
  using triple_entry_of [OF assms(1)] triple_entry_of [OF assms(2)] assms(3)
  by (metis prod.collapse prod.inject)

lemma sorted_fst: "sorted (z :: zentry list) \<Longrightarrow> sorted (map fst z)"
  by (induction z) (auto simp: less_eq_prod_def)

lemma sorted_joined: "sorted z \<Longrightarrow> sorted (map JoinedAt (map entry_of z))"
proof -
  assume "sorted z"
  then have "sorted (map fst z)" by (rule sorted_fst)
  moreover have "map JoinedAt (map entry_of z) = map unix_milli_time (map fst z)"
    by (simp add: JoinedAt_entry_of)
  moreover have "mono unix_milli_time"
    by (simp add: mono_def unix_milli_time_def millisecond_def)
  ultimately show ?thesis by (metis sorted_map_mono mono_imp_mono_on)
qed

lemma stored_entry_of: "stored (entry_of e) = entry_of e"
  by (simp add: stored_def JoinedAt_entry_of entry_of_def split: prod.split)

lemma stored_record:
  "stored e = \<lparr>PlayerID = PlayerID e, DeckID = DeckID e, Name = Name e, Level = Level e,
     JoinedAt = unix_milli_time (unix_milli (JoinedAt e))\<rparr>"
  by (cases e) (simp add: stored_def)

text \<open>The entries after an abstract write, as a set.\<close>

lemma put_entries:
  assumes wf: "list_all entry_wf (waiting q)" and p: "validateMemberPlayerID p = None"
  shows "entry_of ` set (waiting (mq_put p (encodeMember p d l n) x q))
     = insert \<lparr>PlayerID = p, DeckID = d, Name = n, Level = l, JoinedAt = unix_milli_time x\<rparr>
         {e \<in> entry_of ` set (waiting q). PlayerID e \<noteq> p}"
proof -
  have f: "first_field (encodeMember p d l n) = p" using p by (simp add: validate_None_iff)
  have "{e \<in> entry_of ` set (waiting q). PlayerID e \<noteq> p}
      = entry_of ` {e \<in> set (waiting q). owner e \<noteq> p}"
    using wf by (auto simp: list_all_iff PlayerID_entry_of)
  then show ?thesis
    using p by (auto simp: waiting_mq_put [OF f] set_insort_key entry_of_encode)
qed

lemma puts_entries:
  "mq_wf q \<Longrightarrow> list_all writable es \<Longrightarrow>
     entry_of ` set (waiting (mq_puts (map triple_of es) q)) = requeue es (entry_of ` set (waiting q))"
proof (induction es arbitrary: q)
  case Nil
  then show ?case by simp
next
  case (Cons e es)
  let ?q = "mq_put (PlayerID e) (encodeMember (PlayerID e) (DeckID e) (Level e) (Name e))
              (unix_milli (JoinedAt e)) q"
  have v: "validateMemberPlayerID (PlayerID e) = None" and t: "\<bar>unix_milli (JoinedAt e)\<bar> < 2 ^ 53"
    using Cons.prems(2) by (simp_all add: writable_def)
  have wf: "mq_wf ?q" using Cons.prems(1) v t by (rule mq_wf_put)
  have "entry_of ` set (waiting ?q) = insert (stored e) {e' \<in> entry_of ` set (waiting q). PlayerID e' \<noteq> PlayerID e}"
    using Cons.prems(1) v by (subst put_entries) (simp_all add: mq_wf_def stored_record)
  moreover have "mq_puts (map triple_of (e # es)) q = mq_puts (map triple_of es) ?q"
    using t by (simp add: triple_of_def)
  ultimately show ?case using Cons.IH [OF wf] Cons.prems(2) by simp
qed

lemma reenqueueArgs_writable:
  "list_all writable es \<Longrightarrow> reenqueueArgs R es = Inr (script_args R (map triple_of es))"
  by (induction es) (simp_all add: script_args_def triple_of_def writable_def)

lemma triples_range:
  "list_all writable es \<Longrightarrow> list_all (\<lambda>(p, m, x). \<bar>x\<bar> < 2 ^ 53) (map triple_of es)"
  by (induction es) (auto simp: triple_of_def writable_def)

text \<open>The effect of each operation on the store.\<close>

definition enqueued_store :: "string \<Rightarrow> int64 \<Rightarrow> string \<Rightarrow> int64 \<Rightarrow> string \<Rightarrow> int \<Rightarrow> store \<Rightarrow> store" where
  "enqueued_store p d n l g x st = put_mq (mq_enqueue p (encodeMember p d l n) x g (mq_of st)) st"

definition cancelled_store :: "string \<Rightarrow> store \<Rightarrow> store" where
  "cancelled_store p st = put_mq (mq_remove p (mq_of st)) st"

definition popped_store :: "store \<Rightarrow> store" where
  "popped_store st = put_mq (mq_pop (mq_of st)) st"

definition reenqueued_store :: "QueueEntry list \<Rightarrow> string \<Rightarrow> store \<Rightarrow> store" where
  "reenqueued_store es g st = put_mq (mq_reenqueue (map triple_of es) g (mq_of st)) st"

lemma inst_mq_enqueue [simp]: "inst (mq_enqueue p m x g q) = Some g"
  by (simp add: mq_enqueue_def)

lemma inst_mq_reenqueue [simp]: "inst (mq_reenqueue ts g q) = inst q"
  by (simp add: mq_reenqueue_def)

lemma inst_mq_remove [simp]: "inst (mq_remove p q) = inst q"
  by (simp add: mq_remove_def)

lemma enqueued_entries:
  assumes inv: "queue_inv st" and p: "validateMemberPlayerID p = None" and x: "\<bar>x\<bar> < 2 ^ 53"
  shows "queue_inv (enqueued_store p d n l g x st)"
    and "stored_instance (enqueued_store p d n l g x st) = Some g"
    and "set (queue_entries (enqueued_store p d n l g x st))
      = insert \<lparr>PlayerID = p, DeckID = d, Name = n, Level = l, JoinedAt = unix_milli_time x\<rparr>
          {e \<in> (if stored_instance st = Some g then set (queue_entries st) else {}). PlayerID e \<noteq> p}"
proof -
  let ?q = "\<lparr>waiting = (if inst (mq_of st) = Some g then waiting (mq_of st) else []), inst = Some g\<rparr>"
  show "queue_inv (enqueued_store p d n l g x st)"
    using queue_invD(1,2) [OF inv] p x by (simp add: enqueued_store_def mq_wf_enqueue)
  show "stored_instance (enqueued_store p d n l g x st) = Some g"
    by (simp add: stored_instance_def enqueued_store_def)
  have "list_all entry_wf (waiting ?q)" using queue_invD(3) [OF inv] by simp
  from put_entries [OF this p, of d l n x]
  show "set (queue_entries (enqueued_store p d n l g x st))
      = insert \<lparr>PlayerID = p, DeckID = d, Name = n, Level = l, JoinedAt = unix_milli_time x\<rparr>
          {e \<in> (if stored_instance st = Some g then set (queue_entries st) else {}). PlayerID e \<noteq> p}"
    by (cases "strs st gatewayInstanceKey = Some g")
       (simp_all add: queue_entries_def enqueued_store_def mq_enqueue_def stored_instance_def)
qed

lemma cancelled_entries:
  assumes inv: "queue_inv st"
  shows "queue_inv (cancelled_store p st)"
    and "stored_instance (cancelled_store p st) = stored_instance st"
    and "queue_entries (cancelled_store p st) = filter (\<lambda>e. PlayerID e \<noteq> p) (queue_entries st)"
proof -
  show "queue_inv (cancelled_store p st)"
    using queue_invD(1,2) [OF inv] by (simp add: cancelled_store_def mq_wf_remove)
qed (use queue_invD(3) [OF inv] in \<open>simp_all add: cancelled_store_def stored_instance_def
      queue_entries_def mq_remove_def owned_by_owner entries_filter [symmetric]\<close>)

lemma popped_entries:
  assumes inv: "queue_inv st"
  shows "queue_inv (popped_store st)"
    and "stored_instance (popped_store st) = stored_instance st"
    and "queue_entries (popped_store st)
      = (if length (queue_entries st) < 2 then queue_entries st else drop 2 (queue_entries st))"
proof -
  show "queue_inv (popped_store st)"
    using queue_invD(1,2) [OF inv] by (simp add: popped_store_def mq_wf_pop)
qed (simp_all add: popped_store_def stored_instance_def queue_entries_def mq_pop_def drop_map)

lemma reenqueued_entries:
  assumes inv: "queue_inv st" and es: "list_all writable es"
  shows "queue_inv (reenqueued_store es g st)"
    and "stored_instance (reenqueued_store es g st) = stored_instance st"
    and "g = id_text (stored_instance st) \<Longrightarrow>
         set (queue_entries (reenqueued_store es g st)) = requeue es (set (queue_entries st))"
    and "g \<noteq> id_text (stored_instance st) \<Longrightarrow> reenqueued_store es g st = st"
proof -
  show "queue_inv (reenqueued_store es g st)"
    using queue_invD(1,2) [OF inv] es by (simp add: reenqueued_store_def mq_wf_reenqueue)
qed (use puts_entries [OF queue_invD(2) [OF inv] es] in
      \<open>simp_all add: reenqueued_store_def stored_instance_def queue_entries_def
        mq_reenqueue_def inst_text_def id_text_def\<close>)

text \<open>The entries, in any order, determine the sorted set.\<close>

lemma zset_eqI:
  assumes "queue_inv st" "queue_inv st'" and "set (queue_entries st) = set (queue_entries st')"
  shows "zset st queueKey = zset st' queueKey"
proof -
  have inj: "inj_on entry_of {e. entry_wf e}"
    by (rule inj_onI) (simp add: entry_of_inj)
  have sub: "set (zset st queueKey) \<subseteq> {e. entry_wf e}" "set (zset st' queueKey) \<subseteq> {e. entry_wf e}"
    using queue_invD(3) [OF assms(1)] queue_invD(3) [OF assms(2)] by (auto simp: list_all_iff)
  have "entry_of ` set (zset st queueKey) = entry_of ` set (zset st' queueKey)"
    using assms(3) by (simp add: queue_entries_def)
  then have "set (zset st queueKey) = set (zset st' queueKey)"
    by (simp only: inj_on_image_eq_iff [OF inj sub])
  then show ?thesis
    by (rule zset_ok_eqI [OF queue_invD(4) [OF assms(1)] queue_invD(4) [OF assms(2)]])
qed

lemma put_mq_eqI:
  assumes "queue_inv (put_mq q st)" "queue_inv (put_mq q' st)" and "inst q = inst q'"
    and "set (queue_entries (put_mq q st)) = set (queue_entries (put_mq q' st))"
  shows "put_mq q st = put_mq q' st"
  using zset_eqI [OF assms(1,2,4)] assms(3) by (simp add: put_mq_def)

context redis_server
begin

text \<open>
  A script that replies an integer and whose effect is known: the three outcomes of its call.
\<close>

lemma run_int64_cases:
  assumes refines: "\<And>s0. alpha s0 = alpha s \<Longrightarrow> fst (sc s0) = RInt i \<and> alpha (snd (sc s0)) = st"
    and run: "run_int64 R wrap c sc s = (r, s')"
  shows "(r = Inr i \<and> alpha s' = st)
     \<or> (\<exists>e. r = Inl (Errorf wrap [AErr e]) \<and> (alpha s' = alpha s \<or> alpha s' = st))"
  using eval [of sc s c] run refines
  by (auto simp: eval_outcome_def run_int64_def int64)

lemma now_bound: "\<bar>unix_milli (rd_now R s)\<bar> < 2 ^ 53"
  using now_range [of s] by simp

lemma Enqueue_cases:
  assumes inv: "queue_inv (alpha s)" and p: "validateMemberPlayerID p = None" and g: "g \<noteq> []"
    and run: "redis_Enqueue R c p d n l g s = (r, s')"
  shows "(r = Inr (if stored_instance (alpha s) = Some g then 0 else int (length (queue_entries (alpha s))))
          \<and> alpha s' = enqueued_store p d n l g (unix_milli (rd_now R s)) (alpha s))
     \<or> (\<exists>e. r = Inl e \<and> (alpha s' = alpha s
          \<or> alpha s' = enqueued_store p d n l g (unix_milli (rd_now R s)) (alpha s)))"
proof -
  let ?x = "unix_milli (rd_now R s)"
  let ?sc = "enqueueScript R queueKey gatewayInstanceKey p (encodeMember p d l n) (rd_float_arg R ?x) g"
  let ?i = "if stored_instance (alpha s) = Some g then 0 else int (length (queue_entries (alpha s)))"
  have "fst (?sc s0) = RInt ?i \<and> alpha (snd (?sc s0)) = enqueued_store p d n l g ?x (alpha s)"
    if "alpha s0 = alpha s" for s0
    using that enqueueScript_refines [of s0 ?x p "encodeMember p d l n" g] queue_invD(1) [OF inv] now_bound
    by (simp add: enqueued_store_def stored_instance_def queue_entries_def)
  moreover have "run_int64 R ''redis enqueue: %w'' c ?sc s = (r, s')"
    using run p g now_bound [of s] by (simp add: redis_Enqueue_def)
  ultimately show ?thesis by (drule_tac run_int64_cases) auto
qed

lemma Cancel_cases:
  assumes inv: "queue_inv (alpha s)" and run: "redis_Cancel R c p s = (r, s')"
  shows "(r = Inr (p \<in> PlayerID ` set (queue_entries (alpha s))) \<and> alpha s' = cancelled_store p (alpha s))
     \<or> (\<exists>e. r = Inl e \<and> (alpha s' = alpha s \<or> alpha s' = cancelled_store p (alpha s)))"
proof (cases "p = []")
  case True
  with run show ?thesis by (auto simp: redis_Cancel_def)
next
  case False
  let ?n = "length (filter (owned_by p) (zset (alpha s) queueKey))"
  obtain r' where run': "run_int64 R ''redis cancel: %w'' c (cancelScript R queueKey p) s = (r', s')"
    and r: "r = map_sum id (\<lambda>n. 0 < n) r'"
    using run False by (auto simp: redis_Cancel_def split: prod.splits sum.splits)
  have "fst (cancelScript R queueKey p s0) = RInt (int ?n)
      \<and> alpha (snd (cancelScript R queueKey p s0)) = cancelled_store p (alpha s)"
    if "alpha s0 = alpha s" for s0
    using that cancelScript_refines [of s0 p] queue_invD(1) [OF inv]
    by (simp add: cancelled_store_def)
  from run_int64_cases [OF this run']
  have "(r' = Inr (int ?n) \<and> alpha s' = cancelled_store p (alpha s))
     \<or> (\<exists>e. r' = Inl e \<and> (alpha s' = alpha s \<or> alpha s' = cancelled_store p (alpha s)))"
    by blast
  moreover have "0 < ?n \<longleftrightarrow> p \<in> PlayerID ` set (queue_entries (alpha s))"
    using queue_invD(3) [OF inv]
    by (auto simp: queue_entries_def list_all_iff PlayerID_entry_of owned_by_owner length_greater_0_conv
        filter_empty_conv image_iff)
  ultimately show ?thesis using r by auto
qed

lemma Size_cases:
  assumes inv: "queue_inv (alpha s)" and run: "redis_Size R c s = (r, s')"
  shows "alpha s' = alpha s \<and> (r = Inr (int (length (queue_entries (alpha s)))) \<or> (\<exists>e. r = Inl e))"
proof -
  have "strs (alpha s) queueKey = None" using queue_invD(1) [OF inv] by (simp add: keys_ok_def)
  from client_zcard [OF this, of c] run show ?thesis
    by (auto simp: redis_Size_def queue_entries_def)
qed

lemma PopPair_cases:
  assumes inv: "queue_inv (alpha s)" and run: "redis_PopPair R c s = (r, s')"
  shows "(alpha s' = popped_store (alpha s) \<and>
            r = Inr (if length (queue_entries (alpha s)) < 2 then ([], [])
                     else (take 2 (queue_entries (alpha s)), id_text (stored_instance (alpha s)))))
     \<or> (\<exists>e. r = Inl e \<and> (alpha s' = alpha s \<or> alpha s' = popped_store (alpha s)))"
proof -
  let ?sc = "popPairScript R queueKey gatewayInstanceKey" and ?z = "zset (alpha s) queueKey"
  let ?reply = "if length ?z < 2 then [] else inst_text (mq_of (alpha s))
      # concat (map (\<lambda>e. [snd e, fmt_int (fst e)]) (take 2 ?z))"
  have wf: "list_all entry_wf ?z" by (rule queue_invD(3) [OF inv])
  then have "list_all (\<lambda>e. \<bar>fst e\<bar> < 2 ^ 53) ?z" by (auto simp: list_all_iff entry_wf_def)
  then have sc: "fst (?sc s0) = RStrs ?reply \<and> alpha (snd (?sc s0)) = popped_store (alpha s)"
    if "alpha s0 = alpha s" for s0
    using that popPairScript_refines [of s0] queue_invD(1) [OF inv] by (simp add: popped_store_def)
  have "list_all entry_wf (take 2 ?z)"
    using wf by (metis append_take_drop_id list_all_append)
  from parsePair_entries [OF this] show ?thesis
    using eval [of ?sc s c] run sc
    by (auto simp: eval_outcome_def redis_PopPair_def strings queue_entries_def take_map
        stored_instance_def id_text_def inst_text_def)
qed

lemma Reenqueue_cases:
  assumes inv: "queue_inv (alpha s)" and es: "list_all writable es"
    and run: "redis_Reenqueue R c es g s = (r, s')"
  shows "(r = Inr (g = id_text (stored_instance (alpha s))) \<and> alpha s' = reenqueued_store es g (alpha s))
     \<or> (\<exists>e. r = Inl e \<and> (alpha s' = alpha s \<or> alpha s' = reenqueued_store es g (alpha s)))"
proof -
  let ?ts = "map triple_of es"
  let ?sc = "reenqueueScript R queueKey gatewayInstanceKey g (script_args R ?ts)"
  let ?i = "if g = id_text (stored_instance (alpha s)) then 1 else 0 :: int"
  obtain r' where run': "run_int64 R ''redis reenqueue: %w'' c ?sc s = (r', s')"
    and r: "r = map_sum id (\<lambda>n. 0 < n) r'"
    using run by (auto simp: redis_Reenqueue_def reenqueueArgs_writable [OF es] split: prod.splits sum.splits)
  have "fst (?sc s0) = RInt ?i \<and> alpha (snd (?sc s0)) = reenqueued_store es g (alpha s)"
    if "alpha s0 = alpha s" for s0
    using that reenqueueScript_refines [of s0 ?ts g] queue_invD(1) [OF inv] triples_range [OF es]
    by (auto simp: reenqueued_store_def stored_instance_def id_text_def inst_text_def)
  from run_int64_cases [OF this run'] show ?thesis using r by auto
qed

lemma Enqueue_invalid:
  "validateMemberPlayerID p \<noteq> None \<or> g = [] \<Longrightarrow> \<exists>err. redis_Enqueue R c p d n l g s = (Inl err, s)"
  by (auto simp: redis_Enqueue_def split: option.split)

lemma Enqueue_effect:
  assumes inv: "queue_inv (alpha s)" and run: "redis_Enqueue R c p d n l g s = (r, s')"
  shows "alpha s' = alpha s \<or>
      (validateMemberPlayerID p = None \<and> alpha s' = enqueued_store p d n l g (unix_milli (rd_now R s)) (alpha s))"
proof (cases "validateMemberPlayerID p = None \<and> g \<noteq> []")
  case True
  then show ?thesis using Enqueue_cases [OF inv _ _ run] by auto
next
  case False
  then show ?thesis using Enqueue_invalid [of p g c d n l s] run by auto
qed

lemma entries_eqI:
  assumes "queue_inv (alpha s)" "queue_inv (alpha s')"
    and "set (queue_entries (alpha s)) = set (queue_entries (alpha s'))"
  shows "queue_entries (alpha s) = queue_entries (alpha s')"
  using zset_eqI [OF assms] by (simp add: queue_entries_def)

end

sublocale redis_server \<subseteq> port: queue_contract "NewRedisQueue R" "\<lambda>s. queue_inv (alpha s)"
  "\<lambda>s. queue_entries (alpha s)" "\<lambda>s. stored_instance (alpha s)"
proof (unfold_locales, goal_cases)
  case (1 w)
  then show ?case using queue_invD(3,5) [OF 1]
    by (simp add: queue_entries_def PlayerIDs_entries del: map_map)
next
  case (2 w)
  then show ?case using queue_invD(4) [OF 2] unfolding queue_entries_def
    by (intro sorted_joined) (simp add: zset_ok_def)
next
  case (3 w)
  then show ?case using queue_invD(3) [OF 3]
    by (auto simp: queue_entries_def list_all_iff writable_entry_of)
next
  case (4 w e)
  then show ?case by (auto simp: queue_entries_def stored_entry_of)
next
  case (5 p g c d n l w)
  then show ?case by (simp add: NewRedisQueue_def Enqueue_invalid)
next
  case (6 w c p d n l g)
  obtain r s' where run: "redis_Enqueue R c p d n l g w = (r, s')" by fastforce
  from Enqueue_effect [OF 6 this] show ?case
    using 6 run enqueued_entries(1) [OF 6 _ now_bound] by (auto simp: NewRedisQueue_def)
next
  case (7 w c p d n l g k w')
  then have run: "redis_Enqueue R c p d n l g w = (Inr k, w')" by (simp add: NewRedisQueue_def)
  have "\<not> (validateMemberPlayerID p \<noteq> None \<or> g = [])"
    using Enqueue_invalid [of p g c d n l w] run by fastforce
  then have pg: "validateMemberPlayerID p = None" "g \<noteq> []" by auto
  from Enqueue_cases [OF 7(1) pg run] enqueued_entries [OF 7(1) pg(1) now_bound, of d n l g w]
  show ?case by (auto simp: exI)
next
  case (8 w c p d n l g err w')
  then have run: "redis_Enqueue R c p d n l g w = (Inl err, w')" by (simp add: NewRedisQueue_def)
  from Enqueue_effect [OF 8(1) run] enqueued_entries [OF 8(1) _ now_bound, of p d n l g w]
  show ?case by (auto simp: exI)
next
  case (9 w c p)
  obtain r s' where run: "redis_Cancel R c p w = (r, s')" by fastforce
  from Cancel_cases [OF 9 this] show ?case
    using 9 run cancelled_entries [OF 9, of p] by (auto simp: NewRedisQueue_def)
next
  case (10 w c p b w')
  then have "redis_Cancel R c p w = (Inr b, w')" by (simp add: NewRedisQueue_def)
  from Cancel_cases [OF 10(1) this] show ?case using cancelled_entries [OF 10(1), of p] by auto
next
  case (11 w c p err w')
  then have "redis_Cancel R c p w = (Inl err, w')" by (simp add: NewRedisQueue_def)
  from Cancel_cases [OF 11(1) this] show ?case using cancelled_entries [OF 11(1), of p] by auto
next
  case (12 w c)
  obtain r s' where run: "redis_Size R c w = (r, s')" by fastforce
  from Size_cases [OF 12 this] show ?case using 12 run by (auto simp: NewRedisQueue_def)
next
  case (13 w c k w')
  then have "redis_Size R c w = (Inr k, w')" by (simp add: NewRedisQueue_def)
  from Size_cases [OF 13(1) this] show ?case by auto
next
  case (14 w c)
  obtain r s' where run: "redis_PopPair R c w = (r, s')" by fastforce
  from PopPair_cases [OF 14 this] show ?case
    using 14 run popped_entries [OF 14] by (auto simp: NewRedisQueue_def)
next
  case (15 w c es g w')
  then have "redis_PopPair R c w = (Inr (es, g), w')" by (simp add: NewRedisQueue_def)
  from PopPair_cases [OF 15(1) this] show ?case
    using popped_entries [OF 15(1)] by (auto split: if_splits)
next
  case (16 w c err w')
  then have "redis_PopPair R c w = (Inl err, w')" by (simp add: NewRedisQueue_def)
  from PopPair_cases [OF 16(1) this] show ?case
    using popped_entries [OF 16(1)] by (auto split: if_splits)
next
  case (17 w es c g)
  obtain r s' where run: "redis_Reenqueue R c es g w = (r, s')" by fastforce
  from Reenqueue_cases [OF 17 this] show ?case
    using 17 run reenqueued_entries [OF 17, of g] by (auto simp: NewRedisQueue_def)
next
  case (18 w es c g b w')
  then have "redis_Reenqueue R c es g w = (Inr b, w')" by (simp add: NewRedisQueue_def)
  from Reenqueue_cases [OF 18(1,2) this] show ?case
    using reenqueued_entries [OF 18(1,2), of g] by (auto split: if_splits)
next
  case (19 w es c g err w')
  then have "redis_Reenqueue R c es g w = (Inl err, w')" by (simp add: NewRedisQueue_def)
  from Reenqueue_cases [OF 19(1,2) this]
  have "alpha w' = alpha w \<or> alpha w' = reenqueued_store es g (alpha w)" by auto
  then show ?case
  proof
    assume "alpha w' = alpha w"
    then show ?thesis by simp
  next
    assume eq: "alpha w' = reenqueued_store es g (alpha w)"
    show ?thesis
    proof (cases "g = id_text (stored_instance (alpha w))")
      case True
      with eq reenqueued_entries(3) [OF 19(1,2) True] show ?thesis by simp
    next
      case False
      with eq reenqueued_entries(4) [OF 19(1,2) False] show ?thesis by simp
    qed
  qed
next
  case (20 w w')
  then show ?case by (rule entries_eqI)
qed

end
