(* ===== verification/QueueProps.thy ===== *)
theory QueueProps
  imports RedisContract
begin

text \<open>
  Properties of the Redis queue, stated for every server and client that follow the laws of
  \<open>redis_server\<close>, with the reference server as the witness that they can hold: the effect of each
  operation, the round trip of popping and writing back, and the invariant of every state that a
  sequence of operations reaches, failed calls included.
\<close>

context redis_server
begin

lemma contract:
  "queue_contract (NewRedisQueue R) (\<lambda>s. queue_inv (alpha s)) (\<lambda>s. queue_entries (alpha s))
     (\<lambda>s. stored_instance (alpha s))"
  by (rule port.queue_contract_axioms)

end

section \<open>An example world\<close>

definition example_world :: ref_world where
  "example_world = \<lparr>rw_store = \<lparr>zset = (\<lambda>k. []), strs = (\<lambda>k. None)\<rparr>, rw_net = [], rw_now = 5 * second\<rparr>"

definition after_enqueue :: "string \<Rightarrow> string \<Rightarrow> ref_world \<Rightarrow> ref_world" where
  "after_enqueue p g w = snd (redis_Enqueue ref_redis RequestCtx p 1 ''Ann'' 2 g w)"

text \<open>Two players wait.\<close>

definition two_waiting :: ref_world where
  "two_waiting = after_enqueue ''b'' ''g1'' (after_enqueue ''a'' ''g1'' example_world)"

lemma ref_run_int64:
  assumes "rw_net w = []"
  shows "run_int64 ref_redis wrap c sc w =
     (case sc w of (RInt i, w') \<Rightarrow> (Inr i, w') | (RStrs ss, w') \<Rightarrow> (Inl (Errorf wrap [AErr (ErrOther ''unexpected type'')]), w'))"
  using assms by (simp add: run_int64_def ref_redis_def ref_eval_def split: prod.split reply.split)

lemma example_inv: "queue_inv (ref_view example_world)"
  by (simp add: queue_inv_def keys_ok_def mq_wf_def example_world_def ref_zset_def)

lemma example_entries: "queue_entries (ref_view example_world) = []"
  "stored_instance (ref_view example_world) = None"
  by (simp_all add: queue_entries_def stored_instance_def example_world_def ref_zset_def)

lemma ref_net:
  "rw_net (rd_zadd ref_redis k x m w) = rw_net w" "rw_net (rd_set ref_redis k v w) = rw_net w"
  "rw_net (rd_del ref_redis k w) = rw_net w" "rw_net (snd (rd_zrem ref_redis k m w)) = rw_net w"
  "rw_net (snd (rd_zpopmin ref_redis k n w)) = rw_net w"
  by (simp_all add: ref_redis_def on_zset_def)

lemma ref_removeLoop_net: "rw_net (snd (removeLoop ref_redis k p ms n w)) = rw_net w"
  by (induction ms arbitrary: n w) (simp_all add: case_prod_beta ref_net)

lemma ref_enqueue_succeeds:
  assumes net: "rw_net w = []" and p: "validateMemberPlayerID p = None" and g: "g \<noteq> []"
  obtains i v where "redis_Enqueue ref_redis RequestCtx p d n l g w = (Inr i, v)" "rw_net v = []"
proof -
  let ?sc = "\<lambda>m x. enqueueScript ref_redis queueKey gatewayInstanceKey p m x g"
  have sc: "\<exists>i v. ?sc m x w = (RInt i, v) \<and> rw_net v = []" for m x
    using net
    by (simp add: enqueueScript_def removePlayerEntries_def Let_def case_prod_beta ref_removeLoop_net ref_net)
  obtain i v where "?sc (encodeMember p d l n)
      (rd_float_arg ref_redis (float64_of_int (unix_milli (rd_now ref_redis w)))) w = (RInt i, v)" "rw_net v = []"
    using sc by blast
  then show thesis
    using p g by (intro that [of i v]) (simp_all add: redis_Enqueue_def ref_run_int64 [OF net])
qed

lemma ref_enqueue_runs:
  assumes "rw_net w = []" and "validateMemberPlayerID p = None" and "g \<noteq> []"
  shows "\<exists>k. redis_Enqueue ref_redis RequestCtx p 1 ''Ann'' 2 g w = (Inr k, after_enqueue p g w)"
    and "rw_net (after_enqueue p g w) = []"
  by (rule ref_enqueue_succeeds [OF assms, of 1 "''Ann''" 2]; simp add: after_enqueue_def)+

section \<open>Each operation\<close>

lemma enqueue_effect:
  assumes "redis_server R alpha" and "queue_inv (alpha s)"
    and "redis_Enqueue R c p d n l g s = (Inr k, s')"
  shows "queue_inv (alpha s') \<and> stored_instance (alpha s') = Some g
    \<and> k = (if stored_instance (alpha s) = Some g then 0 else int (length (queue_entries (alpha s))))
    \<and> set (queue_entries (alpha s')) =
        insert \<lparr>PlayerID = p, DeckID = d, Name = n, Level = l,
                JoinedAt = unix_milli_time (unix_milli (rd_now R s))\<rparr>
          {e \<in> (if stored_instance (alpha s) = Some g then set (queue_entries (alpha s)) else {}).
             PlayerID e \<noteq> p}"
proof -
  have "\<not> (validateMemberPlayerID p \<noteq> None \<or> g = [])"
    using redis_server.Enqueue_invalid [OF assms(1), of p g c d n l s] assms(3) by fastforce
  then have v: "validateMemberPlayerID p = None" "g \<noteq> []" by auto
  show ?thesis
    using redis_server.Enqueue_cases [OF assms(1,2) v assms(3)]
      enqueued_entries [OF assms(2) v(1) redis_server.now_bound [OF assms(1)], of d n l g]
    by simp
qed

text \<open>
  C21. A successful \<open>Enqueue\<close> leaves the player waiting exactly once, with the data of this call
  and the current time in milliseconds; everyone else keeps their place when the gateway instance
  is the one last seen, and is removed and counted in the result when it is another one.
\<close>

theorem redis_enqueue_effect:
  assumes "redis_server R alpha" and "queue_inv (alpha s)"
    and "redis_Enqueue R c p d n l g s = (Inr k, s')"
  shows "queue_inv (alpha s') \<and> stored_instance (alpha s') = Some g
    \<and> k = (if stored_instance (alpha s) = Some g then 0 else int (length (queue_entries (alpha s))))
    \<and> set (queue_entries (alpha s')) =
        insert \<lparr>PlayerID = p, DeckID = d, Name = n, Level = l,
                JoinedAt = unix_milli_time (unix_milli (rd_now R s))\<rparr>
          {e \<in> (if stored_instance (alpha s) = Some g then set (queue_entries (alpha s)) else {}).
             PlayerID e \<noteq> p}"
  by (rule enqueue_effect [OF assms])

lemma redis_enqueue_effect_witness:
  "PlayerID ` set (queue_entries (ref_view (after_enqueue ''a'' ''g1'' example_world))) = {''a''}
   \<and> stored_instance (ref_view (after_enqueue ''a'' ''g1'' example_world)) = Some ''g1''"
proof -
  obtain k where "redis_Enqueue ref_redis RequestCtx ''a'' 1 ''Ann'' 2 ''g1'' example_world
      = (Inr k, after_enqueue ''a'' ''g1'' example_world)"
    using ref_enqueue_runs(1) [of example_world "''a''" "''g1''"]
    by (auto simp: example_world_def validate_None_iff)
  from redis_enqueue_effect [OF ref.redis_server_axioms example_inv this] show ?thesis
    by (simp add: example_entries)
qed

lemma cancel_effect:
  assumes "redis_server R alpha" and "queue_inv (alpha s)" and "redis_Cancel R c p s = (Inr b, s')"
  shows "queue_inv (alpha s') \<and> stored_instance (alpha s') = stored_instance (alpha s)
    \<and> queue_entries (alpha s') = filter (\<lambda>e. PlayerID e \<noteq> p) (queue_entries (alpha s))
    \<and> b = (p \<in> PlayerID ` set (queue_entries (alpha s)))"
  using redis_server.Cancel_cases [OF assms] cancelled_entries [OF assms(2), of p] by simp

lemma ref_cancel_runs:
  assumes "rw_net w = []" and "p \<noteq> []"
  shows "\<exists>b w'. redis_Cancel ref_redis c p w = (Inr b, w')"
  using assms(2)
  by (simp add: redis_Cancel_def ref_run_int64 [OF assms(1)] cancelScript_def case_prod_beta)

text \<open>
  \<open>Cancel\<close> that succeeds removes the player's entry and nothing else, keeps the order of the
  others, and reports \<open>true\<close> exactly when the player was waiting.
\<close>

lemma redis_cancel_effect:
  assumes "redis_server R alpha" and "queue_inv (alpha s)" and "redis_Cancel R c p s = (Inr b, s')"
  shows "queue_inv (alpha s') \<and> stored_instance (alpha s') = stored_instance (alpha s)
    \<and> queue_entries (alpha s') = filter (\<lambda>e. PlayerID e \<noteq> p) (queue_entries (alpha s))
    \<and> b = (p \<in> PlayerID ` set (queue_entries (alpha s)))"
  by (rule cancel_effect [OF assms])

lemma redis_cancel_effect_witness:
  "\<exists>b w'. redis_Cancel ref_redis RequestCtx ''a'' (after_enqueue ''a'' ''g1'' example_world) = (Inr b, w')
     \<and> b \<and> queue_entries (ref_view w') = []"
proof -
  let ?w = "after_enqueue ''a'' ''g1'' example_world"
  have v: "validateMemberPlayerID ''a'' = None" by (simp add: validate_None_iff)
  have net: "rw_net example_world = []" by (simp add: example_world_def)
  obtain k where k: "redis_Enqueue ref_redis RequestCtx ''a'' 1 ''Ann'' 2 ''g1'' example_world = (Inr k, ?w)"
    and net': "rw_net ?w = []"
    using ref_enqueue_runs [OF net v, of "''g1''"] by auto
  from redis_server.Enqueue_cases [OF ref.redis_server_axioms example_inv v _ k]
    enqueued_entries [OF example_inv v ref.now_bound, of 1 "''Ann''" 2 "''g1''" example_world]
  have w: "queue_inv (ref_view ?w)" "PlayerID ` set (queue_entries (ref_view ?w)) = {''a''}"
    by (simp_all add: example_entries)
  obtain b w' where b: "redis_Cancel ref_redis RequestCtx ''a'' ?w = (Inr b, w')"
    using ref_cancel_runs [OF net', of "''a''" RequestCtx] by auto
  show ?thesis
    using redis_cancel_effect [OF ref.redis_server_axioms w(1) b] w(2) b
    by (auto simp: filter_empty_conv)
qed

lemma pop_effect:
  assumes "redis_server R alpha" and "queue_inv (alpha s)" and "redis_PopPair R c s = (Inr (es, g), s')"
  shows "queue_inv (alpha s') \<and> stored_instance (alpha s') = stored_instance (alpha s)
    \<and> (if length (queue_entries (alpha s)) < 2
       then es = [] \<and> queue_entries (alpha s') = queue_entries (alpha s)
       else es @ queue_entries (alpha s') = queue_entries (alpha s) \<and> length es = MatchPlayerCount
          \<and> g = id_text (stored_instance (alpha s))
          \<and> list_all (\<lambda>e. list_all (\<lambda>e'. JoinedAt e \<le> JoinedAt e') (queue_entries (alpha s'))) es)"
proof -
  let ?E = "queue_entries (alpha s)"
  have "sorted (map JoinedAt (take 2 ?E @ drop 2 ?E))"
    using queue_contract.fifo [OF redis_server.contract [OF assms(1)]] assms(2) by simp
  then have le: "list_all (\<lambda>e. list_all (\<lambda>e'. JoinedAt e \<le> JoinedAt e') (drop 2 ?E)) (take 2 ?E)"
    unfolding map_append sorted_append by (simp add: list_all_iff)
  have st: "alpha s' = popped_store (alpha s)"
    and r: "(es, g) = (if length ?E < 2 then ([], []) else (take 2 ?E, id_text (stored_instance (alpha s))))"
    using redis_server.PopPair_cases [OF assms] by auto
  show ?thesis
  proof (cases "length ?E < 2")
    case True
    then show ?thesis using r st popped_entries [OF assms(2)] by simp
  next
    case False
    then have "queue_entries (alpha s') = drop 2 ?E" "es = take 2 ?E" "g = id_text (stored_instance (alpha s))"
      using r st popped_entries [OF assms(2)] by simp_all
    then show ?thesis
      using False st popped_entries(1,2) [OF assms(2)] le by (simp add: MatchPlayerCount_def)
  qed
qed

lemma ref_pop_runs:
  assumes net: "rw_net w = []" and inv: "queue_inv (ref_view w)"
  shows "\<exists>es g w'. redis_PopPair ref_redis c w = (Inr (es, g), w') \<and> rw_net w' = []"
proof -
  let ?sc = "popPairScript ref_redis queueKey gatewayInstanceKey" and ?z = "zset (ref_view w) queueKey"
  have wf: "list_all entry_wf (take 2 ?z)" "list_all (\<lambda>e. \<bar>fst e\<bar> < 2 ^ 53) ?z"
    using queue_invD(3) [OF inv] by (auto simp: list_all_iff entry_wf_def dest: in_set_takeD)
  have reply: "fst (?sc w) = RStrs (if length ?z < 2 then [] else inst_text (mq_of (ref_view w))
      # concat (map (\<lambda>e. [snd e, fmt_int (fst e)]) (take 2 ?z)))"
    using ref.popPairScript_refines [of w] queue_invD(1) [OF inv] wf(2) by simp
  have "rw_net (snd (?sc w)) = []"
    using net by (simp add: popPairScript_def Let_def case_prod_beta ref_net)
  moreover have "rd_eval ref_redis c ?sc w = (Inr (fst (?sc w)), snd (?sc w))"
    using net by (simp add: ref_redis_def ref_eval_def)
  ultimately show ?thesis
    by (simp add: redis_PopPair_def reply ref.strings parsePair_entries [OF wf(1)]
        parsePair_entries [OF wf(1), simplified])
qed

lemma ref_reenqueueLoop_net: "rw_net (reenqueueLoop ref_redis k args w) = rw_net w"
  by (induction ref_redis k args w rule: reenqueueLoop.induct)
    (simp_all add: ref_net removePlayerEntries_def ref_removeLoop_net Let_def)

lemma ref_reenqueue_runs:
  assumes net: "rw_net w = []" and es: "list_all writable es"
  shows "\<exists>b w'. redis_Reenqueue ref_redis c es g w = (Inr b, w') \<and> rw_net w' = []"
proof -
  let ?sc = "reenqueueScript ref_redis queueKey gatewayInstanceKey g (script_args ref_redis (map triple_of es))"
  have "\<exists>i. fst (?sc w) = RInt i" "rw_net (snd (?sc w)) = []"
    using net by (simp_all add: reenqueueScript_def Let_def ref_reenqueueLoop_net)
  then obtain i v where "?sc w = (RInt i, v)" "rw_net v = []" by (metis prod.collapse)
  then show ?thesis
    by (simp add: redis_Reenqueue_def reenqueueArgs_writable [OF es] ref_run_int64 [OF net])
qed

lemma two_waiting:
  "rw_net two_waiting = []" "queue_inv (ref_view two_waiting)"
  "stored_instance (ref_view two_waiting) = Some ''g1''"
  "PlayerID ` set (queue_entries (ref_view two_waiting)) = {''a'', ''b''}"
  "length (queue_entries (ref_view two_waiting)) = 2"
proof -
  let ?w = "after_enqueue ''a'' ''g1'' example_world"
  have v: "validateMemberPlayerID ''a'' = None" "validateMemberPlayerID ''b'' = None"
    by (simp_all add: validate_None_iff)
  have net: "rw_net example_world = []" by (simp add: example_world_def)
  obtain k where k: "redis_Enqueue ref_redis RequestCtx ''a'' 1 ''Ann'' 2 ''g1'' example_world = (Inr k, ?w)"
    and net1: "rw_net ?w = []"
    using ref_enqueue_runs [OF net v(1), of "''g1''"] by auto
  from redis_server.Enqueue_cases [OF ref.redis_server_axioms example_inv v(1) _ k]
    enqueued_entries [OF example_inv v(1) ref.now_bound, of 1 "''Ann''" 2 "''g1''" example_world]
  have w: "queue_inv (ref_view ?w)" "stored_instance (ref_view ?w) = Some ''g1''"
      "PlayerID ` set (queue_entries (ref_view ?w)) = {''a''}"
    by (simp_all add: example_entries)
  obtain k2 where k2: "redis_Enqueue ref_redis RequestCtx ''b'' 1 ''Ann'' 2 ''g1'' ?w = (Inr k2, two_waiting)"
    and net2: "rw_net two_waiting = []"
    using ref_enqueue_runs [OF net1 v(2), of "''g1''"] by (auto simp: two_waiting_def)
  let ?E = "set (queue_entries (ref_view ?w))"
  from redis_server.Enqueue_cases [OF ref.redis_server_axioms w(1) v(2) _ k2]
  have st: "ref_view two_waiting = enqueued_store ''b'' 1 ''Ann'' 2 ''g1'' (unix_milli (rd_now ref_redis ?w)) (ref_view ?w)"
    by simp
  note e2 = enqueued_entries [OF w(1) v(2) ref.now_bound, of 1 "''Ann''" 2 "''g1''" ?w, folded st]
  have "PlayerID ` {e \<in> ?E. PlayerID e \<noteq> ''b''} = PlayerID ` ?E - {''b''}" by auto
  then have two: "queue_inv (ref_view two_waiting)" "stored_instance (ref_view two_waiting) = Some ''g1''"
      "PlayerID ` set (queue_entries (ref_view two_waiting)) = {''a'', ''b''}"
    using e2 w(2,3) by (simp_all add: insert_commute)
  have "distinct (map PlayerID (queue_entries (ref_view two_waiting)))"
    using queue_contract.unique [OF ref.contract] two(1) by simp
  then have "length (map PlayerID (queue_entries (ref_view two_waiting))) = card {''a'', ''b''}"
    using two(3) by (metis distinct_card set_map)
  then show "length (queue_entries (ref_view two_waiting)) = 2" by simp
  show "rw_net two_waiting = []" by (rule net2)
  show "queue_inv (ref_view two_waiting)" "stored_instance (ref_view two_waiting) = Some ''g1''"
    "PlayerID ` set (queue_entries (ref_view two_waiting)) = {''a'', ''b''}"
    using two by simp_all
qed

text \<open>
  C22. \<open>PopPair\<close> that succeeds takes the two entries that joined first, in order, with the last
  gateway instance; with fewer than two waiting it takes none. Nothing else changes.
\<close>

theorem redis_pop_fifo:
  assumes "redis_server R alpha" and "queue_inv (alpha s)" and "redis_PopPair R c s = (Inr (es, g), s')"
  shows "queue_inv (alpha s') \<and> stored_instance (alpha s') = stored_instance (alpha s)
    \<and> (if length (queue_entries (alpha s)) < 2
       then es = [] \<and> queue_entries (alpha s') = queue_entries (alpha s)
       else es @ queue_entries (alpha s') = queue_entries (alpha s) \<and> length es = MatchPlayerCount
          \<and> g = id_text (stored_instance (alpha s))
          \<and> list_all (\<lambda>e. list_all (\<lambda>e'. JoinedAt e \<le> JoinedAt e') (queue_entries (alpha s'))) es)"
  by (rule pop_effect [OF assms])

lemma redis_pop_fifo_witness:
  "\<exists>es g w'. redis_PopPair ref_redis SignalCtx two_waiting = (Inr (es, g), w')
     \<and> es = queue_entries (ref_view two_waiting) \<and> g = ''g1'' \<and> queue_entries (ref_view w') = []"
proof -
  obtain es g w' where r: "redis_PopPair ref_redis SignalCtx two_waiting = (Inr (es, g), w')"
    using ref_pop_runs [OF two_waiting(1,2)] by blast
  have "es @ queue_entries (ref_view w') = queue_entries (ref_view two_waiting)" "length es = 2" "g = ''g1''"
    using redis_pop_fifo [OF ref.redis_server_axioms two_waiting(2) r] two_waiting(3,5)
    by (simp_all add: MatchPlayerCount_def id_text_def)
  then show ?thesis
    using r two_waiting(5) by (metis append_Nil2 append_eq_conv_conj take_all_iff order_refl)
qed

lemma pop_reenqueue_restores:
  assumes "redis_server R alpha" and "queue_inv (alpha s)"
    and "redis_PopPair R c s = (Inr (es, g), s1)" and "es \<noteq> []"
    and "redis_Reenqueue R c1 es g s1 = (Inr b1, s2)" and "redis_Reenqueue R c2 es g s2 = (Inr b2, s3)"
  shows "b1 \<and> queue_entries (alpha s2) = queue_entries (alpha s)
       \<and> b2 \<and> queue_entries (alpha s3) = queue_entries (alpha s)"
proof -
  note C = redis_server.contract [OF assms(1)]
  have ops: "PopPair (NewRedisQueue R) c s = (Inr (es, g), s1)"
    "Reenqueue (NewRedisQueue R) c1 es g s1 = (Inr b1, s2)"
    "Reenqueue (NewRedisQueue R) c2 es g s2 = (Inr b2, s3)"
    using assms(3,5,6) by (simp_all add: NewRedisQueue_def)
  have one: "b1 \<and> queue_entries (alpha s2) = queue_entries (alpha s)"
    by (rule queue_contract.reenqueue_puts_back [OF C assms(2) ops(1) assms(4) ops(2)])
  have wr: "list_all writable es" and d: "distinct (map PlayerID es)"
    and st: "\<forall>e \<in> set es. stored e = e" and g: "g = id_text (stored_instance (alpha s))"
    and es: "es = take 2 (queue_entries (alpha s))"
    using queue_contract.popped_pair [OF C assms(2) ops(1) assms(4)] by simp_all
  have inv1: "queue_inv (alpha s1)" "stored_instance (alpha s1) = stored_instance (alpha s)"
    using queue_contract.pop_inv [OF C assms(2), of c] ops(1) by simp_all
  have inv2: "queue_inv (alpha s2)" "stored_instance (alpha s2) = stored_instance (alpha s)"
    using queue_contract.reenqueue_inv [OF C inv1(1) wr, of c1 g] ops(2) inv1(2) by simp_all
  have inv3: "queue_inv (alpha s3)"
    using queue_contract.reenqueue_inv [OF C inv2(1) wr, of c2 g] ops(3) by simp
  have b2: "b2" "set (queue_entries (alpha s3)) = requeue es (set (queue_entries (alpha s2)))"
    using queue_contract.reenqueue_ok [OF C inv2(1) wr ops(3)] g inv2(2) by simp_all
  have "requeue es (set (queue_entries (alpha s2))) = set (queue_entries (alpha s2))"
  proof -
    have r: "set (queue_entries (alpha s2)) = requeue es (set (queue_entries (alpha s1)))"
      using queue_contract.reenqueue_ok [OF C inv1(1) wr ops(2)] one by simp
    show ?thesis unfolding r by (rule requeue_idem [OF d])
  qed
  then have "queue_entries (alpha s3) = queue_entries (alpha s2)"
    using queue_contract.same_entries [OF C inv3 inv2(1)] b2(2) by simp
  then show ?thesis using one b2(1) by simp
qed

text \<open>
  C9. Popping a pair and writing it back restores the queue: every entry is in its former place.
  Writing it back once more (a retry whose first reply was lost) changes nothing.
\<close>

theorem redis_pop_reenqueue_restores:
  assumes "redis_server R alpha" and "queue_inv (alpha s)"
    and "redis_PopPair R c s = (Inr (es, g), s1)" and "es \<noteq> []"
    and "redis_Reenqueue R c1 es g s1 = (Inr b1, s2)" and "redis_Reenqueue R c2 es g s2 = (Inr b2, s3)"
  shows "b1 \<and> queue_entries (alpha s2) = queue_entries (alpha s)
       \<and> b2 \<and> queue_entries (alpha s3) = queue_entries (alpha s)"
  by (rule pop_reenqueue_restores [OF assms])

lemma redis_pop_reenqueue_restores_witness:
  "\<exists>es g w1 w2. redis_PopPair ref_redis SignalCtx two_waiting = (Inr (es, g), w1) \<and> length es = 2
     \<and> redis_Reenqueue ref_redis SignalCtx es g w1 = (Inr True, w2)
     \<and> queue_entries (ref_view w2) = queue_entries (ref_view two_waiting)"
proof -
  obtain es g w1 where r: "redis_PopPair ref_redis SignalCtx two_waiting = (Inr (es, g), w1)"
    and net1: "rw_net w1 = []"
    using ref_pop_runs [OF two_waiting(1,2)] by blast
  have len: "length es = 2"
    using pop_effect [OF ref.redis_server_axioms two_waiting(2) r] two_waiting(5)
    by (simp add: MatchPlayerCount_def)
  then have ne: "es \<noteq> []" by auto
  have wr: "list_all writable es"
    using queue_contract.popped_pair(5) [OF ref.contract two_waiting(2) _ ne] r by (simp add: NewRedisQueue_def)
  obtain b w2 where b: "redis_Reenqueue ref_redis SignalCtx es g w1 = (Inr b, w2)" and net2: "rw_net w2 = []"
    using ref_reenqueue_runs [OF net1 wr] by blast
  obtain b' w3 where b': "redis_Reenqueue ref_redis SignalCtx es g w2 = (Inr b', w3)"
    using ref_reenqueue_runs [OF net2 wr] by blast
  have "b" "queue_entries (ref_view w2) = queue_entries (ref_view two_waiting)"
    using redis_pop_reenqueue_restores [OF ref.redis_server_axioms two_waiting(2) r ne b b'] by simp_all
  then show ?thesis
    using r b len by auto
qed

text \<open>
  C24. A pair popped under one gateway instance is not put back once another instance has
  enqueued: \<open>Reenqueue\<close> returns \<open>false\<close> and leaves the queue alone.
\<close>

theorem redis_stale_pair_dropped:
  assumes "redis_server R alpha" and "queue_inv (alpha s)"
    and "redis_PopPair R c s = (Inr (es, g), s1)" and "es \<noteq> []"
    and "redis_Enqueue R c1 p d n l g' s1 = (Inr k, s2)" and "g' \<noteq> g"
    and "redis_Reenqueue R c2 es g s2 = (Inr b, s3)"
  shows "\<not> b \<and> queue_entries (alpha s3) = queue_entries (alpha s2)
       \<and> PlayerID ` set (queue_entries (alpha s3)) = {p}"
proof -
  note C = redis_server.contract [OF assms(1)]
  have ops: "PopPair (NewRedisQueue R) c s = (Inr (es, g), s1)"
    "Reenqueue (NewRedisQueue R) c2 es g s2 = (Inr b, s3)"
    using assms(3,7) by (simp_all add: NewRedisQueue_def)
  note popped = queue_contract.popped_pair [OF C assms(2) ops(1) assms(4)]
  have inv1: "queue_inv (alpha s1)" "stored_instance (alpha s1) = stored_instance (alpha s)"
    using pop_effect [OF assms(1-3)] by simp_all
  have inv2: "queue_inv (alpha s2)" "stored_instance (alpha s2) = Some g'"
    and es2: "PlayerID ` set (queue_entries (alpha s2)) =
      insert p (PlayerID ` {e \<in> (if stored_instance (alpha s1) = Some g' then set (queue_entries (alpha s1)) else {}).
             PlayerID e \<noteq> p})"
    using enqueue_effect [OF assms(1) inv1(1) assms(5)] by simp_all
  have "stored_instance (alpha s1) \<noteq> Some g'"
    using popped(3) assms(6) inv1(2) by (auto simp: id_text_def)
  then have "PlayerID ` set (queue_entries (alpha s2)) = {p}" using es2 by simp
  moreover have "b \<longleftrightarrow> g = id_text (Some g')"
    using conjunct1 [OF queue_contract.reenqueue_ok [OF C inv2(1) popped(5) ops(2)]] inv2(2) by simp
  then have "\<not> b" using assms(6) by (simp add: id_text_def)
  moreover from this have "queue_entries (alpha s3) = queue_entries (alpha s2)"
    using queue_contract.reenqueue_ok [OF C inv2(1) popped(5) ops(2)] by simp
  ultimately show ?thesis by simp
qed

lemma redis_stale_pair_dropped_witness:
  "\<exists>es g w1 w3. redis_PopPair ref_redis RequestCtx two_waiting = (Inr (es, g), w1)
     \<and> redis_Reenqueue ref_redis RequestCtx es g (after_enqueue ''c'' ''g2'' w1) = (Inr False, w3)
     \<and> PlayerID ` set (queue_entries (ref_view w3)) = {''c''}"
proof -
  obtain es g w1 where r: "redis_PopPair ref_redis RequestCtx two_waiting = (Inr (es, g), w1)"
    and net1: "rw_net w1 = []"
    using ref_pop_runs [OF two_waiting(1,2)] by blast
  have "length es = 2" and g: "''g2'' \<noteq> g"
    using pop_effect [OF ref.redis_server_axioms two_waiting(2) r] two_waiting(3,5)
    by (simp_all add: MatchPlayerCount_def id_text_def)
  then have ne: "es \<noteq> []" by auto
  have wr: "list_all writable es"
    using queue_contract.popped_pair(5) [OF ref.contract two_waiting(2) _ ne] r by (simp add: NewRedisQueue_def)
  have v: "validateMemberPlayerID ''c'' = None" by (simp add: validate_None_iff)
  obtain k where k: "redis_Enqueue ref_redis RequestCtx ''c'' 1 ''Ann'' 2 ''g2'' w1 = (Inr k, after_enqueue ''c'' ''g2'' w1)"
    and net2: "rw_net (after_enqueue ''c'' ''g2'' w1) = []"
    using ref_enqueue_runs [OF net1 v, of "''g2''"] by auto
  obtain b w3 where b: "redis_Reenqueue ref_redis RequestCtx es g (after_enqueue ''c'' ''g2'' w1) = (Inr b, w3)"
    using ref_reenqueue_runs [OF net2 wr] by blast
  note res = redis_stale_pair_dropped [OF ref.redis_server_axioms two_waiting(2) r ne k g b]
  have "b = False" using conjunct1 [OF res] by simp
  moreover have "PlayerID ` set (queue_entries (ref_view w3)) = {''c''}"
    using conjunct2 [OF conjunct2 [OF res]] .
  ultimately show ?thesis using r b by blast
qed

section \<open>Every reachable queue\<close>

text \<open>
  The states that the queue reaches, with the pairs that have been popped: any client may call
  any operation at any time and every call may fail before or after its effect; \<open>Reenqueue\<close> is
  called with pairs that were popped. \<open>elapse\<close> is anything that leaves the stored data alone.
\<close>

inductive queue_reach ::
  "'s redis \<Rightarrow> ('s \<Rightarrow> store) \<Rightarrow> 's \<Rightarrow> (QueueEntry list \<times> string) list \<Rightarrow> bool"
  for R :: "'s redis" and alpha :: "'s \<Rightarrow> store" where
  start: "keys_ok (alpha s) \<Longrightarrow> zset (alpha s) queueKey = [] \<Longrightarrow> queue_reach R alpha s []"
| enqueue: "queue_reach R alpha s fs \<Longrightarrow> queue_reach R alpha (snd (redis_Enqueue R c p d n l g s)) fs"
| cancel: "queue_reach R alpha s fs \<Longrightarrow> queue_reach R alpha (snd (redis_Cancel R c p s)) fs"
| size: "queue_reach R alpha s fs \<Longrightarrow> queue_reach R alpha (snd (redis_Size R c s)) fs"
| pop: "queue_reach R alpha s fs \<Longrightarrow> redis_PopPair R c s = (Inr (es, g), s') \<Longrightarrow>
     queue_reach R alpha s' ((es, g) # fs)"
| pop_failed: "queue_reach R alpha s fs \<Longrightarrow> redis_PopPair R c s = (Inl err, s') \<Longrightarrow>
     queue_reach R alpha s' fs"
| reenqueue: "queue_reach R alpha s fs \<Longrightarrow> (es, g) \<in> set fs \<Longrightarrow>
     queue_reach R alpha (snd (redis_Reenqueue R c es g s)) fs"
| elapse: "queue_reach R alpha s fs \<Longrightarrow> alpha s' = alpha s \<Longrightarrow> queue_reach R alpha s' fs"

lemma queue_reach_inv:
  assumes "redis_server R alpha"
  shows "queue_reach R alpha s fs \<Longrightarrow>
     queue_inv (alpha s) \<and> list_all (\<lambda>(es, g). list_all writable es \<and> (es = [] \<or> length es = 2)) fs"
proof (induction rule: queue_reach.induct)
  case (start s)
  then show ?case by (simp add: queue_inv_def mq_wf_def)
next
  case (enqueue s fs c p d n l g)
  then show ?case
    using queue_contract.enqueue_inv [OF redis_server.contract [OF assms], of s c p d n l g]
    by (simp add: NewRedisQueue_def)
next
  case (cancel s fs c p)
  then show ?case
    using queue_contract.cancel_inv [OF redis_server.contract [OF assms], of s c p]
    by (simp add: NewRedisQueue_def)
next
  case (size s fs c)
  then show ?case
    using queue_contract.size_inv [OF redis_server.contract [OF assms], of s c]
    by (simp add: NewRedisQueue_def)
next
  case (pop s fs c es g s')
  then have inv: "queue_inv (alpha s)" by simp
  have "list_all writable es" if "es \<noteq> []"
    using queue_contract.popped_pair(5) [OF redis_server.contract [OF assms] inv _ that] pop.hyps(2)
    by (simp add: NewRedisQueue_def)
  then show ?case
    using pop.IH pop_effect [OF assms inv pop.hyps(2)]
    by (cases "es = []") (auto simp: MatchPlayerCount_def split: if_splits)
next
  case (pop_failed s fs c err s')
  then show ?case
    using queue_contract.pop_inv [OF redis_server.contract [OF assms], of s c]
    by (simp add: NewRedisQueue_def)
next
  case (reenqueue s fs es g c)
  then have "list_all writable es" by (auto simp: list_all_iff)
  then show ?case
    using reenqueue.IH queue_contract.reenqueue_inv [OF redis_server.contract [OF assms], of s es c g]
    by (simp add: NewRedisQueue_def)
next
  case (elapse s fs s')
  then show ?case by simp
qed

text \<open>
  C11. In every reachable state, no player waits twice, the entries are in the order of their join
  times, every waiting player's identifier is non-empty and without a colon, and whatever was
  popped was nothing or a pair.
\<close>

theorem queue_reach_wellformed:
  assumes "redis_server R alpha" and "queue_reach R alpha s fs"
  shows "distinct (map PlayerID (queue_entries (alpha s)))
    \<and> sorted (map JoinedAt (queue_entries (alpha s)))
    \<and> list_all (\<lambda>e. PlayerID e \<noteq> [] \<and> CHR '':'' \<notin> set (PlayerID e)) (queue_entries (alpha s))
    \<and> list_all (\<lambda>(es, g). es = [] \<or> length es = MatchPlayerCount) fs"
proof -
  have inv: "queue_inv (alpha s)" and fs: "list_all (\<lambda>(es, g). list_all writable es \<and> (es = [] \<or> length es = 2)) fs"
    using queue_reach_inv [OF assms] by simp_all
  note C = redis_server.contract [OF assms(1)]
  show ?thesis
    using queue_contract.unique [OF C inv] queue_contract.fifo [OF C inv]
      queue_contract.entries_writable [OF C inv] fs
    by (auto simp: list_all_iff writable_def validate_None_iff MatchPlayerCount_def)
qed

lemma queue_reach_wellformed_witness:
  "distinct (map PlayerID (queue_entries (ref_view two_waiting)))
   \<and> length (queue_entries (ref_view two_waiting)) = 2"
proof -
  have "queue_reach ref_redis ref_view example_world []"
    by (rule queue_reach.start) (simp_all add: example_world_def keys_ok_def ref_zset_def)
  then have "queue_reach ref_redis ref_view two_waiting []"
    unfolding two_waiting_def after_enqueue_def by (intro queue_reach.enqueue)
  from queue_reach_wellformed [OF ref.redis_server_axioms this] show ?thesis
    using two_waiting(5) by simp
qed

section \<open>The scripts\<close>

text \<open>
  C15. Each Lua script has exactly the effect of its abstract operation on the queue, and none on any
  other key: insertion that first removes the player's older entries (after emptying a queue of another
  gateway instance), removal of the first two, removal of one player, and insertion of several
  entries under their old join times unless the instance has changed.
\<close>

theorem redis_scripts_refine:
  assumes "redis_server R alpha" and "keys_ok (alpha s)" and "\<bar>x\<bar> < 2 ^ 53"
    and "list_all (\<lambda>(p, m, x). \<bar>x\<bar> < 2 ^ 53) ts"
  shows "alpha (snd (enqueueScript R queueKey gatewayInstanceKey p m (rd_float_arg R x) g s))
           = put_mq (mq_enqueue p m x g (mq_of (alpha s))) (alpha s)
       \<and> alpha (snd (popPairScript R queueKey gatewayInstanceKey s)) = put_mq (mq_pop (mq_of (alpha s))) (alpha s)
       \<and> alpha (snd (cancelScript R queueKey p s)) = put_mq (mq_remove p (mq_of (alpha s))) (alpha s)
       \<and> alpha (snd (reenqueueScript R queueKey gatewayInstanceKey g (script_args R ts) s))
           = put_mq (mq_reenqueue ts g (mq_of (alpha s))) (alpha s)"
  using redis_server.enqueueScript_refines(1) [OF assms(1-3)]
    redis_server.popPairScript_refines(1) [OF assms(1,2)]
    redis_server.cancelScript_refines(1) [OF assms(1,2)]
    redis_server.reenqueueScript_refines(1) [OF assms(1,2,4)]
  by simp

lemma redis_scripts_refine_witness:
  "ref_view (snd (cancelScript ref_redis queueKey ''a'' example_world))
     = put_mq (mq_remove ''a'' (mq_of (ref_view example_world))) (ref_view example_world)"
  using redis_scripts_refine [OF ref.redis_server_axioms, of example_world 0 "[]" "''a''" "''a''" "''g''"]
    queue_invD(1) [OF example_inv] by simp

end
