(* ===== verification/Abandon.thy ===== *)
theory Abandon
  imports QueueProps
begin

text \<open>
  internal/usecase/abandon: discarding a match that did not come about. The cancellations go on
  after a failure and the failures are returned together (\<open>errors.Join\<close>, which is nil for none).
\<close>

record 'w Abandoner =
  ab_queue :: "'w Queue"

definition abandon_New :: "'w Queue \<Rightarrow> 'w Abandoner" where
  "abandon_New q = \<lparr>ab_queue = q\<rparr>"

text \<open>The loop over the players: the errors in their order.\<close>

fun cancel_all :: "'w Queue \<Rightarrow> go_ctx \<Rightarrow> string \<Rightarrow> string list \<Rightarrow> 'w \<Rightarrow> go_error list \<times> 'w" where
  "cancel_all q ctx matchID [] w = ([], w)"
| "cancel_all q ctx matchID (i # ids) w =
    (let (r, w) = Cancel q ctx i w;
         (errs, w) = cancel_all q ctx matchID ids w
     in (case r of
           Inl err \<Rightarrow> (Errorf ''abandon match %s: cancel %s: %w'' [AStr matchID, AStr i, AErr err] # errs, w)
         | Inr removed \<Rightarrow> (errs, w)))"

definition Abandon ::
  "'w Abandoner \<Rightarrow> go_ctx \<Rightarrow> string \<Rightarrow> string list \<Rightarrow> string \<Rightarrow> 'w \<Rightarrow> go_error option \<times> log list \<times> 'w" where
  "Abandon a ctx matchID playerIDs reason w =
    (let (errs, w) = cancel_all (ab_queue a) ctx matchID playerIDs w
     in if errs \<noteq> [] then (Some (ErrJoin errs), [], w)
        else (None,
              [Log LevelInfo ''match abandoned''
                [(''match_id'', AStr matchID), (''reason'', AStr reason),
                 (''player_count'', AInt (int (length playerIDs)))]], w))"

section \<open>On a queue that keeps its contract\<close>

context queue_contract
begin

text \<open>
  The entries that are gone belong to the listed players, and every listed player whose
  cancellation reported no error is gone.
\<close>

lemma cancel_all_entries:
  assumes "inv w" and "cancel_all Q c i ids w = (errs, w')"
  shows "inv w' \<and> instance_of w' = instance_of w
     \<and> (\<exists>P. P \<subseteq> set ids \<and> entries w' = filter (\<lambda>e. PlayerID e \<notin> P) (entries w)
          \<and> (\<forall>p \<in> set ids - P. \<exists>err. Errorf ''abandon match %s: cancel %s: %w'' [AStr i, AStr p, AErr err] \<in> set errs)
          \<and> (errs = [] \<longrightarrow> P = set ids))"
  using assms
proof (induction ids arbitrary: w errs)
  case Nil
  then show ?case by simp
next
  case (Cons p ids)
  obtain r w1 where r: "Cancel Q c p w = (r, w1)" by fastforce
  obtain es where es: "cancel_all Q c i ids w1 = (es, w')" using Cons.prems(2) r
    by (auto split: prod.splits sum.splits)
  have inv1: "inv w1" "instance_of w1 = instance_of w"
    using cancel_inv [OF Cons.prems(1), of c p] r by simp_all
  from Cons.IH [OF inv1(1) es] obtain P where P: "P \<subseteq> set ids"
    "entries w' = filter (\<lambda>e. PlayerID e \<notin> P) (entries w1)"
    "\<forall>p \<in> set ids - P. \<exists>err. Errorf ''abandon match %s: cancel %s: %w'' [AStr i, AStr p, AErr err] \<in> set es"
    "es = [] \<longrightarrow> P = set ids" and inv2: "inv w'" "instance_of w' = instance_of w1"
    by blast
  let ?err = "\<lambda>p err. Errorf ''abandon match %s: cancel %s: %w'' [AStr i, AStr p, AErr err]"
  consider (ok) b where "r = Inr b" "entries w1 = filter (\<lambda>e. PlayerID e \<noteq> p) (entries w)" "errs = es"
    | (gone) err where "r = Inl err" "entries w1 = filter (\<lambda>e. PlayerID e \<noteq> p) (entries w)" "errs = ?err p err # es"
    | (kept) err where "r = Inl err" "entries w1 = entries w" "errs = ?err p err # es"
  proof (cases r)
    case (Inr b)
    then have "errs = es" using r es Cons.prems(2) by simp
    with conjunct1 [OF cancel_ok [OF Cons.prems(1) r [unfolded Inr]]] Inr show thesis by (intro ok)
  next
    case (Inl err)
    then have "errs = ?err p err # es" using r es Cons.prems(2) by simp
    with cancel_err [OF Cons.prems(1) r [unfolded Inl]] Inl gone kept show thesis by blast
  qed
  then show ?case
  proof cases
    case ok
    have "entries w' = filter (\<lambda>e. PlayerID e \<notin> insert p P) (entries w)"
      using P(2) ok(2) by (simp add: conj_commute)
    with P ok(3) inv1 inv2 show ?thesis by (intro conjI exI [of _ "insert p P"]) auto
  next
    case gone
    have "entries w' = filter (\<lambda>e. PlayerID e \<notin> insert p P) (entries w)"
      using P(2) gone(2) by (simp add: conj_commute)
    with P gone(3) inv1 inv2 show ?thesis by (intro conjI exI [of _ "insert p P"]) auto
  next
    case kept
    with P inv1 inv2 show ?thesis by (intro conjI exI [of _ P]) auto
  qed
qed

end

section \<open>Properties\<close>

lemma abandon_effect:
  assumes "redis_server R alpha" and "queue_inv (alpha s)"
    and "Abandon (abandon_New (NewRedisQueue R)) c i ids reason s = (r, ls, s')"
  shows "queue_inv (alpha s')
    \<and> (\<exists>P. P \<subseteq> set ids \<and> queue_entries (alpha s') = filter (\<lambda>e. PlayerID e \<notin> P) (queue_entries (alpha s))
         \<and> (case r of
              None \<Rightarrow> P = set ids
            | Some err \<Rightarrow> \<exists>errs. err = ErrJoin errs \<and> errs \<noteq> [] \<and>
                (\<forall>p \<in> set ids - P. \<exists>e. Errorf ''abandon match %s: cancel %s: %w'' [AStr i, AStr p, AErr e] \<in> set errs)))"
proof -
  obtain errs where c: "cancel_all (NewRedisQueue R) c i ids s = (errs, s')"
    and r: "r = (if errs \<noteq> [] then Some (ErrJoin errs) else None)"
    using assms(3) by (auto simp: Abandon_def abandon_New_def split: prod.splits if_splits)
  from queue_contract.cancel_all_entries [OF redis_server.contract [OF assms(1)] assms(2) c]
  show ?thesis unfolding r by (cases "errs = []") auto
qed

text \<open>
  \<open>Abandon\<close> removes only listed players from the Redis queue, keeping the others in order; a nil
  result means that every listed player is gone, and otherwise every listed player who was not
  taken out is named in the joined error with the cause of the failure.
\<close>

lemma abandon_cancels_listed:
  assumes "redis_server R alpha" and "queue_inv (alpha s)"
    and "Abandon (abandon_New (NewRedisQueue R)) c i ids reason s = (r, ls, s')"
  shows "queue_inv (alpha s')
    \<and> (\<exists>P. P \<subseteq> set ids \<and> queue_entries (alpha s') = filter (\<lambda>e. PlayerID e \<notin> P) (queue_entries (alpha s))
         \<and> (case r of
              None \<Rightarrow> P = set ids
            | Some err \<Rightarrow> \<exists>errs. err = ErrJoin errs \<and> errs \<noteq> [] \<and>
                (\<forall>p \<in> set ids - P. \<exists>e. Errorf ''abandon match %s: cancel %s: %w'' [AStr i, AStr p, AErr e] \<in> set errs)))"
  by (rule abandon_effect [OF assms])

lemma abandon_cancels_listed_witness:
  "\<exists>r ls w'. Abandon (abandon_New (NewRedisQueue ref_redis)) RequestCtx ''m1'' [''a'', ''b''] ''x'' two_waiting = (r, ls, w')
     \<and> length (queue_entries (ref_view w')) \<le> 2"
proof -
  obtain r ls w' where a: "Abandon (abandon_New (NewRedisQueue ref_redis)) RequestCtx ''m1'' [''a'', ''b''] ''x'' two_waiting
      = (r, ls, w')"
    by (metis prod_cases3)
  from abandon_cancels_listed [OF ref.redis_server_axioms two_waiting(2) a]
  obtain P where "queue_entries (ref_view w') = filter (\<lambda>e. PlayerID e \<notin> P) (queue_entries (ref_view two_waiting))"
    by blast
  then have "length (queue_entries (ref_view w')) \<le> 2"
    using length_filter_le [of _ "queue_entries (ref_view two_waiting)"] two_waiting(5) by simp
  with a show ?thesis by blast
qed

end
