(* ===== verification/Circuit.thy ===== *)
theory Circuit
  imports Prelude
begin

text \<open>
  internal/usecase/matcher/circuit.go: the circuit breaker of the matching loop. Every method
  holds the mutex from start to end, so it is one atomic step on the record; a method that logs
  returns its log records beside the new state. The counters are Go's 64-bit \<open>int\<close>.
\<close>

section \<open>State and operations\<close>

record circuitBreaker =
  threshold :: int64
  cooldown :: int
  popFailureCount :: int64
  publishFailureCount :: int64
  isOpen :: bool
  openedAt :: instant
  hasLoggedSkip :: bool

text \<open>The zero \<open>time.Time\<close> of a new breaker is an arbitrary instant; it is read only when open.\<close>

definition newCircuitBreaker :: "int64 \<Rightarrow> int \<Rightarrow> circuitBreaker" where
  "newCircuitBreaker thr cd = \<lparr>threshold = thr, cooldown = cd, popFailureCount = 0,
     publishFailureCount = 0, isOpen = False, openedAt = 0, hasLoggedSkip = False\<rparr>"

definition isCircuitOpen :: "circuitBreaker \<Rightarrow> bool" where
  "isCircuitOpen c = isOpen c"

text \<open>The result is \<open>(isAllowed, shouldLogSkip)\<close> and the new state.\<close>

definition allowTick :: "instant \<Rightarrow> circuitBreaker \<Rightarrow> (bool \<times> bool) \<times> circuitBreaker" where
  "allowTick now c =
    (if \<not> isOpen c then ((True, False), c)
     else if time_sub now (openedAt c) \<ge> cooldown c then ((True, False), c)
     else if \<not> hasLoggedSkip c then ((False, True), c\<lparr>hasLoggedSkip := True\<rparr>)
     else ((False, False), c))"

definition open_circuit :: "instant \<Rightarrow> int64 \<Rightarrow> circuitBreaker \<Rightarrow> log list \<times> circuitBreaker" where
  "open_circuit now consecutiveFailures c =
    ([if isOpen c
      then Log LevelWarn ''matcher circuit trial failed, reopening''
             [(''failures'', AInt (sint consecutiveFailures))]
      else Log LevelWarn ''matcher circuit opened''
             [(''consecutive_failures'', AInt (sint consecutiveFailures)),
              (''threshold'', AInt (sint (threshold c))), (''cooldown'', AInt (cooldown c))]],
     c\<lparr>isOpen := True, openedAt := now, hasLoggedSkip := False\<rparr>)"

definition closeIfRecovered :: "circuitBreaker \<Rightarrow> log list \<times> circuitBreaker" where
  "closeIfRecovered c =
    (if \<not> isOpen c then ([], c)
     else if threshold c \<le>s popFailureCount c \<or> threshold c \<le>s publishFailureCount c then ([], c)
     else ([Log LevelInfo ''matcher circuit closed after recovery'' []],
           c\<lparr>isOpen := False, hasLoggedSkip := False\<rparr>))"

definition recordPopSuccess :: "circuitBreaker \<Rightarrow> log list \<times> circuitBreaker" where
  "recordPopSuccess c = closeIfRecovered (c\<lparr>popFailureCount := 0\<rparr>)"

definition recordPopFailure :: "instant \<Rightarrow> circuitBreaker \<Rightarrow> log list \<times> circuitBreaker" where
  "recordPopFailure now c =
    (let c' = c\<lparr>popFailureCount := popFailureCount c + 1\<rparr>
     in if threshold c' \<le>s popFailureCount c' then open_circuit now (popFailureCount c') c'
        else ([], c'))"

definition recordPublishSuccess :: "circuitBreaker \<Rightarrow> log list \<times> circuitBreaker" where
  "recordPublishSuccess c = closeIfRecovered (c\<lparr>publishFailureCount := 0\<rparr>)"

definition recordPublishFailure :: "instant \<Rightarrow> circuitBreaker \<Rightarrow> log list \<times> circuitBreaker" where
  "recordPublishFailure now c =
    (let c' = c\<lparr>publishFailureCount := publishFailureCount c + 1\<rparr>
     in if threshold c' \<le>s publishFailureCount c' then open_circuit now (publishFailureCount c') c'
        else ([], c'))"

lemmas record_defs [circuit_defs] =
  recordPopSuccess_def recordPopFailure_def recordPublishSuccess_def recordPublishFailure_def
  closeIfRecovered_def open_circuit_def Let_def

section \<open>Histories\<close>

text \<open>The calls a breaker receives, as a sequence of events; the newest event comes first.\<close>

datatype circuit_event =
    Allow instant
  | PopOk
  | PopFail instant
  | PublishOk
  | PublishFail instant

fun circuit_step :: "circuit_event \<Rightarrow> circuitBreaker \<Rightarrow> log list \<times> circuitBreaker" where
  "circuit_step (Allow t) c = ([], snd (allowTick t c))"
| "circuit_step PopOk c = recordPopSuccess c"
| "circuit_step (PopFail t) c = recordPopFailure t c"
| "circuit_step PublishOk c = recordPublishSuccess c"
| "circuit_step (PublishFail t) c = recordPublishFailure t c"

fun circuit_after :: "circuit_event list \<Rightarrow> circuitBreaker \<Rightarrow> circuitBreaker" where
  "circuit_after [] c = c"
| "circuit_after (e # es) c = snd (circuit_step e (circuit_after es c))"

text \<open>
  The abstract breaker is a function of the history: the lengths of the current runs of pop
  failures and of publish failures, each ended only by a success of its own kind, and the time
  of the last failure that reached the threshold.
\<close>

fun pop_run :: "circuit_event list \<Rightarrow> nat" where
  "pop_run [] = 0"
| "pop_run (e # es) = (case e of PopOk \<Rightarrow> 0 | PopFail _ \<Rightarrow> Suc (pop_run es) | _ \<Rightarrow> pop_run es)"

fun publish_run :: "circuit_event list \<Rightarrow> nat" where
  "publish_run [] = 0"
| "publish_run (e # es) =
    (case e of PublishOk \<Rightarrow> 0 | PublishFail _ \<Rightarrow> Suc (publish_run es) | _ \<Rightarrow> publish_run es)"

fun tripped_at :: "nat \<Rightarrow> circuit_event list \<Rightarrow> instant" where
  "tripped_at k [] = 0"
| "tripped_at k (e # es) =
    (case e of
       PopFail t \<Rightarrow> if k \<le> pop_run (e # es) then t else tripped_at k es
     | PublishFail t \<Rightarrow> if k \<le> publish_run (e # es) then t else tripped_at k es
     | _ \<Rightarrow> tripped_at k es)"

definition spec_open :: "nat \<Rightarrow> circuit_event list \<Rightarrow> bool" where
  "spec_open k es \<longleftrightarrow> k \<le> pop_run es \<or> k \<le> publish_run es"

text \<open>
  Whether a skip has been reported since the breaker opened: a query that found it open and
  cooling, with no failure at the threshold and no closing after it.
\<close>

fun skip_reported :: "nat \<Rightarrow> int \<Rightarrow> circuit_event list \<Rightarrow> bool" where
  "skip_reported k cd [] = False"
| "skip_reported k cd (e # es) =
    (case e of
       Allow t \<Rightarrow> skip_reported k cd es \<or> (spec_open k es \<and> \<not> cd \<le> time_sub t (tripped_at k es))
     | PopFail t \<Rightarrow> \<not> k \<le> pop_run (e # es) \<and> skip_reported k cd es
     | PublishFail t \<Rightarrow> \<not> k \<le> publish_run (e # es) \<and> skip_reported k cd es
     | _ \<Rightarrow> spec_open k (e # es) \<and> skip_reported k cd es)"

section \<open>The breaker implements its specification\<close>

text \<open>The concrete state that a history has.\<close>

definition circuit_abs :: "int64 \<Rightarrow> int \<Rightarrow> circuit_event list \<Rightarrow> circuitBreaker \<Rightarrow> bool" where
  "circuit_abs thr cd es c \<longleftrightarrow>
     threshold c = thr \<and> cooldown c = cd
     \<and> sint (popFailureCount c) = int (pop_run es)
     \<and> sint (publishFailureCount c) = int (publish_run es)
     \<and> isOpen c = spec_open (nat (sint thr)) es
     \<and> openedAt c = tripped_at (nat (sint thr)) es
     \<and> hasLoggedSkip c = skip_reported (nat (sint thr)) cd es"

lemma runs_le_length: "pop_run es \<le> length es" "publish_run es \<le> length es"
  by (induction es) (auto split: circuit_event.split)

lemma sint_incr:
  "sint (a::int64) = int n \<Longrightarrow> Suc n < 2 ^ 63 \<Longrightarrow> sint (a + 1) = int (Suc n)"
  by (simp add: signed_take_bit_int_eq_self sint_word_ariths)

lemma skip_reported_open: "skip_reported k cd es \<Longrightarrow> spec_open k es"
proof (induction es)
  case (Cons e es)
  then show ?case by (cases e) (auto simp: spec_open_def split: if_splits)
qed simp

lemma skip_reported_runs: "skip_reported k cd es \<Longrightarrow> k \<le> pop_run es \<or> k \<le> publish_run es"
  by (drule skip_reported_open) (simp add: spec_open_def)

lemma threshold_le_count:
  assumes "0 < sint (thr::int64)" and "sint a = int n"
  shows "thr \<le>s a \<longleftrightarrow> nat (sint thr) \<le> n"
  using assms by (auto simp: word_sle_eq)

lemma circuit_abs_new: "0 < sint thr \<Longrightarrow> circuit_abs thr cd [] (newCircuitBreaker thr cd)"
  by (simp add: circuit_abs_def newCircuitBreaker_def spec_open_def)

lemma circuit_abs_step:
  assumes abs: "circuit_abs thr cd es c" and thr: "0 < sint thr" and len: "Suc (length es) < 2 ^ 63"
  shows "circuit_abs thr cd (e # es) (snd (circuit_step e c))"
proof (cases e)
  case (Allow t)
  with abs show ?thesis
    by (auto simp: circuit_abs_def allowTick_def spec_open_def dest: skip_reported_open)
next
  case PopOk
  have "thr \<le>s publishFailureCount c \<longleftrightarrow> nat (sint thr) \<le> publish_run es"
    using abs by (intro threshold_le_count [OF thr]) (simp add: circuit_abs_def)
  with PopOk abs thr show ?thesis
    by (auto simp: circuit_abs_def circuit_defs spec_open_def word_sle_eq dest: skip_reported_runs)
next
  case (PopFail t)
  have n: "sint (popFailureCount c + 1) = int (Suc (pop_run es))"
    using abs len runs_le_length(1) [of es] by (intro sint_incr) (simp_all add: circuit_abs_def)
  note thr_le = threshold_le_count [OF thr n]
  from PopFail abs n show ?thesis
    by (auto simp: circuit_abs_def circuit_defs spec_open_def thr_le)
next
  case PublishOk
  have "thr \<le>s popFailureCount c \<longleftrightarrow> nat (sint thr) \<le> pop_run es"
    using abs by (intro threshold_le_count [OF thr]) (simp add: circuit_abs_def)
  with PublishOk abs thr show ?thesis
    by (auto simp: circuit_abs_def circuit_defs spec_open_def word_sle_eq dest: skip_reported_runs)
next
  case (PublishFail t)
  have n: "sint (publishFailureCount c + 1) = int (Suc (publish_run es))"
    using abs len runs_le_length(2) [of es] by (intro sint_incr) (simp_all add: circuit_abs_def)
  note thr_le = threshold_le_count [OF thr n]
  from PublishFail abs n show ?thesis
    by (auto simp: circuit_abs_def circuit_defs spec_open_def thr_le)
qed

lemma circuit_after_abs:
  assumes "0 < sint thr" and "length es < 2 ^ 63"
  shows "circuit_abs thr cd es (circuit_after es (newCircuitBreaker thr cd))"
  using assms(2)
  by (induction es) (simp_all add: circuit_abs_new circuit_abs_step assms(1))

section \<open>Properties\<close>

lemmas circuit_absD = circuit_after_abs [unfolded circuit_abs_def]

text \<open>
  C14. After every history of fewer than \<open>2 ^ 63\<close> calls, a breaker with a positive threshold is
  open exactly when the current run of pop failures or the current run of publish failures has
  reached the threshold, and \<open>openedAt\<close> is the time of the last failure that reached it.
\<close>

theorem circuit_open_iff_run:
  assumes "0 < sint thr" and "length es < 2 ^ 63"
  shows "isCircuitOpen (circuit_after es (newCircuitBreaker thr cd)) =
           (nat (sint thr) \<le> pop_run es \<or> nat (sint thr) \<le> publish_run es)
       \<and> openedAt (circuit_after es (newCircuitBreaker thr cd)) = tripped_at (nat (sint thr)) es"
  using circuit_absD [OF assms, of cd] by (simp add: isCircuitOpen_def spec_open_def)

lemma circuit_open_iff_run_witness:
  "isCircuitOpen (circuit_after [PopOk, PublishFail 20, PopOk, PublishFail 10, PopOk]
     (newCircuitBreaker 2 second))"
  using circuit_open_iff_run [of 2 "[PopOk, PublishFail 20, PopOk, PublishFail 10, PopOk]" second]
  by simp

text \<open>
  A tick is allowed exactly when the breaker is closed or the cooldown has passed since the last
  failure that reached the threshold; the saturation of \<open>Time.Sub\<close> does not matter.
\<close>

lemma allowTick_cooled:
  assumes "0 < sint thr" and "length es < 2 ^ 63" and "0 < cd" and "cd \<le> max_duration"
  shows "fst (fst (allowTick t (circuit_after es (newCircuitBreaker thr cd)))) =
           (pop_run es < nat (sint thr) \<and> publish_run es < nat (sint thr)
            \<or> tripped_at (nat (sint thr)) es + cd \<le> t)"
proof -
  have "cd \<le> time_sub t u \<longleftrightarrow> cd \<le> t - u" for u
    using assms(3,4) by (intro time_sub_ge_iff) (simp_all add: min_duration_def)
  then show ?thesis
    using circuit_absD [OF assms(1,2), of cd] by (auto simp: allowTick_def spec_open_def)
qed

lemma publish_run_mono: "PublishOk \<notin> set es' \<Longrightarrow> publish_run es \<le> publish_run (es' @ es)"
  by (induction es') (auto split: circuit_event.split)

text \<open>
  Pops do not hide publish failures: once the run of publish failures has reached the
  threshold, the breaker stays open through every later history without a successful publish,
  however many pops succeed.
\<close>

lemma circuit_open_until_publish:
  assumes "0 < sint thr" and "length (es' @ es) < 2 ^ 63"
    and "nat (sint thr) \<le> publish_run es" and "PublishOk \<notin> set es'"
  shows "isCircuitOpen (circuit_after (es' @ es) (newCircuitBreaker thr cd))"
  using circuit_absD [OF assms(1,2), of cd] publish_run_mono [OF assms(4), of es] assms(3)
  by (simp add: isCircuitOpen_def spec_open_def)

lemma circuit_open_until_publish_witness:
  "isCircuitOpen (circuit_after ([PopOk, Allow 9, PopOk] @ [PublishFail 2, PopOk])
     (newCircuitBreaker 1 second))"
  using circuit_open_until_publish [of 1 "[PopOk, Allow 9, PopOk]" "[PublishFail 2, PopOk]" second]
  by simp

fun skip_logs :: "instant list \<Rightarrow> circuitBreaker \<Rightarrow> bool list" where
  "skip_logs [] c = []"
| "skip_logs (t # ts) c = (case allowTick t c of (r, c') \<Rightarrow> snd r # skip_logs ts c')"

lemma skip_logs_logged: "hasLoggedSkip c \<Longrightarrow> count_list (skip_logs ts c) True = 0"
  by (induction ts arbitrary: c) (simp_all add: allowTick_def)

text \<open>
  From any state, however often the loop asks before the next recorded failure or success,
  the skip is logged at most once.
\<close>

lemma skip_logged_at_most_once: "count_list (skip_logs ts c) True \<le> 1"
proof (induction ts arbitrary: c)
  case (Cons t ts)
  then show ?case
    by (cases "hasLoggedSkip c") (simp_all add: allowTick_def skip_logs_logged)
qed simp

end
