(* ===== verification/Presenter.thy ===== *)
theory Presenter
  imports GoText Domain "HOL-Library.Monad_Syntax" "HOL-Library.Sublist"
begin

text \<open>
  internal/presenter: the wire form of a match. \<open>json.Marshal\<close> of a struct writes the fields in
  their declared order; a string is written as \<open>encoding/json\<close> writes it (HTML characters, the
  line separators and control characters escaped, invalid UTF-8 replaced). A struct of strings,
  integers and a slice of such structs always marshals, so the error branch of
  \<open>ToMatchMadeWire\<close> never runs; it is kept in the type. The last section gives the wire format
  a reader of its own and shows that reading inverts writing.
\<close>

section \<open>JSON strings\<close>

definition hex_char :: "nat \<Rightarrow> char" where
  "hex_char d = (if d < 10 then char_of (48 + d) else char_of (87 + d))"

text \<open>An ASCII byte that stands for itself (\<open>htmlSafeSet\<close>).\<close>

definition html_safe :: "nat \<Rightarrow> bool" where
  "html_safe b \<longleftrightarrow> 32 \<le> b \<and> b < 128 \<and> b \<notin> {34, 38, 60, 62, 92}"

text \<open>The escape of an ASCII byte that is not safe.\<close>

definition json_escape_byte :: "nat \<Rightarrow> string" where
  "json_escape_byte b =
     (if b = 92 \<or> b = 34 then [CHR 0x5C, char_of b]
      else if b = 8 then [CHR 0x5C, CHR ''b'']
      else if b = 12 then [CHR 0x5C, CHR ''f'']
      else if b = 10 then [CHR 0x5C, CHR ''n'']
      else if b = 13 then [CHR 0x5C, CHR ''r'']
      else if b = 9 then [CHR 0x5C, CHR ''t'']
      else [CHR 0x5C, CHR ''u'', CHR ''0'', CHR ''0'', hex_char (b div 16), hex_char (b mod 16)])"

function json_chars :: "string \<Rightarrow> string" where
  "json_chars [] = []"
| "json_chars (c # cs) =
     (let b = of_char c in
      if b < 128 then
        (if html_safe b then [c] else json_escape_byte b) @ json_chars cs
      else
        (let (r, n) = decode_rune (c # cs) in
         (if r = rune_error \<and> n = 1 then [CHR 0x5C, CHR ''u'', CHR ''f'', CHR ''f'', CHR ''f'', CHR ''d'']
          else if r = 0x2028 \<or> r = 0x2029
            then [CHR 0x5C, CHR ''u'', CHR ''2'', CHR ''0'', CHR ''2'', hex_char (r mod 16)]
          else take n (c # cs)) @ json_chars (drop n (c # cs))))"
  by pat_completeness auto
termination
proof (relation "measure length")
  fix c :: char and cs b x r n
  assume "x = decode_rune (c # cs)" "(r, n) = x"
  then have "0 < n" using decode_rune_width [of "c # cs"] by (metis list.discI snd_conv)
  then show "(drop n (c # cs), c # cs) \<in> measure length" by simp
qed auto

definition json_string :: "string \<Rightarrow> string" where
  "json_string s = CHR 0x22 # json_chars s @ [CHR 0x22]"

section \<open>ToMatchMadeWire\<close>

definition EventTypeMatchMade :: string where
  "EventTypeMatchMade = ''match_made''"

text \<open>The wire structs of packages/api-matchmaking and their JSON field names.\<close>

record WireMatchedPlayer =
  wp_PlayerID :: string
  wp_DeckID :: int64
  wp_Name :: string
  wp_Level :: int64

record WireMatchMadeEvent =
  we_EventType :: string
  we_MatchID :: string
  we_Players :: "WireMatchedPlayer list"

text \<open>\<open>"name":\<close>, the key of a field.\<close>

definition json_key :: "string \<Rightarrow> string" where
  "json_key k = CHR 0x22 # k @ [CHR 0x22, CHR '':'']"

fun join_comma :: "string list \<Rightarrow> string" where
  "join_comma [] = []"
| "join_comma [x] = x"
| "join_comma (x # y # ys) = x @ CHR '','' # join_comma (y # ys)"

definition marshal_player :: "WireMatchedPlayer \<Rightarrow> string" where
  "marshal_player p =
     ''{'' @ json_key ''player_id'' @ json_string (wp_PlayerID p) @ '','' @
     json_key ''deck_id'' @ fmt_int (sint (wp_DeckID p)) @ '','' @
     json_key ''name'' @ json_string (wp_Name p) @ '','' @
     json_key ''level'' @ fmt_int (sint (wp_Level p)) @ ''}''"

definition marshal_event :: "WireMatchMadeEvent \<Rightarrow> string" where
  "marshal_event e =
     ''{'' @ json_key ''event_type'' @ json_string (we_EventType e) @ '','' @
     json_key ''match_id'' @ json_string (we_MatchID e) @ '','' @
     json_key ''players'' @ ''['' @ join_comma (map marshal_player (we_Players e)) @ '']'' @ ''}''"

definition json_Marshal :: "WireMatchMadeEvent \<Rightarrow> go_error + string" where
  "json_Marshal e = Inr (marshal_event e)"

definition wire_player :: "MatchedPlayer \<Rightarrow> WireMatchedPlayer" where
  "wire_player p = \<lparr>wp_PlayerID = mp_PlayerID p, wp_DeckID = mp_DeckID p,
     wp_Name = mp_Name p, wp_Level = mp_Level p\<rparr>"

definition wire_event :: "MatchMadeEvent \<Rightarrow> WireMatchMadeEvent" where
  "wire_event e = \<lparr>we_EventType = EventTypeMatchMade, we_MatchID = mm_MatchID e,
     we_Players = map wire_player (mm_Players e)\<rparr>"

definition ToMatchMadeWire :: "MatchMadeEvent \<Rightarrow> go_error + (string \<times> string)" where
  "ToMatchMadeWire e =
     (case json_Marshal (wire_event e) of
        Inl err \<Rightarrow> Inl (Errorf ''marshal MatchMadeEvent: %w'' [AErr err])
      | Inr payload \<Rightarrow> Inr (EventTypeMatchMade, payload))"

lemma ToMatchMadeWire_eq:
  "ToMatchMadeWire e = Inr (EventTypeMatchMade, marshal_event (wire_event e))"
  by (simp add: ToMatchMadeWire_def json_Marshal_def)

section \<open>A reader of the wire format\<close>

definition hex_val :: "char \<Rightarrow> nat option" where
  "hex_val c =
     (let v = of_char c in
      if 48 \<le> v \<and> v \<le> 57 then Some (v - 48)
      else if 97 \<le> v \<and> v \<le> 102 then Some (v - 87)
      else if 65 \<le> v \<and> v \<le> 70 then Some (v - 55)
      else None)"

text \<open>UTF-8 of a code point below \<open>0x10000\<close>; surrogates have none.\<close>

definition utf8_bmp :: "nat \<Rightarrow> string option" where
  "utf8_bmp r =
     (if r < 0x80 then Some [char_of r]
      else if r < 0x800 then Some [char_of (192 + r div 64), char_of (128 + r mod 64)]
      else if 0xD800 \<le> r \<and> r \<le> 0xDFFF then None
      else Some [char_of (224 + r div 4096), char_of (128 + r div 64 mod 64), char_of (128 + r mod 64)])"

definition simple_escape :: "char \<Rightarrow> char option" where
  "simple_escape c =
     (if c = CHR 0x22 \<or> c = CHR 0x5C \<or> c = CHR ''/'' then Some c
      else if c = CHR ''b'' then Some (CHR 0x08)
      else if c = CHR ''f'' then Some (CHR 0x0C)
      else if c = CHR ''n'' then Some (CHR 0x0A)
      else if c = CHR ''r'' then Some (CHR 0x0D)
      else if c = CHR ''t'' then Some (CHR 0x09)
      else None)"

text \<open>
  The text of a JSON string up to its closing quote, and what follows the quote. (RFC 8259,
  without escaped surrogate pairs, which the writer never produces.)
\<close>

fun read_chars :: "string \<Rightarrow> (string \<times> string) option" where
  "read_chars [] = None"
| "read_chars (c # cs) =
     (if c = CHR 0x22 then Some ([], cs)
      else if c = CHR 0x5C then
        (case cs of
           [] \<Rightarrow> None
         | e # cs' \<Rightarrow>
             if e = CHR ''u'' then
               (case cs' of
                  h3 # h2 # h1 # h0 # rest \<Rightarrow>
                    (case (hex_val h3, hex_val h2, hex_val h1, hex_val h0) of
                       (Some a3, Some a2, Some a1, Some a0) \<Rightarrow>
                         (case utf8_bmp (a3 * 4096 + a2 * 256 + a1 * 16 + a0) of
                            None \<Rightarrow> None
                          | Some u \<Rightarrow> map_option (\<lambda>(t, r). (u @ t, r)) (read_chars rest))
                     | _ \<Rightarrow> None)
                | _ \<Rightarrow> None)
             else
               (case simple_escape e of
                  None \<Rightarrow> None
                | Some x \<Rightarrow> map_option (\<lambda>(t, r). (x # t, r)) (read_chars cs')))
      else if (of_char c :: nat) < 32 then None
      else map_option (\<lambda>(t, r). (c # t, r)) (read_chars cs))"

text \<open>The text with every byte that is not part of valid UTF-8 replaced by U+FFFD.\<close>

function to_valid :: "string \<Rightarrow> string" where
  "to_valid [] = []"
| "to_valid (c # cs) =
     (if of_char c < (128::nat) then c # to_valid cs
      else
        (let (r, n) = decode_rune (c # cs) in
         (if r = rune_error \<and> n = 1 then [CHR 0xEF, CHR 0xBF, CHR 0xBD] else take n (c # cs))
         @ to_valid (drop n (c # cs))))"
  by pat_completeness auto
termination
proof (relation "measure length")
  fix c :: char and cs x r n
  assume "x = decode_rune (c # cs)" "(r, n) = x"
  then have "0 < n" using decode_rune_width [of "c # cs"] by (metis list.discI snd_conv)
  then show "(drop n (c # cs), c # cs) \<in> measure length" by simp
qed auto

lemma cont_byte_high: "cont_byte b \<Longrightarrow> 128 \<le> b"
  by (simp add: cont_byte_def)

text \<open>The shapes of a multi-byte sequence that \<open>decode_rune\<close> accepts.\<close>

lemma decode_rune_cases:
  assumes d: "decode_rune (c # cs) = (r, n)" and c: "128 \<le> (of_char c :: nat)"
  obtains (error) "r = rune_error" "n = 1"
  | (two) x1 cs' where "cs = x1 # cs'" "n = 2" "cont_byte (of_char x1)" "of_char c \<le> (223 :: nat)"
      "r = (of_char c - 192) * 64 + (of_char x1 - 128)"
  | (three) x1 x2 cs' where "cs = x1 # x2 # cs'" "n = 3" "cont_byte (of_char x1)" "cont_byte (of_char x2)"
      "224 \<le> (of_char c :: nat)" "of_char c \<le> (239 :: nat)"
      "r = (of_char c - 224) * 4096 + (of_char x1 - 128) * 64 + (of_char x2 - 128)"
  | (four) x1 x2 x3 cs' where "cs = x1 # x2 # x3 # cs'" "n = 4" "cont_byte (of_char x1)"
      "cont_byte (of_char x2)" "cont_byte (of_char x3)" "0x10000 \<le> r"
proof -
  let ?b = "of_char c :: nat"
  consider "?b < 194" | "194 \<le> ?b" "?b \<le> 223" | "224 \<le> ?b" "?b \<le> 239"
    | "240 \<le> ?b" "?b \<le> 244" | "244 < ?b"
    by linarith
  then show thesis
  proof cases
    case 1
    then show ?thesis using d c error by (simp add: decode_rune_def)
  next
    case 2
    then show ?thesis using d c error two
      by (cases cs) (simp_all add: decode_rune_def split: if_splits)
  next
    case 3
    then show ?thesis using d c error three
      by (cases cs; cases "tl cs") (simp_all add: decode_rune_def split: if_splits)
  next
    case 4
    show ?thesis
    proof (cases "\<exists>x1 x2 x3 cs'. cs = x1 # x2 # x3 # cs'")
      case True
      then obtain x1 x2 x3 cs' where cs: "cs = x1 # x2 # x3 # cs'" by blast
      show ?thesis
      proof (cases "cont_byte (of_char x1) \<and> (?b = 240 \<longrightarrow> 144 \<le> (of_char x1 :: nat))
          \<and> (?b = 244 \<longrightarrow> (of_char x1 :: nat) \<le> 143) \<and> cont_byte (of_char x2) \<and> cont_byte (of_char x3)")
        case True
        with d 4 cs have n: "n = 4" and r: "r = (?b - 240) * 262144 + (of_char x1 - 128) * 4096
            + (of_char x2 - 128) * 64 + (of_char x3 - 128)"
          by (simp_all add: decode_rune_def)
        have "16 \<le> (?b - 240) * 64 + (of_char x1 - 128)"
          using True 4 by (cases "?b = 240") auto
        then have "0x10000 \<le> r" using r by linarith
        with True n cs show ?thesis using four by blast
      next
        case False
        with d 4 cs have "r = rune_error \<and> n = 1" by (simp add: decode_rune_def)
        then show ?thesis using error by blast
      qed
    next
      case False
      then have "r = rune_error \<and> n = 1"
        using d 4 by (auto simp: decode_rune_def split: list.splits)
      then show ?thesis using error by blast
    qed
  next
    case 5
    then show ?thesis using d c error by (simp add: decode_rune_def)
  qed
qed

lemma decode_rune_bytes:
  assumes "decode_rune (c # cs) = (r, n)" and "\<not> (r = rune_error \<and> n = 1)" and "128 \<le> (of_char c :: nat)"
  shows "\<forall>x \<in> set (take n (c # cs)). 128 \<le> (of_char x :: nat)"
  using assms(1,3)
  by (cases rule: decode_rune_cases) (use assms(2,3) cont_byte_high in auto)

lemma read_high:
  "\<forall>x \<in> set u. 128 \<le> (of_char x :: nat) \<Longrightarrow>
     read_chars (u @ s) = map_option (\<lambda>(t, r). (u @ t, r)) (read_chars s)"
proof (induction u)
  case (Cons c u)
  have "c \<noteq> CHR 0x22" "c \<noteq> CHR 0x5C" "\<not> (of_char c :: nat) < 32" using Cons.prems by auto
  then show ?case using Cons by (simp add: option.map_comp comp_def case_prod_beta)
qed (simp add: option.map_id)

lemma hex_val_char [simp]: "d < 16 \<Longrightarrow> hex_val (hex_char d) = Some d"
  by (auto simp: hex_val_def hex_char_def Let_def)

lemma char_consts:
  "char_of (8 :: nat) = CHR 0x08" "char_of (9 :: nat) = CHR 0x09" "char_of (10 :: nat) = CHR 0x0A"
  "char_of (12 :: nat) = CHR 0x0C" "char_of (13 :: nat) = CHR 0x0D" "char_of (34 :: nat) = CHR 0x22"
  "char_of (92 :: nat) = CHR 0x5C" "char_of (226 :: nat) = CHR 0xE2" "char_of (128 :: nat) = CHR 0x80"
  "char_of (239 :: nat) = CHR 0xEF" "char_of (191 :: nat) = CHR 0xBF" "char_of (189 :: nat) = CHR 0xBD"
  by code_simp+

lemma line_separator_bytes:
  assumes d: "decode_rune (c # cs) = (r, n)" and c: "128 \<le> (of_char c :: nat)"
    and r: "r = 0x2028 \<or> r = 0x2029"
  shows "take n (c # cs) = [CHR 0xE2, CHR 0x80, char_of (128 + r mod 64)]"
  using d c
proof (cases rule: decode_rune_cases)
  case (two x1 cs')
  have "(of_char x1 :: nat) - 128 \<le> 63" using two(3) unfolding cont_byte_def by linarith
  then show ?thesis using r two(4,5) by linarith
next
  case (three x1 x2 cs')
  have b: "(of_char x1 :: nat) - 128 \<le> 63" "(of_char x2 :: nat) - 128 \<le> 63"
    and b': "128 \<le> (of_char x1 :: nat)" "128 \<le> (of_char x2 :: nat)"
    using three(3,4) unfolding cont_byte_def by linarith+
  have "(of_char c :: nat) = 226" using r three(5,7) b by linarith
  moreover from this have "(of_char x1 :: nat) = 128" using r three(7) b b' by linarith
  moreover from calculation have "(of_char x2 :: nat) = 128 + r mod 64" using r three(7) b' by auto
  ultimately have "c = char_of (226 :: nat)" "x1 = char_of (128 :: nat)" "x2 = char_of (128 + r mod 64)"
    by (metis char_of_char)+
  then show ?thesis using three(1,2) by (simp add: char_consts)
qed (use r in \<open>auto simp: rune_error_def\<close>)

text \<open>One escaped byte is read back.\<close>

lemma read_escape_byte:
  assumes "b < 128"
  shows "read_chars (json_escape_byte b @ s) = map_option (\<lambda>(t, r). (char_of b # t, r)) (read_chars s)"
proof (cases "b \<in> {92, 34, 8, 12, 10, 13, 9}")
  case True
  then show ?thesis by (auto simp: json_escape_byte_def simple_escape_def char_consts)
next
  case False
  have h: "hex_val (CHR ''0'') = Some 0" by (simp add: hex_val_def)
  have "hex_val (hex_char (b div 16)) = Some (b div 16)" "hex_val (hex_char (b mod 16)) = Some (b mod 16)"
    using assms by auto
  with False show ?thesis
    by (simp add: json_escape_byte_def h utf8_bmp_def assms)
qed

lemma read_rune_escape:
  assumes "hex_val a = Some x" "hex_val b = Some y" "hex_val c = Some z" "hex_val d = Some w"
    and "utf8_bmp (x * 4096 + y * 256 + z * 16 + w) = Some u"
  shows "read_chars (CHR 0x5C # CHR ''u'' # a # b # c # d # s) =
     map_option (\<lambda>(t, r). (u @ t, r)) (read_chars s)"
  using assms by simp

lemma read_replacement:
  "read_chars ([CHR 0x5C, CHR ''u'', CHR ''f'', CHR ''f'', CHR ''f'', CHR ''d''] @ s) =
     map_option (\<lambda>(t, r). ([CHR 0xEF, CHR 0xBF, CHR 0xBD] @ t, r)) (read_chars s)"
proof -
  have "hex_val (CHR ''f'') = Some 15" "hex_val (CHR ''d'') = Some 13" by (simp_all add: hex_val_def)
  moreover have "utf8_bmp (15 * 4096 + 15 * 256 + 15 * 16 + 13) = Some [CHR 0xEF, CHR 0xBF, CHR 0xBD]"
    by (simp add: utf8_bmp_def char_consts)
  ultimately show ?thesis
    by (simp only: append_Cons append_Nil read_rune_escape)
qed

lemma read_line_separator:
  assumes "r = 0x2028 \<or> r = 0x2029"
  shows "read_chars ([CHR 0x5C, CHR ''u'', CHR ''2'', CHR ''0'', CHR ''2'', hex_char (r mod 16)] @ s) =
     map_option (\<lambda>(t, q). ([CHR 0xE2, CHR 0x80, char_of (128 + r mod 64)] @ t, q)) (read_chars s)"
proof -
  have "hex_val (CHR ''2'') = Some 2" "hex_val (CHR ''0'') = Some 0" by (simp_all add: hex_val_def)
  moreover have "hex_val (hex_char (r mod 16)) = Some (r mod 16)" by simp
  moreover have "utf8_bmp (2 * 4096 + 0 * 256 + 2 * 16 + r mod 16) =
      Some [CHR 0xE2, CHR 0x80, char_of (128 + r mod 64)]"
    using assms by (auto simp: utf8_bmp_def char_consts)
  ultimately show ?thesis
    by (simp only: append_Cons append_Nil read_rune_escape)
qed

lemma read_json_chars: "read_chars (json_chars s @ CHR 0x22 # rest) = Some (to_valid s, rest)"
proof (induction s rule: json_chars.induct)
  case 1
  then show ?case by simp
next
  case (2 c cs)
  let ?b = "of_char c :: nat"
  show ?case
  proof (cases "?b < 128")
    case True
    note IH = "2.IH"(1) [OF refl True]
    show ?thesis
    proof (cases "html_safe ?b")
      case True
      then have "c \<noteq> CHR 0x22" "c \<noteq> CHR 0x5C" "\<not> ?b < 32" by (auto simp: html_safe_def)
      then show ?thesis using True \<open>?b < 128\<close> IH by simp
    next
      case False
      then show ?thesis using \<open>?b < 128\<close> IH by (simp add: read_escape_byte)
    qed
  next
    case False
    obtain r n where d: "decode_rune (c # cs) = (r, n)" by fastforce
    note IH = "2.IH"(2) [OF refl False d [symmetric] refl]
    have c: "128 \<le> ?b" using False by simp
    consider "r = rune_error" "n = 1"
      | "r = 0x2028 \<or> r = 0x2029" | "\<not> (r = rune_error \<and> n = 1)" "\<not> (r = 0x2028 \<or> r = 0x2029)"
      by blast
    then show ?thesis
    proof cases
      case 1
      then have "json_chars (c # cs) = [CHR 0x5C, CHR ''u'', CHR ''f'', CHR ''f'', CHR ''f'', CHR ''d''] @ json_chars (drop n (c # cs))"
        and "to_valid (c # cs) = [CHR 0xEF, CHR 0xBF, CHR 0xBD] @ to_valid (drop n (c # cs))"
        using False d by simp_all
      then show ?thesis
        by (simp only: append_assoc read_replacement IH) simp
    next
      case 2
      then have ne: "r \<noteq> rune_error" by (auto simp: rune_error_def)
      have "json_chars (c # cs) = [CHR 0x5C, CHR ''u'', CHR ''2'', CHR ''0'', CHR ''2'', hex_char (r mod 16)] @ json_chars (drop n (c # cs))"
        using False d 2 ne by simp
      moreover have "to_valid (c # cs) = take n (c # cs) @ to_valid (drop n (c # cs))"
        using False d ne by simp
      ultimately show ?thesis
        by (simp only: append_assoc read_line_separator [OF 2] line_separator_bytes [OF d c 2] IH) simp
    next
      case 3
      then have "json_chars (c # cs) = take n (c # cs) @ json_chars (drop n (c # cs))"
        and "to_valid (c # cs) = take n (c # cs) @ to_valid (drop n (c # cs))"
        using False d by auto
      then show ?thesis
        by (simp only: append_assoc read_high [OF decode_rune_bytes [OF d 3(1) c]] IH) simp
    qed
  qed
qed

text \<open>
  The reader of a message: literal text, strings, integers, a player, the players up to the
  closing bracket (the fuel bounds the number of players), and the whole message.
\<close>

definition expect :: "string \<Rightarrow> string \<Rightarrow> string option" where
  "expect lit s = (if prefix lit s then Some (drop (length lit) s) else None)"

definition read_string :: "string \<Rightarrow> (string \<times> string) option" where
  "read_string s = do { r \<leftarrow> expect [CHR 0x22] s; read_chars r }"

definition int_char :: "char \<Rightarrow> bool" where
  "int_char c \<longleftrightarrow> c = CHR ''-'' \<or> digit_val c \<noteq> None"

definition read_int :: "string \<Rightarrow> (int64 \<times> string) option" where
  "read_int s =
     (case parse_int64 (takeWhile int_char s) of
        Inl e \<Rightarrow> None
      | Inr i \<Rightarrow> Some (word_of_int i, dropWhile int_char s))"

definition read_player :: "string \<Rightarrow> (WireMatchedPlayer \<times> string) option" where
  "read_player s = do {
     s \<leftarrow> expect (''{'' @ json_key ''player_id'') s;
     (pid, s) \<leftarrow> read_string s;
     s \<leftarrow> expect ('','' @ json_key ''deck_id'') s;
     (deck, s) \<leftarrow> read_int s;
     s \<leftarrow> expect ('','' @ json_key ''name'') s;
     (name, s) \<leftarrow> read_string s;
     s \<leftarrow> expect ('','' @ json_key ''level'') s;
     (level, s) \<leftarrow> read_int s;
     s \<leftarrow> expect ''}'' s;
     Some (\<lparr>wp_PlayerID = pid, wp_DeckID = deck, wp_Name = name, wp_Level = level\<rparr>, s)
   }"

fun read_more :: "nat \<Rightarrow> string \<Rightarrow> (WireMatchedPlayer list \<times> string) option" where
  "read_more 0 s = None"
| "read_more (Suc k) s =
     (case expect '']'' s of
        Some r \<Rightarrow> Some ([], r)
      | None \<Rightarrow> do {
          s \<leftarrow> expect '','' s;
          (p, s) \<leftarrow> read_player s;
          (ps, s) \<leftarrow> read_more k s;
          Some (p # ps, s)
        })"

definition read_players :: "nat \<Rightarrow> string \<Rightarrow> (WireMatchedPlayer list \<times> string) option" where
  "read_players k s =
     (case expect '']'' s of
        Some r \<Rightarrow> Some ([], r)
      | None \<Rightarrow> do {
          (p, s) \<leftarrow> read_player s;
          (ps, s) \<leftarrow> read_more k s;
          Some (p # ps, s)
        })"

definition read_event_upto :: "nat \<Rightarrow> string \<Rightarrow> WireMatchMadeEvent option" where
  "read_event_upto k s = do {
     s \<leftarrow> expect (''{'' @ json_key ''event_type'') s;
     (ty, s) \<leftarrow> read_string s;
     s \<leftarrow> expect ('','' @ json_key ''match_id'') s;
     (mid, s) \<leftarrow> read_string s;
     s \<leftarrow> expect ('','' @ json_key ''players'' @ ''['') s;
     (ps, s) \<leftarrow> read_players k s;
     s \<leftarrow> expect ''}'' s;
     if s = [] then Some \<lparr>we_EventType = ty, we_MatchID = mid, we_Players = ps\<rparr> else None
   }"

definition read_event :: "string \<Rightarrow> WireMatchMadeEvent option" where
  "read_event s = read_event_upto (length s) s"

section \<open>Reading inverts writing\<close>

lemma expect_append [simp]: "expect lit (lit @ s) = Some s"
  by (simp add: expect_def)

lemma expect_Cons [simp]: "expect (a # lit) (b # s) = (if a = b then expect lit s else None)"
  by (simp add: expect_def)

lemma expect_Nil [simp]: "expect [] s = Some s"
  by (simp add: expect_def)

lemma read_string_json [simp]: "read_string (json_string s @ r) = Some (to_valid s, r)"
  by (simp add: read_string_def json_string_def read_json_chars)

lemma int_char_fmt_int: "\<forall>c \<in> set (fmt_int i). int_char c"
  by (auto simp: fmt_int_def int_char_def split: if_splits dest: fmt_nat_digits)

lemma read_int_fmt [simp]:
  assumes "\<not> int_char c"
  shows "read_int (fmt_int (sint (w::int64)) @ c # r) = Some (w, c # r)"
  using int_char_fmt_int [of "sint w"] assms
  by (simp add: read_int_def text_simps takeWhile_append dropWhile_append)

lemma int_char_sep [simp]: "\<not> int_char (CHR '','')" "\<not> int_char (CHR ''}'')"
  by (simp_all add: int_char_def digit_val_def)

text \<open>A player, and an event, whose text fields are valid UTF-8.\<close>

definition valid_player :: "WireMatchedPlayer \<Rightarrow> WireMatchedPlayer" where
  "valid_player p = p\<lparr>wp_PlayerID := to_valid (wp_PlayerID p), wp_Name := to_valid (wp_Name p)\<rparr>"

definition valid_event :: "WireMatchMadeEvent \<Rightarrow> WireMatchMadeEvent" where
  "valid_event e = \<lparr>we_EventType = to_valid (we_EventType e), we_MatchID = to_valid (we_MatchID e),
     we_Players = map valid_player (we_Players e)\<rparr>"

lemma read_player_marshal: "read_player (marshal_player p @ r) = Some (valid_player p, r)"
  by (simp add: read_player_def marshal_player_def valid_player_def)

lemma expect_bracket_player: "expect '']'' (marshal_player p @ r) = None"
  by (simp add: marshal_player_def)

lemma read_more_marshal:
  "length ps < k \<Longrightarrow>
     read_more k (concat (map (\<lambda>p. CHR '','' # marshal_player p) ps) @ CHR '']'' # r)
       = Some (map valid_player ps, r)"
proof (induction ps arbitrary: k)
  case Nil
  then show ?case by (cases k) simp_all
next
  case (Cons p ps)
  then show ?case by (cases k) (simp_all add: read_player_marshal)
qed

lemma join_comma_Cons: "join_comma (x # xs) = x @ concat (map (\<lambda>y. CHR '','' # y) xs)"
  by (induction xs arbitrary: x) auto

lemma read_players_marshal:
  assumes "length ps \<le> k"
  shows "read_players k (join_comma (map marshal_player ps) @ CHR '']'' # r) = Some (map valid_player ps, r)"
proof (cases ps)
  case Nil
  then show ?thesis by (simp add: read_players_def)
next
  case (Cons p qs)
  then show ?thesis using assms read_more_marshal [of qs k r]
    by (simp add: read_players_def join_comma_Cons read_player_marshal expect_bracket_player comp_def)
qed

lemma length_join_comma: "(\<And>x. x \<in> set xs \<Longrightarrow> x \<noteq> []) \<Longrightarrow> length xs \<le> length (join_comma xs)"
proof (induction xs rule: join_comma.induct)
  case (2 x)
  then show ?case by (simp add: Suc_le_eq)
next
  case (3 x y ys)
  then show ?case by (simp add: le_SucI trans_le_add2)
qed simp

lemma players_fit: "length (we_Players e) \<le> length (marshal_event e)"
  using length_join_comma [of "map marshal_player (we_Players e)"]
  by (force simp: marshal_event_def marshal_player_def)

lemma read_event_upto_marshal:
  "length (we_Players e) \<le> k \<Longrightarrow> read_event_upto k (marshal_event e) = Some (valid_event e)"
  using read_players_marshal [of "we_Players e" k "''}''"]
  by (simp add: read_event_upto_def marshal_event_def valid_event_def json_key_def)

lemma read_event_marshal: "read_event (marshal_event e) = Some (valid_event e)"
  unfolding read_event_def by (rule read_event_upto_marshal [OF players_fit])

lemma to_valid_ascii: "\<forall>c \<in> set s. (of_char c :: nat) < 128 \<Longrightarrow> to_valid s = s"
  by (induction s) auto

section \<open>Properties\<close>


end
