(* ===== verification/Matcher.thy ===== *)
theory Matcher
  imports Circuit Presenter
begin

text \<open>
  internal/usecase/matcher/matcher.go, without the loop of \<open>Run\<close> (theory RunLoop): the options,
  the constructor, one tick and the writing back of a pair whose publication failed. A method
  returns its log records, the matcher with its breaker updated where it changes, and the world.
\<close>

section \<open>Constants, options, constructor\<close>

definition reenqueueMaxAttempts :: nat where
  "reenqueueMaxAttempts = 5"

definition reenqueueInitialBackoff :: int where
  "reenqueueInitialBackoff = 100 * millisecond"

definition reenqueueBackoffFactor :: int where
  "reenqueueBackoffFactor = 2"

definition shutdownReenqueueTimeout :: int where
  "shutdownReenqueueTimeout = 2 * second"

record 'w Matcher =
  queue :: "'w Queue"
  publisher :: "'w RawEventPublisher"
  clock :: "'w Clock"
  matchIDs :: "'w MatchIDGenerator"
  interval :: int
  circuit :: circuitBreaker
  drainTimeout :: int

record Options =
  Interval :: int
  CircuitThreshold :: int64
  CircuitCooldown :: int
  DrainTimeout :: int

definition validate_Options :: "Options \<Rightarrow> go_error option" where
  "validate_Options opts =
    (if Interval opts \<le> 0 then
       Some (Errorf ''matcher: Interval must be > 0, got %s'' [AInt (Interval opts)])
     else if CircuitThreshold opts \<le>s 0 then
       Some (Errorf ''matcher: CircuitThreshold must be > 0, got %d'' [AInt (sint (CircuitThreshold opts))])
     else if CircuitCooldown opts \<le> 0 then
       Some (Errorf ''matcher: CircuitCooldown must be > 0, got %s'' [AInt (CircuitCooldown opts)])
     else if DrainTimeout opts \<le> 0 then
       Some (Errorf ''matcher: DrainTimeout must be > 0, got %s'' [AInt (DrainTimeout opts)])
     else None)"

definition matcher_New ::
  "'w Queue \<Rightarrow> 'w RawEventPublisher \<Rightarrow> 'w Clock \<Rightarrow> 'w MatchIDGenerator \<Rightarrow> Options
     \<Rightarrow> go_error + 'w Matcher" where
  "matcher_New q p c ids opts =
    (case validate_Options opts of
       Some err \<Rightarrow> Inl err
     | None \<Rightarrow> Inr \<lparr>queue = q, publisher = p, clock = c, matchIDs = ids,
         interval = Interval opts,
         circuit = newCircuitBreaker (CircuitThreshold opts) (CircuitCooldown opts),
         drainTimeout = DrainTimeout opts\<rparr>)"

definition IsCircuitOpen :: "'w Matcher \<Rightarrow> bool" where
  "IsCircuitOpen m = isCircuitOpen (circuit m)"

section \<open>Writing a pair back\<close>

definition collectPlayerIDs :: "QueueEntry list \<Rightarrow> string list" where
  "collectPlayerIDs pair = map PlayerID pair"

definition logDroppedPair :: "string \<Rightarrow> QueueEntry list \<Rightarrow> log" where
  "logDroppedPair matchID pair =
     Log LevelWarn ''matcher dropped stale pair instead of re-enqueueing''
       [(''match_id'', AStr matchID), (''players'', AStrs (collectPlayerIDs pair))]"

text \<open>\<open>context.WithTimeout(context.Background(), \<dots>)\<close>: the shutdown signal does not cancel it.\<close>

definition bestEffortReenqueue ::
  "'w Matcher \<Rightarrow> string \<Rightarrow> QueueEntry list \<Rightarrow> string \<Rightarrow> 'w \<Rightarrow> log list \<times> 'w" where
  "bestEffortReenqueue m matchID pair gatewayInstanceID w =
    (let players = collectPlayerIDs pair;
         l = Log LevelWarn ''matcher shutdown during retry, final re-enqueue attempt''
               [(''match_id'', AStr matchID), (''players'', AStrs players)];
         cctx = WithTimeout Background shutdownReenqueueTimeout
     in case Reenqueue (queue m) cctx pair gatewayInstanceID w of
          (Inl err, w) \<Rightarrow>
            ([l, Log LevelError ''matcher lost pair during shutdown''
                   [(''match_id'', AStr matchID), (''players'', AStrs players), (''error'', AVal err)]], w)
        | (Inr reenqueued, w) \<Rightarrow>
            if \<not> reenqueued then ([l, logDroppedPair matchID pair], w)
            else ([l, Log LevelInfo ''matcher shutdown re-enqueue ok'' [(''match_id'', AStr matchID)]], w))"

text \<open>
  The loop of \<open>reenqueueWithRetry\<close>, from an attempt on. \<open>WaitOrDone\<close> is the \<open>select\<close> of the
  context's \<open>Done\<close> channel against \<open>After(backoff)\<close>.
\<close>

function reenqueue_from ::
  "'w Matcher \<Rightarrow> go_ctx \<Rightarrow> string \<Rightarrow> QueueEntry list \<Rightarrow> string \<Rightarrow> nat \<Rightarrow> int \<Rightarrow> 'w \<Rightarrow> log list \<times> 'w" where
  "reenqueue_from m ctx matchID pair gatewayInstanceID attempt backoff w =
    (let lost = Log LevelError ''matcher lost pair after re-enqueue attempts''
                  [(''max_attempts'', AInt (int reenqueueMaxAttempts)), (''match_id'', AStr matchID),
                   (''players'', AStrs (collectPlayerIDs pair))]
     in
     if attempt \<le> reenqueueMaxAttempts then
       (case Reenqueue (queue m) ctx pair gatewayInstanceID w of
          (Inr reenqueued, w) \<Rightarrow> (if \<not> reenqueued then [logDroppedPair matchID pair] else [], w)
        | (Inl err, w) \<Rightarrow>
            (let l = Log LevelWarn ''matcher re-enqueue attempt failed''
                       [(''attempt'', AInt (int attempt)),
                        (''max_attempts'', AInt (int reenqueueMaxAttempts)), (''error'', AVal err)];
                 (cancelled, w) = CtxErr (clock m) ctx w
             in if cancelled then
                  (let (ls, w) = bestEffortReenqueue m matchID pair gatewayInstanceID w in (l # ls, w))
                else if attempt = reenqueueMaxAttempts then ([l, lost], w)
                else
                  (let (done_first, w) = WaitOrDone (clock m) ctx backoff w
                   in if done_first then
                        (let (ls, w) = bestEffortReenqueue m matchID pair gatewayInstanceID w in (l # ls, w))
                      else
                        (let (ls, w) = reenqueue_from m ctx matchID pair gatewayInstanceID (attempt + 1)
                                         (backoff * reenqueueBackoffFactor) w
                         in (l # ls, w)))))
     else ([lost], w))"
  by pat_completeness auto
termination
  by (relation "measure (\<lambda>(m, ctx, matchID, pair, g, attempt, backoff, w). Suc reenqueueMaxAttempts - attempt)")
    auto

declare reenqueue_from.simps [simp del]

text \<open>The five ways in which an attempt goes.\<close>

lemma reenqueue_from_ok:
  "a \<le> reenqueueMaxAttempts \<Longrightarrow> Reenqueue (queue m) c es g w = (Inr ok, w1) \<Longrightarrow>
     reenqueue_from m c i es g a b w = (if ok then [] else [logDroppedPair i es], w1)"
  by (subst reenqueue_from.simps) simp

lemma reenqueue_from_failed:
  assumes "a \<le> reenqueueMaxAttempts" and "Reenqueue (queue m) c es g w = (Inl err, w1)"
  obtains lost l where
    "log_lvl lost = LevelError" "(''players'', AStrs (collectPlayerIDs es)) \<in> set (log_attrs lost)"
    "\<And>w2. CtxErr (clock m) c w1 = (True, w2) \<Longrightarrow>
       reenqueue_from m c i es g a b w = (case bestEffortReenqueue m i es g w2 of (ls, w') \<Rightarrow> (l # ls, w'))"
    "\<And>w2. CtxErr (clock m) c w1 = (False, w2) \<Longrightarrow> a = reenqueueMaxAttempts \<Longrightarrow>
       reenqueue_from m c i es g a b w = ([l, lost], w2)"
    "\<And>w2 w3. CtxErr (clock m) c w1 = (False, w2) \<Longrightarrow> a < reenqueueMaxAttempts \<Longrightarrow>
       WaitOrDone (clock m) c b w2 = (True, w3) \<Longrightarrow>
       reenqueue_from m c i es g a b w = (case bestEffortReenqueue m i es g w3 of (ls, w') \<Rightarrow> (l # ls, w'))"
    "\<And>w2 w3. CtxErr (clock m) c w1 = (False, w2) \<Longrightarrow> a < reenqueueMaxAttempts \<Longrightarrow>
       WaitOrDone (clock m) c b w2 = (False, w3) \<Longrightarrow>
       reenqueue_from m c i es g a b w =
         (case reenqueue_from m c i es g (Suc a) (b * reenqueueBackoffFactor) w3 of (ls, w') \<Rightarrow> (l # ls, w'))"
proof
  let ?lost = "Log LevelError ''matcher lost pair after re-enqueue attempts''
                  [(''max_attempts'', AInt (int reenqueueMaxAttempts)), (''match_id'', AStr i),
                   (''players'', AStrs (collectPlayerIDs es))]"
  let ?l = "Log LevelWarn ''matcher re-enqueue attempt failed''
                       [(''attempt'', AInt (int a)),
                        (''max_attempts'', AInt (int reenqueueMaxAttempts)), (''error'', AVal err)]"
  show "log_lvl ?lost = LevelError" "(''players'', AStrs (collectPlayerIDs es)) \<in> set (log_attrs ?lost)"
    by simp_all
  show "reenqueue_from m c i es g a b w = (case bestEffortReenqueue m i es g w2 of (ls, w') \<Rightarrow> (?l # ls, w'))"
    if "CtxErr (clock m) c w1 = (True, w2)" for w2
    using assms that by (subst reenqueue_from.simps) (simp split: prod.split)
  show "reenqueue_from m c i es g a b w = ([?l, ?lost], w2)"
    if "CtxErr (clock m) c w1 = (False, w2)" "a = reenqueueMaxAttempts" for w2
    using assms that by (subst reenqueue_from.simps) simp
  show "reenqueue_from m c i es g a b w = (case bestEffortReenqueue m i es g w3 of (ls, w') \<Rightarrow> (?l # ls, w'))"
    if "CtxErr (clock m) c w1 = (False, w2)" "a < reenqueueMaxAttempts" "WaitOrDone (clock m) c b w2 = (True, w3)" for w2 w3
    using assms that by (subst reenqueue_from.simps) (simp split: prod.split)
  show "reenqueue_from m c i es g a b w =
         (case reenqueue_from m c i es g (Suc a) (b * reenqueueBackoffFactor) w3 of (ls, w') \<Rightarrow> (?l # ls, w'))"
    if "CtxErr (clock m) c w1 = (False, w2)" "a < reenqueueMaxAttempts" "WaitOrDone (clock m) c b w2 = (False, w3)" for w2 w3
    using assms that by (subst reenqueue_from.simps) (simp split: prod.split)
qed

definition reenqueueWithRetry ::
  "'w Matcher \<Rightarrow> go_ctx \<Rightarrow> string \<Rightarrow> QueueEntry list \<Rightarrow> string \<Rightarrow> 'w \<Rightarrow> log list \<times> 'w" where
  "reenqueueWithRetry m ctx matchID pair gatewayInstanceID w =
     reenqueue_from m ctx matchID pair gatewayInstanceID 1 reenqueueInitialBackoff w"

section \<open>One tick\<close>

definition matched_player :: "QueueEntry \<Rightarrow> MatchedPlayer" where
  "matched_player e = \<lparr>mp_PlayerID = PlayerID e, mp_DeckID = DeckID e, mp_Name = Name e, mp_Level = Level e\<rparr>"

definition record_publish_failure :: "'w Matcher \<Rightarrow> 'w \<Rightarrow> log list \<times> 'w Matcher \<times> 'w" where
  "record_publish_failure m w =
    (let (now, w) = Now (clock m) w;
         (ls, c) = recordPublishFailure now (circuit m)
     in (ls, m\<lparr>circuit := c\<rparr>, w))"

text \<open>The rest of a tick, for a popped pair.\<close>

definition publish_pair ::
  "'w Matcher \<Rightarrow> go_ctx \<Rightarrow> QueueEntry list \<Rightarrow> string \<Rightarrow> 'w \<Rightarrow> log list \<times> 'w Matcher \<times> 'w" where
  "publish_pair m ctx pair gatewayInstanceID w =
    (let (matchID, w) = NewMatchID (matchIDs m) w;
         players = map matched_player pair
     in case ToMatchMadeWire \<lparr>mm_MatchID = matchID, mm_Players = players\<rparr> of
          Inl err \<Rightarrow>
            (let (ls, m, w) = record_publish_failure m w;
                 (ls', w) = reenqueueWithRetry m ctx matchID pair gatewayInstanceID w
             in (Log LevelError ''matcher build match_made failed'' [(''error'', AVal err)] # ls @ ls', m, w))
        | Inr (eventType, payload) \<Rightarrow>
            (case Publish (publisher m) ctx eventType payload w of
               (Some err, w) \<Rightarrow>
                 (let (ls, m, w) = record_publish_failure m w;
                      (ls', w) = reenqueueWithRetry m ctx matchID pair gatewayInstanceID w
                  in (Log LevelError ''matcher publish failed, re-enqueueing pair'' [(''error'', AVal err)]
                        # ls @ ls', m, w))
             | (None, w) \<Rightarrow>
                 (let (ls, c) = recordPublishSuccess (circuit m)
                  in (ls @ [Log LevelInfo ''matcher match_made''
                        [(''match_id'', AStr matchID), (''player1'', AStr (PlayerID (pair ! 0))),
                         (''player2'', AStr (PlayerID (pair ! 1)))]], m\<lparr>circuit := c\<rparr>, w))))"

definition tick :: "'w Matcher \<Rightarrow> go_ctx \<Rightarrow> 'w \<Rightarrow> log list \<times> 'w Matcher \<times> 'w" where
  "tick m ctx w =
    (let (now, w) = Now (clock m) w;
         ((isAllowed, shouldLogSkip), c) = allowTick now (circuit m);
         m = m\<lparr>circuit := c\<rparr>
     in
     if \<not> isAllowed then
       (if shouldLogSkip then [Log LevelWarn ''matcher circuit open, skipping tick'' []] else [], m, w)
     else
       (case PopPair (queue m) ctx w of
          (Inl err, w) \<Rightarrow>
            (let (now, w) = Now (clock m) w;
                 (ls, c) = recordPopFailure now (circuit m)
             in (Log LevelError ''matcher pop pair failed'' [(''error'', AVal err)] # ls, m\<lparr>circuit := c\<rparr>, w))
        | (Inr (pair, gatewayInstanceID), w) \<Rightarrow>
            (let (ls, c) = recordPopSuccess (circuit m);
                 m = m\<lparr>circuit := c\<rparr>
             in
             if length pair = 0 then (ls, m, w)
             else if length pair \<noteq> MatchPlayerCount then
               (ls @ [Log LevelError ''matcher popped unexpected pair size''
                  [(''size'', AInt (int (length pair))), (''expected'', AInt (int MatchPlayerCount)),
                   (''players'', AStrs (collectPlayerIDs pair))]], m, w)
             else
               (let (ls', m, w) = publish_pair m ctx pair gatewayInstanceID w in (ls @ ls', m, w)))))"

end
