(* ===== verification/Handler.thy ===== *)
theory Handler
  imports Abandon Matcher
begin

text \<open>
  internal/adapter/httphandler: the handlers, as functions from a request to a response, log records
  and the next world. gin and the token verifier are not part of the repository: the decoding of a
  JSON body is the parameter \<open>gin\<close>, the verifier is a function that refuses a request with a
  response or gives the player's identifier. \<open>gin.Recovery\<close> (a panic becomes a 500) has no counterpart:
  the handlers do not panic.
\<close>

section \<open>Requests and responses\<close>

record EnqueueRequest =
  er_DeckID :: int64
  er_GatewayInstanceID :: string
  er_Level :: int64
  er_Name :: string

record MatchAbandonedRequest =
  ma_MatchID :: string
  ma_PlayerIDs :: "string list"
  ma_Reason :: string

definition MatchAbandonedRequestReasonPlayerNotConnected :: string where
  "MatchAbandonedRequestReasonPlayerNotConnected = ''player_not_connected''"

definition reason_Valid :: "string \<Rightarrow> bool" where
  "reason_Valid e = (e = MatchAbandonedRequestReasonPlayerNotConnected)"

record request =
  rq_method :: string
  rq_path :: string
  rq_body :: string

text \<open>A body: none, \<open>{"error": \<dots>}\<close> (a format and its arguments), the queue size, the health.\<close>

datatype body = NoBody | JsonError string "fmt_arg list" | JsonSize int | JsonHealth (status: string) (circuit_text: string)

record response =
  rs_status :: nat
  rs_body :: body

abbreviation respond :: "nat \<Rightarrow> body \<Rightarrow> response" where
  "respond st b \<equiv> \<lparr>rs_status = st, rs_body = b\<rparr>"

text \<open>\<open>c.ShouldBindJSON(&req)\<close> for the two request types.\<close>

record gin =
  gin_bind_enqueue :: "string \<Rightarrow> go_error + EnqueueRequest"
  gin_bind_abandoned :: "string \<Rightarrow> go_error + MatchAbandonedRequest"

section \<open>The handlers\<close>

definition healthStatusOK :: string where "healthStatusOK = ''ok''"
definition healthStatusDegraded :: string where "healthStatusDegraded = ''degraded''"
definition healthCircuitClosed :: string where "healthCircuitClosed = ''closed''"
definition healthCircuitOpen :: string where "healthCircuitOpen = ''open''"
definition minDeckID :: int64 where "minDeckID = 1"

definition unavailableMessage :: string where
  "unavailableMessage = ''matchmaking is temporarily unavailable''"

definition invalidRequestBodyMessage :: string where
  "invalidRequestBodyMessage = ''request body is not valid''"

text \<open>\<open>h_circuit\<close> is the \<open>CircuitStater\<close>, \<open>h_abandoner\<close> the \<open>MatchAbandoner\<close>.\<close>

record 'w Handler =
  h_queue :: "'w Queue"
  h_circuit :: "'w \<Rightarrow> bool"
  h_abandoner :: "go_ctx \<Rightarrow> string \<Rightarrow> string list \<Rightarrow> string \<Rightarrow> 'w \<Rightarrow> go_error option \<times> log list \<times> 'w"

definition handler_New ::
  "'w Queue \<Rightarrow> ('w \<Rightarrow> bool)
     \<Rightarrow> (go_ctx \<Rightarrow> string \<Rightarrow> string list \<Rightarrow> string \<Rightarrow> 'w \<Rightarrow> go_error option \<times> log list \<times> 'w) \<Rightarrow> 'w Handler" where
  "handler_New q c a = \<lparr>h_queue = q, h_circuit = c, h_abandoner = a\<rparr>"

definition respondUnavailable :: "request \<Rightarrow> go_error \<Rightarrow> response \<times> log list" where
  "respondUnavailable rq err =
    (respond 503 (JsonError unavailableMessage []),
     [Log LevelError ''matchmaking dependency unavailable''
        [(''path'', AStr (rq_path rq)), (''method'', AStr (rq_method rq)), (''error'', AVal err)]])"

definition handle_Enqueue ::
  "gin \<Rightarrow> 'w Handler \<Rightarrow> string \<Rightarrow> request \<Rightarrow> 'w \<Rightarrow> response \<times> log list \<times> 'w" where
  "handle_Enqueue G h playerID rq w =
    (case gin_bind_enqueue G (rq_body rq) of
       Inl err \<Rightarrow> (respond 400 (JsonError invalidRequestBodyMessage []), [], w)
     | Inr req \<Rightarrow>
         if er_DeckID req <s minDeckID then
           (respond 400 (JsonError ''deck_id must be a positive integer'' []), [], w)
         else if is_blank (er_Name req) then (respond 400 (JsonError ''name is required'' []), [], w)
         else if is_blank (er_GatewayInstanceID req) then
           (respond 400 (JsonError ''gateway_instance_id is required'' []), [], w)
         else
           (case Enqueue (h_queue h) RequestCtx playerID (er_DeckID req) (er_Name req) (er_Level req)
                   (er_GatewayInstanceID req) w of
              (Inl err, w) \<Rightarrow> (let (r, ls) = respondUnavailable rq err in (r, ls, w))
            | (Inr removed, w) \<Rightarrow>
                (respond 202 NoBody,
                 if 0 < removed then
                   [Log LevelWarn ''matchmaking queue reset for new gateway instance''
                      [(''gateway_instance_id'', AStr (er_GatewayInstanceID req)),
                       (''removed_entries'', AInt removed)]]
                 else [], w)))"

definition handle_Cancel ::
  "'w Handler \<Rightarrow> string \<Rightarrow> request \<Rightarrow> 'w \<Rightarrow> response \<times> log list \<times> 'w" where
  "handle_Cancel h playerID rq w =
    (case Cancel (h_queue h) RequestCtx playerID w of
       (Inl err, w) \<Rightarrow> (let (r, ls) = respondUnavailable rq err in (r, ls, w))
     | (Inr removed, w) \<Rightarrow> (respond (if \<not> removed then 404 else 200) NoBody, [], w))"

text \<open>The loop over \<open>player_ids\<close> with the set \<open>seen\<close>: the message of the first fault.\<close>

fun check_player_ids :: "string list \<Rightarrow> string list \<Rightarrow> string option" where
  "check_player_ids seen [] = None"
| "check_player_ids seen (i # ids) =
    (if i = [] then Some ''player_ids must not contain an empty id''
     else if i \<in> set seen then Some ''player_ids must not contain a duplicate id''
     else check_player_ids (i # seen) ids)"

definition handle_ReportMatchAbandoned ::
  "gin \<Rightarrow> 'w Handler \<Rightarrow> request \<Rightarrow> 'w \<Rightarrow> response \<times> log list \<times> 'w" where
  "handle_ReportMatchAbandoned G h rq w =
    (case gin_bind_abandoned G (rq_body rq) of
       Inl err \<Rightarrow> (respond 400 (JsonError invalidRequestBodyMessage []), [], w)
     | Inr req \<Rightarrow>
         if ma_MatchID req = [] then (respond 400 (JsonError ''match_id is required'' []), [], w)
         else if length (ma_PlayerIDs req) \<noteq> MatchPlayerCount then
           (respond 400 (JsonError ''player_ids must contain exactly %d ids'' [AInt (int MatchPlayerCount)]), [], w)
         else
           (case check_player_ids [] (ma_PlayerIDs req) of
              Some msg \<Rightarrow> (respond 400 (JsonError msg []), [], w)
            | None \<Rightarrow>
                if \<not> reason_Valid (ma_Reason req) then
                  (respond 400 (JsonError ''reason %q is not a known value'' [AStr (ma_Reason req)]), [], w)
                else
                  (case h_abandoner h RequestCtx (ma_MatchID req) (ma_PlayerIDs req) (ma_Reason req) w of
                     (Some err, ls, w) \<Rightarrow> (let (r, ls') = respondUnavailable rq err in (r, ls @ ls', w))
                   | (None, ls, w) \<Rightarrow> (respond 204 NoBody, ls, w))))"

definition handle_RespondQueueSize :: "'w Handler \<Rightarrow> request \<Rightarrow> 'w \<Rightarrow> response \<times> log list \<times> 'w" where
  "handle_RespondQueueSize h rq w =
    (case Size (h_queue h) RequestCtx w of
       (Inl err, w) \<Rightarrow> (let (r, ls) = respondUnavailable rq err in (r, ls, w))
     | (Inr n, w) \<Rightarrow> (respond 200 (JsonSize n), [], w))"

definition handle_RespondHealth :: "'w Handler \<Rightarrow> 'w \<Rightarrow> response" where
  "handle_RespondHealth h w =
    (if h_circuit h w then respond 503 (JsonHealth healthStatusDegraded healthCircuitOpen)
     else respond 200 (JsonHealth healthStatusOK healthCircuitClosed))"

section \<open>The router\<close>

text \<open>
  \<open>NewRouter\<close>: \<open>verify\<close> is the middleware \<open>VerifyInternalAuth(authVerifier)\<close>, which stops with a
  response of its own or stores the verified identifier under \<open>PlayerIDContextKey\<close>. \<open>None\<close> is a
  request that no route takes.
\<close>

definition NewRouter ::
  "gin \<Rightarrow> (request \<Rightarrow> response + string) \<Rightarrow> 'w Handler \<Rightarrow> request \<Rightarrow> 'w \<Rightarrow> (response \<times> log list \<times> 'w) option" where
  "NewRouter G verify h rq w =
    (if rq_method rq = ''GET'' \<and> rq_path rq = ''/internal/v1/queue-size'' then
       Some (handle_RespondQueueSize h rq w)
     else if rq_method rq = ''GET'' \<and> rq_path rq = ''/internal/v1/health'' then
       Some (handle_RespondHealth h w, [], w)
     else if rq_method rq = ''POST'' \<and> rq_path rq = ''/internal/v1/match-abandoned'' then
       Some (handle_ReportMatchAbandoned G h rq w)
     else if rq_method rq = ''POST'' \<and> rq_path rq = ''/internal/v1/enqueue'' then
       (case verify rq of
          Inl refused \<Rightarrow> Some (refused, [], w)
        | Inr playerID \<Rightarrow> Some (handle_Enqueue G h playerID rq w))
     else if rq_method rq = ''POST'' \<and> rq_path rq = ''/internal/v1/cancel'' then
       (case verify rq of
          Inl refused \<Rightarrow> Some (refused, [], w)
        | Inr playerID \<Rightarrow> Some (handle_Cancel h playerID rq w))
     else None)"

section \<open>Properties\<close>

lemma check_player_ids_None:
  "check_player_ids seen ids = None \<longleftrightarrow> [] \<notin> set ids \<and> distinct ids \<and> set ids \<inter> set seen = {}"
  by (induction ids arbitrary: seen) auto

text \<open>The handlers over a Redis queue, with the use case that discards matches.\<close>

definition redis_handler :: "'s redis \<Rightarrow> ('s \<Rightarrow> bool) \<Rightarrow> 's Handler" where
  "redis_handler R circ =
     handler_New (NewRedisQueue R) circ (Abandon (abandon_New (NewRedisQueue R)))"

definition post :: "string \<Rightarrow> string \<Rightarrow> request" where
  "post path b = \<lparr>rq_method = ''POST'', rq_path = path, rq_body = b\<rparr>"

lemma post_simps [simp]: "rq_body (post path b) = b" "rq_path (post path b) = path"
  by (simp_all add: post_def)

lemma router_post [simp]:
  "NewRouter G verify h (post ''/internal/v1/enqueue'' b) w =
     Some (case verify (post ''/internal/v1/enqueue'' b) of
             Inl refused \<Rightarrow> (refused, [], w)
           | Inr p \<Rightarrow> handle_Enqueue G h p (post ''/internal/v1/enqueue'' b) w)"
  "NewRouter G verify h (post ''/internal/v1/cancel'' b) w =
     Some (case verify (post ''/internal/v1/cancel'' b) of
             Inl refused \<Rightarrow> (refused, [], w)
           | Inr p \<Rightarrow> handle_Cancel h p (post ''/internal/v1/cancel'' b) w)"
  "NewRouter G verify h (post ''/internal/v1/match-abandoned'' b) w =
     Some (handle_ReportMatchAbandoned G h (post ''/internal/v1/match-abandoned'' b) w)"
  by (simp_all add: NewRouter_def post_def split: sum.split)

lemma redis_handler_simps [simp]:
  "h_queue (redis_handler R circ) = NewRedisQueue R" "h_circuit (redis_handler R circ) = circ"
  "h_abandoner (redis_handler R circ) = Abandon (abandon_New (NewRedisQueue R))"
  "Enqueue (NewRedisQueue R) = redis_Enqueue R" "Cancel (NewRedisQueue R) = redis_Cancel R"
  "Size (NewRedisQueue R) = redis_Size R"
  by (simp_all add: redis_handler_def handler_New_def NewRedisQueue_def)

text \<open>The answers of the enqueue handler.\<close>

lemma enqueue_answers:
  assumes "redis_server R alpha" and "queue_inv (alpha s)"
    and run: "handle_Enqueue G (redis_handler R circ) p rq s = (resp, ls, s')" and b: "rq_body rq = b"
  shows "if rs_status resp = 202 then
           \<exists>req t. gin_bind_enqueue G b = Inr req \<and> 1 \<le> sint (er_DeckID req)
             \<and> \<not> is_blank (er_Name req) \<and> \<not> is_blank (er_GatewayInstanceID req)
             \<and> stored_instance (alpha s') = Some (er_GatewayInstanceID req)
             \<and> {e \<in> set (queue_entries (alpha s')). PlayerID e = p} =
                 {\<lparr>PlayerID = p, DeckID = er_DeckID req, Name = er_Name req, Level = er_Level req, JoinedAt = t\<rparr>}
         else if rs_status resp = 400 then s' = s
         else rs_status resp = 503 \<and> rs_body resp = JsonError unavailableMessage []"
proof -
  show ?thesis
  proof (cases "gin_bind_enqueue G b")
    case (Inl err)
    then show ?thesis using run b by (auto simp: handle_Enqueue_def)
  next
    case (Inr req)
    show ?thesis
    proof (cases "er_DeckID req <s minDeckID \<or> is_blank (er_Name req) \<or> is_blank (er_GatewayInstanceID req)")
      case True
      then have "\<exists>msg. handle_Enqueue G (redis_handler R circ) p rq s = (respond 400 (JsonError msg []), [], s)"
        using b Inr by (auto simp: handle_Enqueue_def)
      then show ?thesis using run by auto
    next
      case valid: False
      then have deck: "1 \<le> sint (er_DeckID req)" by (simp add: minDeckID_def word_sless_alt)
      obtain r s1 where r: "redis_Enqueue R RequestCtx p (er_DeckID req) (er_Name req) (er_Level req)
          (er_GatewayInstanceID req) s = (r, s1)" by fastforce
      show ?thesis
      proof (cases r)
        case (Inl err)
        then show ?thesis using run b \<open>gin_bind_enqueue G b = Inr req\<close> valid r
          by (auto simp: handle_Enqueue_def respondUnavailable_def)
      next
        case (Inr k)
        then have resp: "resp = respond 202 NoBody" "s' = s1"
          using run b \<open>gin_bind_enqueue G b = Inr req\<close> valid r by (simp_all add: handle_Enqueue_def)
        from enqueue_effect [OF assms(1,2) r [unfolded Inr]] resp
        have "stored_instance (alpha s') = Some (er_GatewayInstanceID req)"
          "{e \<in> set (queue_entries (alpha s')). PlayerID e = p} =
             {\<lparr>PlayerID = p, DeckID = er_DeckID req, Name = er_Name req, Level = er_Level req,
               JoinedAt = unix_milli_time (unix_milli (rd_now R s))\<rparr>}"
          by auto
        then show ?thesis using resp valid deck \<open>gin_bind_enqueue G b = Inr req\<close> by auto
      qed
    qed
  qed
qed

text \<open>
  C18. \<open>POST /internal/v1/enqueue\<close> by a verified player: 202 means that the body decoded, the deck
  number is positive, name and gateway instance are not blank, and the player now waits exactly once
  with these data; 400 means that the queue was not touched; the only other answer is 503.
\<close>

theorem http_enqueue_effect:
  assumes "redis_server R alpha" and "queue_inv (alpha s)"
    and "verify (post ''/internal/v1/enqueue'' b) = Inr p"
    and "NewRouter G verify (redis_handler R circ) (post ''/internal/v1/enqueue'' b) s = Some (resp, ls, s')"
  shows "if rs_status resp = 202 then
           \<exists>req t. gin_bind_enqueue G b = Inr req \<and> 1 \<le> sint (er_DeckID req)
             \<and> \<not> is_blank (er_Name req) \<and> \<not> is_blank (er_GatewayInstanceID req)
             \<and> stored_instance (alpha s') = Some (er_GatewayInstanceID req)
             \<and> {e \<in> set (queue_entries (alpha s')). PlayerID e = p} =
                 {\<lparr>PlayerID = p, DeckID = er_DeckID req, Name = er_Name req, Level = er_Level req, JoinedAt = t\<rparr>}
         else if rs_status resp = 400 then s' = s
         else rs_status resp = 503 \<and> rs_body resp = JsonError unavailableMessage []"
  using assms(3,4) by (intro enqueue_answers [OF assms(1,2), of G circ p "post ''/internal/v1/enqueue'' b"]) simp_all

text \<open>A binding that always decodes the same requests; it serves as an example below.\<close>

definition example_gin :: gin where
  "example_gin = \<lparr>
     gin_bind_enqueue = (\<lambda>b. Inr \<lparr>er_DeckID = 1, er_GatewayInstanceID = ''g1'', er_Level = 2, er_Name = ''Ann''\<rparr>),
     gin_bind_abandoned = (\<lambda>b. Inr \<lparr>ma_MatchID = ''m1'', ma_PlayerIDs = [''a'', ''b''],
       ma_Reason = ''player_not_connected''\<rparr>)\<rparr>"

lemma not_blank_ascii: "is_blank ''Ann'' = False" "is_blank ''g1'' = False"
  by (simp_all add: is_space_def)

lemma example_enqueue:
  "NewRouter example_gin (\<lambda>rq. Inr ''a'') (redis_handler ref_redis (\<lambda>w. False))
     (post ''/internal/v1/enqueue'' b) example_world
     = Some (respond 202 NoBody, [], after_enqueue ''a'' ''g1'' example_world)"
proof -
  have v: "validateMemberPlayerID ''a'' = None" by (simp add: validate_None_iff)
  have net: "rw_net example_world = []" by (simp add: example_world_def)
  obtain k where k: "redis_Enqueue ref_redis RequestCtx ''a'' 1 ''Ann'' 2 ''g1'' example_world
      = (Inr k, after_enqueue ''a'' ''g1'' example_world)"
    using ref_enqueue_runs(1) [OF net v, of "''g1''"] by auto
  then have "k = 0" using enqueue_effect [OF ref.redis_server_axioms example_inv k] by (simp add: example_entries)
  with k show ?thesis
    by (simp add: handle_Enqueue_def example_gin_def not_blank_ascii minDeckID_def del: is_blank_ascii)
qed

lemma http_enqueue_effect_witness:
  "\<exists>t. {e \<in> set (queue_entries (ref_view (after_enqueue ''a'' ''g1'' example_world))). PlayerID e = ''a''} =
     {\<lparr>PlayerID = ''a'', DeckID = 1, Name = ''Ann'', Level = 2, JoinedAt = t\<rparr>}"
  using http_enqueue_effect [OF ref.redis_server_axioms example_inv refl example_enqueue]
  by (simp add: example_gin_def)

text \<open>
  C37. \<open>POST /internal/v1/cancel\<close> by a verified player: 200 means that the player was waiting and is
  not any more, 404 that the player was not waiting, and 503 is the only other answer; everyone else
  keeps their place in each case.
\<close>

theorem http_cancel_effect:
  assumes "redis_server R alpha" and "queue_inv (alpha s)"
    and "verify (post ''/internal/v1/cancel'' b) = Inr p"
    and "NewRouter G verify (redis_handler R circ) (post ''/internal/v1/cancel'' b) s = Some (resp, ls, s')"
  shows "filter (\<lambda>e. PlayerID e \<noteq> p) (queue_entries (alpha s')) = filter (\<lambda>e. PlayerID e \<noteq> p) (queue_entries (alpha s))
       \<and> (if rs_status resp = 200 then
            p \<in> PlayerID ` set (queue_entries (alpha s)) \<and> p \<notin> PlayerID ` set (queue_entries (alpha s'))
          else if rs_status resp = 404 then
            p \<notin> PlayerID ` set (queue_entries (alpha s)) \<and> queue_entries (alpha s') = queue_entries (alpha s)
          else rs_status resp = 503 \<and> rs_body resp = JsonError unavailableMessage [])"
proof -
  obtain r s1 where r: "redis_Cancel R RequestCtx p s = (r, s1)" by fastforce
  have run: "handle_Cancel (redis_handler R circ) p (post ''/internal/v1/cancel'' b) s = (resp, ls, s')"
    using assms(3,4) by simp
  show ?thesis
  proof (cases r)
    case (Inl err)
    have "queue_entries (alpha s') = queue_entries (alpha s)
        \<or> queue_entries (alpha s') = filter (\<lambda>e. PlayerID e \<noteq> p) (queue_entries (alpha s))"
      using redis_server.Cancel_cases [OF assms(1,2) r] cancelled_entries [OF assms(2), of p] run Inl r
      by (auto simp: handle_Cancel_def respondUnavailable_def)
    then show ?thesis using run Inl r by (auto simp: handle_Cancel_def respondUnavailable_def)
  next
    case (Inr k)
    from cancel_effect [OF assms(1,2) r [unfolded Inr]]
    have k: "k = (p \<in> PlayerID ` set (queue_entries (alpha s)))"
      "queue_entries (alpha s1) = filter (\<lambda>e. PlayerID e \<noteq> p) (queue_entries (alpha s))"
      by simp_all
    have resp: "resp = respond (if \<not> k then 404 else 200) NoBody" "s' = s1"
      using run Inr r by (simp_all add: handle_Cancel_def)
    show ?thesis
    proof (cases k)
      case True
      then show ?thesis using resp k by auto
    next
      case False
      then have "filter (\<lambda>e. PlayerID e \<noteq> p) (queue_entries (alpha s)) = queue_entries (alpha s)"
        using k(1) by (intro filter_True) auto
      then show ?thesis using resp k False by auto
    qed
  qed
qed

lemma example_cancel:
  "\<exists>resp w'. NewRouter example_gin (\<lambda>rq. Inr ''a'') (redis_handler ref_redis (\<lambda>w. False))
     (post ''/internal/v1/cancel'' b) two_waiting = Some (resp, [], w') \<and> rs_status resp = 200"
proof -
  obtain k w' where k: "redis_Cancel ref_redis RequestCtx ''a'' two_waiting = (Inr k, w')"
    using ref_cancel_runs [OF two_waiting(1), of "''a''" RequestCtx] by auto
  have "k" using cancel_effect [OF ref.redis_server_axioms two_waiting(2) k] two_waiting(4) by simp
  with k show ?thesis by (simp add: handle_Cancel_def)
qed

lemma http_cancel_effect_witness:
  "\<exists>resp w'. NewRouter example_gin (\<lambda>rq. Inr ''a'') (redis_handler ref_redis (\<lambda>w. False))
     (post ''/internal/v1/cancel'' []) two_waiting = Some (resp, [], w')
     \<and> ''a'' \<notin> PlayerID ` set (queue_entries (ref_view w'))"
proof -
  obtain resp w' where r: "NewRouter example_gin (\<lambda>rq. Inr ''a'') (redis_handler ref_redis (\<lambda>w. False))
     (post ''/internal/v1/cancel'' []) two_waiting = Some (resp, [], w')" "rs_status resp = 200"
    using example_cancel by blast
  from http_cancel_effect [OF ref.redis_server_axioms two_waiting(2) refl r(1)] r show ?thesis
    by auto
qed

text \<open>
  C31. \<open>POST /internal/v1/match-abandoned\<close>: 204 means that the report named exactly two different
  players with non-empty identifiers and a known reason, that neither waits any more, and that
  everyone else keeps their place; 400 means that the queue was not touched.
\<close>

theorem http_abandoned_effect:
  assumes "redis_server R alpha" and "queue_inv (alpha s)"
    and "NewRouter G verify (redis_handler R circ) (post ''/internal/v1/match-abandoned'' b) s = Some (resp, ls, s')"
  shows "if rs_status resp = 204 then
           \<exists>req p q. gin_bind_abandoned G b = Inr req \<and> ma_PlayerIDs req = [p, q] \<and> p \<noteq> q \<and> p \<noteq> [] \<and> q \<noteq> []
             \<and> reason_Valid (ma_Reason req)
             \<and> queue_entries (alpha s') = filter (\<lambda>e. PlayerID e \<noteq> p \<and> PlayerID e \<noteq> q) (queue_entries (alpha s))
         else if rs_status resp = 400 then s' = s
         else rs_status resp = 503 \<and> rs_body resp = JsonError unavailableMessage []"
proof -
  let ?rq = "post ''/internal/v1/match-abandoned'' b" and ?h = "redis_handler R circ"
  have run: "handle_ReportMatchAbandoned G ?h ?rq s = (resp, ls, s')" using assms(3) by simp
  have b: "rq_body ?rq = b" by (simp add: post_def)
  show ?thesis
  proof (cases "gin_bind_abandoned G b")
    case (Inl err)
    then show ?thesis using run b by (auto simp: handle_ReportMatchAbandoned_def)
  next
    case (Inr req)
    note req = Inr
    let ?ids = "ma_PlayerIDs req"
    show ?thesis
    proof (cases "ma_MatchID req = [] \<or> length ?ids \<noteq> MatchPlayerCount \<or> check_player_ids [] ?ids \<noteq> None
        \<or> \<not> reason_Valid (ma_Reason req)")
      case True
      then have "\<exists>msg as. handle_ReportMatchAbandoned G ?h ?rq s = (respond 400 (JsonError msg as), [], s)"
        using b req by (auto simp: handle_ReportMatchAbandoned_def split: option.split)
      then show ?thesis using run by auto
    next
      case False
      then obtain p q where ids: "?ids = [p, q]" "p \<noteq> q" "p \<noteq> []" "q \<noteq> []"
        by (auto simp: check_player_ids_None MatchPlayerCount_def length_Suc_conv numeral_2_eq_2)
      obtain r ls1 s1 where a: "Abandon (abandon_New (NewRedisQueue R)) RequestCtx (ma_MatchID req) ?ids (ma_Reason req) s
          = (r, ls1, s1)" by (metis prod_cases3)
      have h: "handle_ReportMatchAbandoned G ?h ?rq s =
          (case r of Some err \<Rightarrow> (let (r, ls') = respondUnavailable ?rq err in (r, ls1 @ ls', s1))
           | None \<Rightarrow> (respond 204 NoBody, ls1, s1))"
        using False b req a by (simp add: handle_ReportMatchAbandoned_def split: option.split)
      show ?thesis
      proof (cases r)
        case None
        from abandon_effect [OF assms(1,2) a] None ids(1)
        have "queue_entries (alpha s1) = filter (\<lambda>e. PlayerID e \<notin> {p, q}) (queue_entries (alpha s))"
          by auto
        moreover have "resp = respond 204 NoBody" "s' = s1" using run h None by simp_all
        ultimately show ?thesis using req ids False by simp
      next
        case (Some err)
        then show ?thesis using run h by (auto simp: respondUnavailable_def)
      qed
    qed
  qed
qed

lemma http_abandoned_effect_witness:
  "\<exists>resp ls w'. NewRouter example_gin (\<lambda>rq. Inl (respond 401 NoBody)) (redis_handler ref_redis (\<lambda>w. False))
     (post ''/internal/v1/match-abandoned'' []) two_waiting = Some (resp, ls, w')
     \<and> rs_status resp \<in> {204, 400, 503}"
proof -
  obtain resp ls w' where r: "NewRouter example_gin (\<lambda>rq. Inl (respond 401 NoBody)) (redis_handler ref_redis (\<lambda>w. False))
     (post ''/internal/v1/match-abandoned'' []) two_waiting = Some (resp, ls, w')"
    by (metis router_post(3) prod_cases3)
  from http_abandoned_effect [OF ref.redis_server_axioms two_waiting(2) r] r show ?thesis
    by (intro exI [of _ resp] exI [of _ ls] exI [of _ w']) (auto split: if_splits)
qed

text \<open>
  Without a verified token nobody enters or leaves the queue through the player's routes: a
  request on a route other than the report of an abandoned match changes nothing unless the
  verifier accepted it, except for the queue size, which only reads the server.
\<close>

lemma http_requires_auth:
  assumes "NewRouter G verify h rq w = Some (resp, ls, w')" and "verify rq = Inl refused"
    and "rq_path rq \<noteq> ''/internal/v1/match-abandoned''" and "rq_path rq \<noteq> ''/internal/v1/queue-size''"
  shows "w' = w \<and> (rq_path rq \<noteq> ''/internal/v1/health'' \<longrightarrow> resp = refused)"
  using assms by (auto simp: NewRouter_def split: if_splits)

lemma http_requires_auth_witness:
  "NewRouter example_gin (\<lambda>rq. Inl (respond 401 NoBody)) (redis_handler ref_redis (\<lambda>w. False))
     (post ''/internal/v1/enqueue'' []) example_world = Some (respond 401 NoBody, [], example_world)"
proof -
  have r: "NewRouter example_gin (\<lambda>rq. Inl (respond 401 NoBody)) (redis_handler ref_redis (\<lambda>w. False))
     (post ''/internal/v1/enqueue'' []) example_world = Some (respond 401 NoBody, [], example_world)"
    by simp
  from http_requires_auth [OF r refl] r show ?thesis by simp
qed

text \<open>
  C40. A player identifier that the queue cannot store (empty, or with a colon) is answered with
  503, the status for a failing Redis, although Redis was not asked; nothing is stored.
\<close>

theorem http_enqueue_bad_player_503:
  assumes "validateMemberPlayerID p \<noteq> None" and "gin_bind_enqueue G b = Inr req"
    and "1 \<le> sint (er_DeckID req)" and "\<not> is_blank (er_Name req)" and "\<not> is_blank (er_GatewayInstanceID req)"
    and "verify (post ''/internal/v1/enqueue'' b) = Inr p"
  shows "\<exists>ls. NewRouter G verify (redis_handler R circ) (post ''/internal/v1/enqueue'' b) s =
           Some (respond 503 (JsonError unavailableMessage []), ls, s)"
proof -
  obtain err where err: "redis_Enqueue R RequestCtx p (er_DeckID req) (er_Name req) (er_Level req)
      (er_GatewayInstanceID req) s = (Inl err, s)"
    using assms(1) by (auto simp: redis_Enqueue_def)
  have "\<not> er_DeckID req <s minDeckID" using assms(3) by (simp add: minDeckID_def word_sless_alt)
  then show ?thesis using assms(2,4-6) err
    by (simp add: handle_Enqueue_def respondUnavailable_def)
qed

lemma http_enqueue_bad_player_503_witness:
  "\<exists>ls. NewRouter example_gin (\<lambda>rq. Inr ''a:b'') (redis_handler ref_redis (\<lambda>w. False))
     (post ''/internal/v1/enqueue'' []) example_world =
       Some (respond 503 (JsonError unavailableMessage []), ls, example_world)"
  by (rule http_enqueue_bad_player_503 [where p = "''a:b''" and req = "\<lparr>er_DeckID = 1,
        er_GatewayInstanceID = ''g1'', er_Level = 2, er_Name = ''Ann''\<rparr>"])
    (simp_all add: validateMemberPlayerID_def memberSeparator_def example_gin_def not_blank_ascii del: is_blank_ascii)

text \<open>
  The liveness endpoint answers 200 exactly when the breaker of the running matcher is closed,
  and says so in its body.
\<close>

lemma http_health_tracks_breaker:
  "NewRouter G verify (handler_New q (\<lambda>w. IsCircuitOpen (mt w)) a)
     \<lparr>rq_method = ''GET'', rq_path = ''/internal/v1/health'', rq_body = b\<rparr> w =
   Some (if isOpen (circuit (mt w)) then respond 503 (JsonHealth ''degraded'' ''open'')
         else respond 200 (JsonHealth ''ok'' ''closed''), [], w)"
  by (simp add: NewRouter_def handle_RespondHealth_def handler_New_def IsCircuitOpen_def isCircuitOpen_def
      healthStatusOK_def healthStatusDegraded_def healthCircuitClosed_def healthCircuitOpen_def)

end
