(* ===== verification/Ledger.thy ===== *)
theory Ledger
  imports QueueProps
begin

text \<open>
  A ledger of the queue: how often each player has been put in (by \<open>Enqueue\<close>, or written back by
  \<open>Reenqueue\<close>) and how often a pop has handed each player out. Any client may call any operation at
  any time, and every call may fail before or after its effect. The lemma is proved once from the
  contract of \<open>port.Queue\<close>; the property is its instance for the Redis queue.
\<close>

text \<open>\<open>same\<close> relates worlds between which the queue's data does not change.\<close>

inductive ledger ::
  "'w Queue \<Rightarrow> ('w \<Rightarrow> 'w \<Rightarrow> bool) \<Rightarrow> 'w \<Rightarrow> string list \<Rightarrow> string list \<Rightarrow> 'w \<Rightarrow> bool"
  for Q :: "'w Queue" and same :: "'w \<Rightarrow> 'w \<Rightarrow> bool" and w0 :: 'w where
  start: "ledger Q same w0 [] [] w0"
| enqueue: "ledger Q same w0 ins outs w \<Longrightarrow> ledger Q same w0 (p # ins) outs (snd (Enqueue Q c p d n l g w))"
| cancel: "ledger Q same w0 ins outs w \<Longrightarrow> ledger Q same w0 ins outs (snd (Cancel Q c p w))"
| size: "ledger Q same w0 ins outs w \<Longrightarrow> ledger Q same w0 ins outs (snd (Size Q c w))"
| pop: "ledger Q same w0 ins outs w \<Longrightarrow> PopPair Q c w = (Inr (es, g), w') \<Longrightarrow>
     ledger Q same w0 ins (map PlayerID es @ outs) w'"
| pop_failed: "ledger Q same w0 ins outs w \<Longrightarrow> PopPair Q c w = (Inl err, w') \<Longrightarrow>
     ledger Q same w0 ins outs w'"
| reenqueue: "ledger Q same w0 ins outs w \<Longrightarrow> list_all writable es \<Longrightarrow>
     ledger Q same w0 (map PlayerID es @ ins) outs (snd (Reenqueue Q c es g w))"
| elapse: "ledger Q same w0 ins outs w \<Longrightarrow> same w w' \<Longrightarrow> ledger Q same w0 ins outs w'"

text \<open>How many entries of a player are in a list: its length as a multiplicity.\<close>

lemma count_take_drop: "count_list (take n xs) x + count_list (drop n xs) x = count_list xs x"
  by (metis append_take_drop_id count_list_append)

lemma count_filter_le: "count_list (map f (filter P xs)) x \<le> count_list (map f xs) x"
  by (induction xs) auto

lemma distinct_count_le: "distinct xs \<Longrightarrow> count_list xs x \<le> (if x \<in> set xs then 1 else 0)"
  by (induction xs) auto

lemma count_pos: "x \<in> set xs \<Longrightarrow> 1 \<le> count_list xs x"
  by (metis One_nat_def Suc_leI count_list_0_iff neq0_conv)

definition waits_in :: "QueueEntry list \<Rightarrow> string \<Rightarrow> nat" where
  "waits_in E p = count_list (map PlayerID E) p"

context queue_contract
begin

lemma waits_for_eq: "inv w \<Longrightarrow> waits_in (entries w) p = (if p \<in> PlayerID ` set (entries w) then 1 else 0)"
  using distinct_count_le [OF unique, of w p] count_pos [of p "map PlayerID (entries w)"]
  by (auto simp: waits_in_def count_list_0_iff)

lemma waits_for_bound:
  assumes "inv w" and "inv w'" and "PlayerID ` set (entries w') \<subseteq> set ps \<union> PlayerID ` set (entries w)"
  shows "waits_in (entries w') p \<le> count_list ps p + waits_in (entries w) p"
proof (cases "p \<in> PlayerID ` set (entries w')")
  case True
  then have "p \<in> set ps \<or> p \<in> PlayerID ` set (entries w)" using assms(3) by blast
  then show ?thesis
    using waits_for_eq [OF assms(1), of p] waits_for_eq [OF assms(2), of p] count_pos [of p ps] True by auto
next
  case False
  then show ?thesis using waits_for_eq [OF assms(2), of p] by simp
qed

lemma enqueue_players:
  assumes "inv w"
  shows "PlayerID ` set (entries (snd (Enqueue Q c p d n l g w))) \<subseteq> set [p] \<union> PlayerID ` set (entries w)"
proof -
  obtain r w' where r: "Enqueue Q c p d n l g w = (r, w')" by fastforce
  show ?thesis
    using enqueue_ok [OF assms, of c p d n l g] enqueue_err [OF assms, of c p d n l g] r
    by (cases r) (fastforce split: if_splits)+
qed

lemma reenqueue_players:
  assumes "inv w" and "list_all writable es"
  shows "PlayerID ` set (entries (snd (Reenqueue Q c es g w)))
      \<subseteq> set (map PlayerID es) \<union> PlayerID ` set (entries w)"
proof -
  obtain r w' where r: "Reenqueue Q c es g w = (r, w')" by fastforce
  have "set (entries w') = requeue es (set (entries w)) \<or> set (entries w') = set (entries w)"
    using reenqueue_ok [OF assms, of c g] reenqueue_err [OF assms, of c g] r
    by (cases r) (fastforce split: if_splits)+
  then show ?thesis using requeue_players [of es "set (entries w)"] r by auto
qed

lemma ledger_balance:
  assumes same: "\<And>w w'. same w w' \<Longrightarrow> inv w \<Longrightarrow> inv w' \<and> entries w' = entries w"
    and w0: "inv w0" "entries w0 = []"
  shows "ledger Q same w0 ins outs w \<Longrightarrow> inv w \<and> count_list outs p + waits_in (entries w) p \<le> count_list ins p"
proof (induction rule: ledger.induct)
  case start
  then show ?case using w0 by (simp add: waits_in_def)
next
  case (enqueue ins outs w q c d n l g)
  then have inv: "inv w" "inv (snd (Enqueue Q c q d n l g w))" using enqueue_inv by blast+
  show ?case
    using waits_for_bound [OF inv enqueue_players [OF inv(1)], of p] enqueue.IH inv(2)
    by (cases "q = p") simp_all
next
  case (cancel ins outs w c q)
  then have inv: "inv w" "inv (snd (Cancel Q c q w))" using cancel_inv by blast+
  obtain r w' where r: "Cancel Q c q w = (r, w')" by fastforce
  have "PlayerID ` set (entries w') \<subseteq> set [] \<union> PlayerID ` set (entries w)"
    using cancel_ok [OF inv(1), of c q] cancel_err [OF inv(1), of c q] r by (cases r) fastforce+
  with waits_for_bound [OF inv, of "[]" p] r cancel.IH inv(2) show ?case by simp
next
  case (size ins outs w c)
  then show ?case using size_inv [of w c] by (simp add: waits_in_def)
next
  case (pop ins outs w c es g w')
  then have inv: "inv w" "inv w'" using pop_inv [of w c] by auto
  have "map PlayerID es @ map PlayerID (entries w') = map PlayerID (entries w)"
    using pop_ok [OF inv(1) pop.hyps(2)] by (auto simp flip: map_append split: if_splits)
  then have "count_list (map PlayerID es) p + waits_in (entries w') p = waits_in (entries w) p"
    unfolding waits_in_def by (metis count_list_append)
  with pop.IH inv(2) show ?case by simp
next
  case (pop_failed ins outs w c err w')
  then have inv: "inv w" "inv w'" using pop_inv [of w c] by auto
  have "PlayerID ` set (entries w') \<subseteq> set [] \<union> PlayerID ` set (entries w)"
    using pop_err [OF inv(1) pop_failed.hyps(2)] set_drop_subset [of 2 "entries w"] by auto
  with waits_for_bound [OF inv, of "[]" p] pop_failed.IH inv(2) show ?case by simp
next
  case (reenqueue ins outs w es c g)
  then have inv: "inv w" "inv (snd (Reenqueue Q c es g w))" using reenqueue_inv by blast+
  show ?case
    using waits_for_bound [OF inv reenqueue_players [OF inv(1) reenqueue.hyps(2)], of p] reenqueue.IH inv(2)
    by simp
next
  case (elapse ins outs w w')
  then show ?case using same [OF elapse.hyps(2)] by (simp add: waits_in_def)
qed

end

section \<open>Properties\<close>

text \<open>
  C10. Nobody is matched twice for one enqueue: from an empty queue on, whatever clients call in
  whatever order, with calls that fail or lose their reply, the pops have handed out a player at most
  as often as the player was enqueued or written back, and once less while the player still waits.
\<close>

theorem nobody_popped_twice:
  assumes "redis_server R alpha" and "keys_ok (alpha s0)" and "zset (alpha s0) queueKey = []"
    and "ledger (NewRedisQueue R) (\<lambda>s s'. alpha s' = alpha s) s0 ins outs s"
  shows "count_list outs p + (if p \<in> PlayerID ` set (queue_entries (alpha s)) then 1 else 0) \<le> count_list ins p"
proof -
  note C = redis_server.contract [OF assms(1)]
  have s0: "queue_inv (alpha s0)" "queue_entries (alpha s0) = []"
    using assms(2,3) by (simp_all add: queue_inv_def mq_wf_def queue_entries_def)
  have b: "queue_inv (alpha s) \<and> count_list outs p
      + waits_in (queue_entries (alpha s)) p \<le> count_list ins p"
    by (rule queue_contract.ledger_balance [OF C _ s0 assms(4)]) simp
  show ?thesis
    using b queue_contract.waits_for_eq [OF C, of s p] by simp
qed

lemma nobody_popped_twice_witness:
  "\<exists>es g w'. redis_PopPair ref_redis SignalCtx two_waiting = (Inr (es, g), w')
     \<and> length es = 2 \<and> count_list (map PlayerID es) ''a'' \<le> 1"
proof -
  let ?L = "ledger (NewRedisQueue ref_redis) (\<lambda>s s'. ref_view s' = ref_view s) example_world"
  have "?L [] [] example_world" by (rule ledger.start)
  then have "?L [''b'', ''a''] [] (snd (Enqueue (NewRedisQueue ref_redis) RequestCtx ''b'' 1 ''Ann'' 2 ''g1''
      (snd (Enqueue (NewRedisQueue ref_redis) RequestCtx ''a'' 1 ''Ann'' 2 ''g1'' example_world))))"
    by (intro ledger.enqueue)
  then have two: "?L [''b'', ''a''] [] two_waiting"
    by (simp add: two_waiting_def after_enqueue_def NewRedisQueue_def)
  obtain es g w' where r: "redis_PopPair ref_redis SignalCtx two_waiting = (Inr (es, g), w')"
    using ref_pop_runs [OF two_waiting(1,2)] by blast
  then have len: "length es = 2"
    using ref.PopPair_cases [OF two_waiting(2) r] two_waiting(5) by simp
  have "?L [''b'', ''a''] (map PlayerID es @ []) w'"
    using r by (intro ledger.pop [OF two]) (simp add: NewRedisQueue_def)
  from nobody_popped_twice [OF ref.redis_server_axioms _ _ this, of "''a''"]
  have "count_list (map PlayerID es) ''a'' \<le> 1"
    using queue_invD(1) [OF example_inv] by (simp add: example_world_def ref_zset_def keys_ok_def)
  with r len show ?thesis by blast
qed

end
