(* ===== verification/Activity.thy ===== *)
theory Activity
  imports Handler Ledger
begin

text \<open>
  What the HTTP interface does to the queue, as a whole: the events of its requests, any sequence of
  requests as a relation on the service's world beside the events so far, and what the events say
  about the waiting players.
\<close>

section \<open>Events\<close>

text \<open>A verified player joined under a gateway instance (was the answer 202?), or was taken out.\<close>

datatype event = Joined string string bool | TakenOut string

text \<open>The events of a request that was answered with \<open>resp\<close>, newest first.\<close>

definition request_events ::
  "gin \<Rightarrow> (request \<Rightarrow> response + string) \<Rightarrow> request \<Rightarrow> response \<Rightarrow> event list" where
  "request_events G verify rq resp =
    (if rq_method rq \<noteq> ''POST'' then []
     else if rq_path rq = ''/internal/v1/enqueue'' then
       (case (verify rq, gin_bind_enqueue G (rq_body rq)) of
          (Inr p, Inr req) \<Rightarrow> [Joined p (er_GatewayInstanceID req) (rs_status resp = 202)]
        | _ \<Rightarrow> [])
     else if rq_path rq = ''/internal/v1/cancel'' then
       (case verify rq of Inr p \<Rightarrow> [TakenOut p] | Inl refused \<Rightarrow> [])
     else if rq_path rq = ''/internal/v1/match-abandoned'' then
       (case gin_bind_abandoned G (rq_body rq) of Inr req \<Rightarrow> map TakenOut (ma_PlayerIDs req) | Inl err \<Rightarrow> [])
     else [])"

text \<open>How often a player joined.\<close>

fun joins :: "event list \<Rightarrow> string \<Rightarrow> nat" where
  "joins [] p = 0"
| "joins (Joined q g ok # evs) p = (if q = p then Suc (joins evs p) else joins evs p)"
| "joins (TakenOut q # evs) p = joins evs p"

text \<open>The player joined with the answer 202 and has not been taken out since.\<close>

fun expected :: "string \<Rightarrow> event list \<Rightarrow> bool" where
  "expected p [] = False"
| "expected p (Joined q g ok # evs) = (q = p \<and> ok \<or> expected p evs)"
| "expected p (TakenOut q # evs) = (q \<noteq> p \<and> expected p evs)"

definition one_instance :: "string \<Rightarrow> event list \<Rightarrow> bool" where
  "one_instance g evs = list_all (\<lambda>e. case e of Joined q g' ok \<Rightarrow> g' = g | TakenOut q \<Rightarrow> True) evs"

lemma joins_append [simp]: "joins (evs @ evs') p = joins evs p + joins evs' p"
  by (induction evs p rule: joins.induct) simp_all

lemma joins_left [simp]: "joins (map TakenOut ps) p = 0"
  by (induction ps) simp_all

lemma expected_append [simp]:
  "expected p (evs @ evs') = (expected p evs \<or> TakenOut p \<notin> set evs \<and> expected p evs')"
  by (induction p evs rule: expected.induct) auto

lemma expected_left [simp]: "\<not> expected p (map TakenOut ps)"
  by (induction ps) simp_all

lemma one_instance_simps [simp]:
  "one_instance g []" "one_instance g (evs @ evs') = (one_instance g evs \<and> one_instance g evs')"
  "one_instance g (Joined q g' ok # evs) = (g' = g \<and> one_instance g evs)"
  "one_instance g (TakenOut q # evs) = one_instance g evs" "one_instance g (map TakenOut ps)"
  by (simp_all add: one_instance_def list.pred_map)
    (simp_all add: list_all_iff)

section \<open>The activity of the HTTP interface\<close>

definition service :: "'w Queue \<Rightarrow> ('w \<Rightarrow> bool) \<Rightarrow> 'w Handler" where
  "service Q circ = handler_New Q circ (Abandon (abandon_New Q))"

text \<open>
  \<open>cancelling\<close> is one cancellation of a match-abandoned request that is still running; \<open>same\<close> relates
  worlds between which the queue's data does not change.
\<close>

inductive activity ::
  "gin \<Rightarrow> (request \<Rightarrow> response + string) \<Rightarrow> ('w \<Rightarrow> bool) \<Rightarrow> 'w Queue \<Rightarrow> ('w \<Rightarrow> 'w \<Rightarrow> bool)
     \<Rightarrow> 'w \<times> event list \<Rightarrow> 'w \<times> event list \<Rightarrow> bool"
  for G verify circ Q same and v :: "'w \<times> event list" where
  idle: "activity G verify circ Q same v v"
| request: "activity G verify circ Q same v (w, evs) \<Longrightarrow>
     NewRouter G verify (service Q circ) rq w = Some (resp, ls, w') \<Longrightarrow>
     activity G verify circ Q same v (w', request_events G verify rq resp @ evs)"
| cancelling: "activity G verify circ Q same v (w, evs) \<Longrightarrow>
     activity G verify circ Q same v (snd (Cancel Q c p w), TakenOut p # evs)"
| elapse: "activity G verify circ Q same v (w, evs) \<Longrightarrow> same w w' \<Longrightarrow>
     activity G verify circ Q same v (w', evs)"

text \<open>
  What new events mean for the waiting entries and the gateway instance: nobody waits who did not wait
  or join; and with one instance, nobody stops waiting who was not taken out, and whoever joined with
  the answer 202 and was not taken out waits.
\<close>

definition accords ::
  "event list \<Rightarrow> string set \<times> string option \<Rightarrow> string set \<times> string option \<Rightarrow> bool" where
  "accords new = (\<lambda>(W, i) (W', i').
     (\<forall>p \<in> W'. p \<in> W \<or> 0 < joins new p)
     \<and> (\<forall>g. one_instance g new \<longrightarrow> i = Some g \<longrightarrow>
           i' = Some g \<and> (\<forall>p \<in> W. TakenOut p \<notin> set new \<longrightarrow> p \<in> W'))
     \<and> (\<forall>g p. one_instance g new \<longrightarrow> expected p new \<longrightarrow> i' = Some g \<and> p \<in> W'))"

lemma accordsI:
  assumes "\<And>p. p \<in> W' \<Longrightarrow> p \<in> W \<or> 0 < joins new p"
    and "\<And>g. one_instance g new \<Longrightarrow> i = Some g \<Longrightarrow> i' = Some g"
    and "\<And>g p. one_instance g new \<Longrightarrow> i = Some g \<Longrightarrow> p \<in> W \<Longrightarrow> TakenOut p \<notin> set new \<Longrightarrow> p \<in> W'"
    and "\<And>g p. one_instance g new \<Longrightarrow> expected p new \<Longrightarrow> i' = Some g \<and> p \<in> W'"
  shows "accords new (W, i) (W', i')"
  unfolding accords_def prod.case
proof (intro conjI allI ballI impI)
qed (rule assms(1) assms(2) assms(3) assms(4) [THEN conjunct1] assms(4) [THEN conjunct2]; assumption)+

lemma accordsD:
  assumes "accords new (W, i) (W', i')"
  shows "p \<in> W' \<Longrightarrow> p \<in> W \<or> 0 < joins new p"
    and "one_instance g new \<Longrightarrow> i = Some g \<Longrightarrow> i' = Some g"
    and "one_instance g new \<Longrightarrow> i = Some g \<Longrightarrow> p \<in> W \<Longrightarrow> TakenOut p \<notin> set new \<Longrightarrow> p \<in> W'"
    and "one_instance g new \<Longrightarrow> expected p new \<Longrightarrow> i' = Some g \<and> p \<in> W'"
  using assms by (simp_all add: accords_def)

lemma accords_refl [simp]: "accords [] (W, i) (W, i)"
  by (simp add: accords_def)

lemma accords_trans:
  assumes a: "accords a (W, i) (W1, i1)" and b: "accords b (W1, i1) (W2, i2)"
  shows "accords (b @ a) (W, i) (W2, i2)"
proof (rule accordsI)
  show "p \<in> W \<or> 0 < joins (b @ a) p" if "p \<in> W2" for p
    using accordsD(1) [OF b that] accordsD(1) [OF a, of p] by auto
  show "i2 = Some g" if "one_instance g (b @ a)" "i = Some g" for g
    using that accordsD(2) [OF a, of g] accordsD(2) [OF b, of g] by simp
  show "p \<in> W2" if "one_instance g (b @ a)" "i = Some g" "p \<in> W" "TakenOut p \<notin> set (b @ a)" for g p
    using that accordsD(2,3) [OF a, of g] accordsD(3) [OF b, of g p] by simp
  show "i2 = Some g \<and> p \<in> W2" if "one_instance g (b @ a)" "expected p (b @ a)" for g p
    using that accordsD(4) [OF a, of g p] accordsD(2) [OF b, of g] accordsD(3,4) [OF b, of g p] by auto
qed

definition waiting_players :: "QueueEntry list \<Rightarrow> string set" where
  "waiting_players E = PlayerID ` set E"

lemma accords_left:
  "P \<subseteq> set ps \<Longrightarrow> accords (map TakenOut ps)
     (waiting_players E, i) (waiting_players (filter (\<lambda>e. PlayerID e \<notin> P) E), i)"
  by (rule accordsI) (auto simp: waiting_players_def)

lemma accords_join:
  assumes "set E' = insert e {e' \<in> (if i = Some g then set E else {}). PlayerID e' \<noteq> p}" and "PlayerID e = p"
  shows "accords [Joined p g ok] (waiting_players E, i) (waiting_players E', Some g)"
proof -
  have "waiting_players E' = insert p (if i = Some g then waiting_players E else {})"
    unfolding waiting_players_def assms(1) using assms(2) by auto
  then show ?thesis by (intro accordsI) (auto split: if_splits)
qed

lemma accords_refused: "accords [Joined p g False] (W, i) (W, i)"
  by (rule accordsI) auto

context queue_contract
begin

abbreviation view :: "'w \<Rightarrow> string set \<times> string option" where
  "view w \<equiv> (waiting_players (entries w), instance_of w)"

lemma cancel_accords:
  assumes "inv w"
  shows "inv (snd (Cancel Q c p w)) \<and> accords [TakenOut p] (view w) (view (snd (Cancel Q c p w)))"
proof -
  obtain r w' where r: "Cancel Q c p w = (r, w')" by fastforce
  have "entries w' = entries w \<or> entries w' = filter (\<lambda>e. PlayerID e \<noteq> p) (entries w)"
    using cancel_ok [OF assms, of c p] cancel_err [OF assms, of c p] r by (cases r) auto
  moreover have "inv w'" "instance_of w' = instance_of w" using cancel_inv [OF assms, of c p] r by simp_all
  ultimately show ?thesis
    using r accords_left [of "{}" "[p]" "entries w" "instance_of w"]
      accords_left [of "{p}" "[p]" "entries w" "instance_of w"] by auto
qed

lemma enqueue_accords:
  assumes w: "inv w" and run: "handle_Enqueue G (service Q circ) p rq w = (resp, ls, w')"
    and new: "new = (case gin_bind_enqueue G (rq_body rq) of
        Inr req \<Rightarrow> [Joined p (er_GatewayInstanceID req) (rs_status resp = 202)] | Inl err \<Rightarrow> [])"
  shows "inv w' \<and> accords new (view w) (view w')"
proof (cases "gin_bind_enqueue G (rq_body rq)")
  case (Inl err)
  then show ?thesis using run w new by (auto simp: handle_Enqueue_def)
next
  case req: (Inr req)
  obtain r w1 where r: "Enqueue Q RequestCtx p (er_DeckID req) (er_Name req) (er_Level req)
      (er_GatewayInstanceID req) w = (r, w1)" by fastforce
  have inv1: "inv w1" using enqueue_inv [OF w] r by (metis snd_conv)
  consider (refused) "w' = w" "rs_status resp \<noteq> 202"
    | (failed) err where "r = Inl err" "w' = w1" "rs_status resp \<noteq> 202"
    | (joined) k where "r = Inr k" "w' = w1" "rs_status resp = 202"
    using run req r
    by (simp add: handle_Enqueue_def service_def handler_New_def respondUnavailable_def
        split: sum.splits if_splits) force+
  then show ?thesis
  proof cases
    case refused
    then show ?thesis using w new req by (simp add: accords_refused)
  next
    case failed
    have "accords [Joined p (er_GatewayInstanceID req) False] (view w) (view w1)"
      using enqueue_err [OF w r [unfolded failed(1)]]
      by (elim disjE conjE exE) (simp_all add: accords_refused accords_join)
    then show ?thesis using inv1 new req failed by simp
  next
    case joined
    have "accords [Joined p (er_GatewayInstanceID req) True] (view w) (view w1)"
      using enqueue_ok [OF w r [unfolded joined(1)]]
      by (elim conjE exE) (simp add: accords_join)
    then show ?thesis using inv1 new req joined by simp
  qed
qed

lemma abandon_accords:
  assumes w: "inv w" and run: "Abandon (abandon_New Q) c i ids reason w = (r, ls, w')"
  shows "inv w' \<and> accords (map TakenOut ids) (view w) (view w')"
proof -
  obtain errs where "cancel_all Q c i ids w = (errs, w')"
    using run by (auto simp: Abandon_def abandon_New_def split: prod.splits if_splits)
  from cancel_all_entries [OF w this] obtain P where "inv w'" "instance_of w' = instance_of w" "P \<subseteq> set ids"
    "entries w' = filter (\<lambda>e. PlayerID e \<notin> P) (entries w)" by blast
  then show ?thesis by (simp add: accords_left)
qed

lemma router_accords:
  assumes w: "inv w" and run: "NewRouter G verify (service Q circ) rq w = Some (resp, ls, w')"
  shows "inv w' \<and> accords (request_events G verify rq resp) (view w) (view w')"
proof -
  let ?h = "service Q circ"
  consider (size) "request_events G verify rq resp = []" "(resp, ls, w') = handle_RespondQueueSize ?h rq w"
    | (still) "request_events G verify rq resp = []" "w' = w"
    | (abandoned) "request_events G verify rq resp =
          (case gin_bind_abandoned G (rq_body rq) of Inr req \<Rightarrow> map TakenOut (ma_PlayerIDs req) | Inl err \<Rightarrow> [])"
        "(resp, ls, w') = handle_ReportMatchAbandoned G ?h rq w"
    | (enqueue) p where "request_events G verify rq resp = (case gin_bind_enqueue G (rq_body rq) of
          Inr req \<Rightarrow> [Joined p (er_GatewayInstanceID req) (rs_status resp = 202)] | Inl err \<Rightarrow> [])"
        "(resp, ls, w') = handle_Enqueue G ?h p rq w"
    | (cancel) p where "request_events G verify rq resp = [TakenOut p]"
        "(resp, ls, w') = handle_Cancel ?h p rq w"
    using run unfolding NewRouter_def request_events_def by (auto split: if_splits sum.splits)
  then show ?thesis
  proof cases
    case size
    then have "w' = snd (Size Q RequestCtx w)"
      by (auto simp: handle_RespondQueueSize_def service_def handler_New_def respondUnavailable_def
          split: prod.splits sum.splits)
    then show ?thesis using size_inv [OF w] size by simp
  next
    case still
    then show ?thesis using w by simp
  next
    case abandoned
    show ?thesis
    proof (cases "w' = w \<and> (request_events G verify rq resp = [] \<or> (\<exists>ps. request_events G verify rq resp = map TakenOut ps))")
      case True
      then show ?thesis using w accords_left [of "{}" _ "entries w" "instance_of w"] by auto
    next
      case False
      then obtain req r ls1 where "gin_bind_abandoned G (rq_body rq) = Inr req"
        "Abandon (abandon_New Q) RequestCtx (ma_MatchID req) (ma_PlayerIDs req) (ma_Reason req) w = (r, ls1, w')"
        using abandoned
        by (auto simp: handle_ReportMatchAbandoned_def service_def handler_New_def respondUnavailable_def
            split: sum.splits if_splits option.splits prod.splits)
      with abandon_accords [OF w] abandoned(1) show ?thesis by simp
    qed
  next
    case (enqueue p)
    then show ?thesis by (intro enqueue_accords [OF w, of G circ p rq resp ls]) simp_all
  next
    case (cancel p)
    then have "w' = snd (Cancel Q RequestCtx p w)"
      by (auto simp: handle_Cancel_def service_def handler_New_def respondUnavailable_def
          split: prod.splits sum.splits)
    then show ?thesis using cancel_accords [OF w, of RequestCtx p] cancel by simp
  qed
qed

lemma activity_accords:
  assumes same: "\<And>w w'. same w w' \<Longrightarrow> inv w \<Longrightarrow> inv w' \<and> entries w' = entries w \<and> instance_of w' = instance_of w"
    and act: "activity G verify circ Q same v v'" and v: "inv (fst v)"
  shows "inv (fst v') \<and> (\<exists>new. snd v' = new @ snd v \<and> accords new (view (fst v)) (view (fst v')))"
  using act
proof induction
  case idle
  then show ?case using v by simp
next
  case (request w evs rq resp ls w')
  then obtain new where new: "inv w" "evs = new @ snd v" "accords new (view (fst v)) (view w)" by auto
  from router_accords [OF new(1) request.hyps(2)] new(2) accords_trans [OF new(3)] show ?case by auto
next
  case (cancelling w evs c p)
  then obtain new where new: "inv w" "evs = new @ snd v" "accords new (view (fst v)) (view w)" by auto
  from cancel_accords [OF new(1), of c p] new(2) accords_trans [OF new(3), of "[TakenOut p]"] show ?case by auto
next
  case (elapse w evs w')
  then show ?case using same [OF elapse.hyps(2)] by auto
qed

end

section \<open>The matcher beside the HTTP interface\<close>

text \<open>The queue on a world that holds more: its operations leave the rest alone.\<close>

definition beside :: "'w Queue \<Rightarrow> ('w \<times> 'e) Queue" where
  "beside Q =
    \<lparr>Enqueue = (\<lambda>c p d n l g (w, e). apsnd (\<lambda>w'. (w', e)) (Enqueue Q c p d n l g w)),
     Cancel = (\<lambda>c p (w, e). apsnd (\<lambda>w'. (w', e)) (Cancel Q c p w)),
     Size = (\<lambda>c (w, e). apsnd (\<lambda>w'. (w', e)) (Size Q c w)),
     PopPair = (\<lambda>c (w, e). apsnd (\<lambda>w'. (w', e)) (PopPair Q c w)),
     Reenqueue = (\<lambda>c es g (w, e). apsnd (\<lambda>w'. (w', e)) (Reenqueue Q c es g w))\<rparr>"

lemma beside_calls [simp]:
  "Enqueue (beside Q) c p d n l g (w, e) = (case Enqueue Q c p d n l g w of (r, w') \<Rightarrow> (r, (w', e)))"
  "Cancel (beside Q) c p (w, e) = (case Cancel Q c p w of (r, w') \<Rightarrow> (r, (w', e)))"
  "Size (beside Q) c (w, e) = (case Size Q c w of (r, w') \<Rightarrow> (r, (w', e)))"
  "PopPair (beside Q) c (w, e) = (case PopPair Q c w of (r, w') \<Rightarrow> (r, (w', e)))"
  "Reenqueue (beside Q) c es g (w, e) = (case Reenqueue Q c es g w of (r, w') \<Rightarrow> (r, (w', e)))"
  by (simp_all add: beside_def apsnd_def map_prod_def)

lemma split_result: "(case x of (r, w') \<Rightarrow> (r, (w', e))) = (r0, v) \<longleftrightarrow> x = (r0, fst v) \<and> snd v = e"
  by (cases x; cases v) auto

lemma beside_run:
  "Enqueue (beside Q) c p d n l g v = (re, v') \<longleftrightarrow> Enqueue Q c p d n l g (fst v) = (re, fst v') \<and> snd v' = snd v"
  "Cancel (beside Q) c p v = (rc, v') \<longleftrightarrow> Cancel Q c p (fst v) = (rc, fst v') \<and> snd v' = snd v"
  "Size (beside Q) c v = (rs, v') \<longleftrightarrow> Size Q c (fst v) = (rs, fst v') \<and> snd v' = snd v"
  "PopPair (beside Q) c v = (rp, v') \<longleftrightarrow> PopPair Q c (fst v) = (rp, fst v') \<and> snd v' = snd v"
  "Reenqueue (beside Q) c es g v = (rr, v') \<longleftrightarrow> Reenqueue Q c es g (fst v) = (rr, fst v') \<and> snd v' = snd v"
  by (cases v, simp add: split_result)+

lemma beside_snd:
  "snd (Enqueue (beside Q) c p d n l g v) = (snd (Enqueue Q c p d n l g (fst v)), snd v)"
  "snd (Cancel (beside Q) c p v) = (snd (Cancel Q c p (fst v)), snd v)"
  "snd (Size (beside Q) c v) = (snd (Size Q c (fst v)), snd v)"
  "snd (PopPair (beside Q) c v) = (snd (PopPair Q c (fst v)), snd v)"
  "snd (Reenqueue (beside Q) c es g v) = (snd (Reenqueue Q c es g (fst v)), snd v)"
  by (cases v, simp split: prod.split)+

context queue_contract
begin

text \<open>Such a queue keeps the same contract.\<close>

lemma beside_contract:
  "queue_contract (beside Q) (\<lambda>v. inv (fst v)) (\<lambda>v. entries (fst v)) (\<lambda>v. instance_of (fst v))"
proof (unfold_locales, unfold beside_run beside_snd fst_conv, goal_cases)
  case (5 p g c d n l v)
  then obtain err where "Enqueue Q c p d n l g (fst v) = (Inl err, fst v)" using enqueue_invalid by blast
  then show ?case by (cases v) (auto simp: beside_run)
qed ((elim conjE)?, (rule unique fifo entries_writable exact_times enqueue_inv enqueue_ok enqueue_err
      cancel_inv cancel_ok cancel_err size_inv size_ok pop_inv pop_ok pop_err reenqueue_inv reenqueue_ok
      reenqueue_err same_entries; assumption))+

end

end
