(* ===== verification/MatcherTrace.thy ===== *)
theory MatcherTrace
  imports Matcher
begin

text \<open>
  What a tick does to the outside, whatever the queue, the publisher, the clock and the
  identifiers answer. \<open>recording m\<close> is the matcher \<open>m\<close> whose every call to the outside is
  noted with its arguments and its answer; it runs as \<open>m\<close> does (\<open>tick_recording\<close>). The lemmas
  describe the notes: at most one pop and one publication, bounded attempts and waits, the
  order of the calls, and the fate of a popped pair.
\<close>

section \<open>Recording the calls\<close>

datatype call =
    CNow instant
  | CPop go_ctx "go_error + QueueEntry list \<times> string"
  | CMatchID string
  | CPublish go_ctx string string "go_error option"
  | CReenqueue go_ctx "QueueEntry list" string "go_error + bool"
  | CCtxErr go_ctx bool
  | CWait go_ctx int bool
  | COther

definition noting :: "('a \<Rightarrow> call) \<Rightarrow> ('w \<Rightarrow> 'a \<times> 'w) \<Rightarrow> 'w \<times> call list \<Rightarrow> 'a \<times> ('w \<times> call list)" where
  "noting k f = (\<lambda>(w, t). case f w of (a, w') \<Rightarrow> (a, (w', t @ [k a])))"

definition recording :: "'w Matcher \<Rightarrow> ('w \<times> call list) Matcher" where
  "recording m =
    \<lparr>queue = \<lparr>Enqueue = (\<lambda>c p d n l g. noting (\<lambda>_. COther) (Enqueue (queue m) c p d n l g)),
              Cancel = (\<lambda>c p. noting (\<lambda>_. COther) (Cancel (queue m) c p)),
              Size = (\<lambda>c. noting (\<lambda>_. COther) (Size (queue m) c)),
              PopPair = (\<lambda>c. noting (CPop c) (PopPair (queue m) c)),
              Reenqueue = (\<lambda>c es g. noting (CReenqueue c es g) (Reenqueue (queue m) c es g))\<rparr>,
     publisher = \<lparr>Publish = (\<lambda>c ty p. noting (CPublish c ty p) (Publish (publisher m) c ty p))\<rparr>,
     clock = \<lparr>Now = noting CNow (Now (clock m)),
              WaitOrDone = (\<lambda>c d. noting (CWait c d) (WaitOrDone (clock m) c d)),
              CtxErr = (\<lambda>c. noting (CCtxErr c) (CtxErr (clock m) c))\<rparr>,
     matchIDs = \<lparr>NewMatchID = noting CMatchID (NewMatchID (matchIDs m))\<rparr>,
     interval = interval m, circuit = circuit m, drainTimeout = drainTimeout m\<rparr>"

lemma noting_eq [simp]:
  "noting k f (w, t) = (let (a, w') = f w in (a, (w', t @ [k a])))"
  by (simp add: noting_def Let_def)

lemma recording_simps [simp]:
  "PopPair (queue (recording m)) c = noting (CPop c) (PopPair (queue m) c)"
  "Reenqueue (queue (recording m)) c es g = noting (CReenqueue c es g) (Reenqueue (queue m) c es g)"
  "Publish (publisher (recording m)) c ty p = noting (CPublish c ty p) (Publish (publisher m) c ty p)"
  "Now (clock (recording m)) = noting CNow (Now (clock m))"
  "WaitOrDone (clock (recording m)) c d = noting (CWait c d) (WaitOrDone (clock m) c d)"
  "CtxErr (clock (recording m)) c = noting (CCtxErr c) (CtxErr (clock m) c)"
  "NewMatchID (matchIDs (recording m)) = noting CMatchID (NewMatchID (matchIDs m))"
  "circuit (recording m) = circuit m"
  "(recording m)\<lparr>circuit := br\<rparr> = recording (m\<lparr>circuit := br\<rparr>)"
  by (simp_all add: recording_def)

text \<open>The recorded run is the run.\<close>

lemma bestEffort_recording:
  "bestEffortReenqueue (recording m) i es g (w, t) =
     (case bestEffortReenqueue m i es g w of (ls, w') \<Rightarrow>
        (ls, (w', t @ [CReenqueue (WithTimeout Background shutdownReenqueueTimeout) es g
                        (fst (Reenqueue (queue m) (WithTimeout Background shutdownReenqueueTimeout) es g w))])))"
  by (simp add: bestEffortReenqueue_def Let_def split: prod.splits sum.splits)

lemma bestEffort_recording_run:
  "apsnd fst (bestEffortReenqueue (recording m) i es g (w, t)) = bestEffortReenqueue m i es g w"
  by (simp add: bestEffort_recording split: prod.split)

lemma reenqueue_from_recording_run:
  "apsnd fst (reenqueue_from (recording m) c i es g a b (w, t)) = reenqueue_from m c i es g a b w"
proof (induction "Suc reenqueueMaxAttempts - a" arbitrary: a b w t)
  case 0
  then show ?case by (subst (1 2) reenqueue_from.simps) simp
next
  case (Suc k)
  then have IH: "apsnd fst (reenqueue_from (recording m) c i es g (Suc a) (b * reenqueueBackoffFactor) (w, t)) =
      reenqueue_from m c i es g (Suc a) (b * reenqueueBackoffFactor) w" for w t
    by simp
  have best: "fst (bestEffortReenqueue (recording m) i es g (w, t)) = fst (bestEffortReenqueue m i es g w)"
    "fst (snd (bestEffortReenqueue (recording m) i es g (w, t))) = snd (bestEffortReenqueue m i es g w)" for w t
    using bestEffort_recording_run [of m i es g w t] by (metis fst_apsnd, metis snd_apsnd)
  have IH': "fst (reenqueue_from (recording m) c i es g (Suc a) (b * reenqueueBackoffFactor) (w, t)) =
        fst (reenqueue_from m c i es g (Suc a) (b * reenqueueBackoffFactor) w)"
    "fst (snd (reenqueue_from (recording m) c i es g (Suc a) (b * reenqueueBackoffFactor) (w, t))) =
        snd (reenqueue_from m c i es g (Suc a) (b * reenqueueBackoffFactor) w)" for w t
    using IH [of w t] by (metis fst_apsnd, metis snd_apsnd)
  show ?case
    by (subst (1 2) reenqueue_from.simps)
      (simp add: Let_def case_prod_beta best IH' apsnd_def map_prod_def split: sum.split)
qed

lemma retry_recording_run:
  "fst (reenqueueWithRetry (recording m) c i es g (w, t)) = fst (reenqueueWithRetry m c i es g w)"
  "fst (snd (reenqueueWithRetry (recording m) c i es g (w, t))) = snd (reenqueueWithRetry m c i es g w)"
  using reenqueue_from_recording_run [of m c i es g 1 reenqueueInitialBackoff w t]
  unfolding reenqueueWithRetry_def by (metis fst_apsnd, metis snd_apsnd)

lemma publish_pair_recording_run:
  "fst (publish_pair (recording m) c es g (w, t)) = fst (publish_pair m c es g w)"
  "fst (snd (publish_pair (recording m) c es g (w, t))) = recording (fst (snd (publish_pair m c es g w)))"
  "fst (snd (snd (publish_pair (recording m) c es g (w, t)))) = snd (snd (publish_pair m c es g w))"
  by (simp_all add: publish_pair_def record_publish_failure_def ToMatchMadeWire_eq Let_def case_prod_beta
      retry_recording_run split: option.split)

lemma tick_recording_run:
  "fst (tick (recording m) c (w, t)) = fst (tick m c w)"
  "fst (snd (tick (recording m) c (w, t))) = recording (fst (snd (tick m c w)))"
  "fst (snd (snd (tick (recording m) c (w, t)))) = snd (snd (tick m c w))"
  by (simp_all add: tick_def Let_def case_prod_beta publish_pair_recording_run split: sum.split)

section \<open>Reading the notes\<close>

definition attempts :: "call list \<Rightarrow> (go_ctx \<times> QueueEntry list \<times> string \<times> (go_error + bool)) list" where
  "attempts t = concat (map (\<lambda>x. case x of CReenqueue c es g r \<Rightarrow> [(c, es, g, r)] | _ \<Rightarrow> []) t)"

definition waits :: "call list \<Rightarrow> int list" where
  "waits t = concat (map (\<lambda>x. case x of CWait c d b \<Rightarrow> [d] | _ \<Rightarrow> []) t)"

definition pops :: "call list \<Rightarrow> (go_ctx \<times> (go_error + QueueEntry list \<times> string)) list" where
  "pops t = concat (map (\<lambda>x. case x of CPop c r \<Rightarrow> [(c, r)] | _ \<Rightarrow> []) t)"

definition publications :: "call list \<Rightarrow> (go_ctx \<times> string \<times> string \<times> go_error option) list" where
  "publications t = concat (map (\<lambda>x. case x of CPublish c ty p r \<Rightarrow> [(c, ty, p, r)] | _ \<Rightarrow> []) t)"

definition saw_cancelled :: "go_ctx \<Rightarrow> call list \<Rightarrow> bool" where
  "saw_cancelled c t \<longleftrightarrow>
     list_ex (\<lambda>x. case x of CCtxErr c' b \<Rightarrow> c' = c \<and> b | CWait c' d b \<Rightarrow> c' = c \<and> b | _ \<Rightarrow> False) t"

lemmas note_defs = attempts_def waits_def pops_def publications_def saw_cancelled_def

fun doubling :: "int \<Rightarrow> nat \<Rightarrow> int list" where
  "doubling b 0 = []"
| "doubling b (Suc n) = b # doubling (b * reenqueueBackoffFactor) n"

definition last_attempt :: go_ctx where
  "last_attempt = WithTimeout Background shutdownReenqueueTimeout"

text \<open>A log record at level error that names the players of a pair.\<close>

definition reports_lost :: "QueueEntry list \<Rightarrow> log list \<Rightarrow> bool" where
  "reports_lost es ls \<longleftrightarrow>
     list_ex (\<lambda>l. log_lvl l = LevelError \<and> (''players'', AStrs (collectPlayerIDs es)) \<in> set (log_attrs l)) ls"

text \<open>The fate of a pair, by the answer to the last attempt to write it back.\<close>

definition fate_told :: "string \<Rightarrow> QueueEntry list \<Rightarrow> go_error + bool \<Rightarrow> log list \<Rightarrow> bool" where
  "fate_told i es r ls \<longleftrightarrow>
     (case r of Inr b \<Rightarrow> b \<or> logDroppedPair i es \<in> set ls | Inl err \<Rightarrow> reports_lost es ls)"

text \<open>What a run of the retry loop notes and logs, from attempt \<open>a\<close> with backoff \<open>b\<close>.\<close>

definition retry_notes ::
  "go_ctx \<Rightarrow> string \<Rightarrow> QueueEntry list \<Rightarrow> string \<Rightarrow> nat \<Rightarrow> int \<Rightarrow> log list \<Rightarrow> call list \<Rightarrow> bool" where
  "retry_notes c i es g a b ls t \<longleftrightarrow>
     pops t = [] \<and> publications t = []
     \<and> (\<exists>n \<le> reenqueueMaxAttempts - a. waits t = doubling b n)
     \<and> (\<exists>rs fin. attempts t = map (\<lambda>r. (c, es, g, r)) rs @ map (\<lambda>r. (last_attempt, es, g, r)) fin
          \<and> rs \<noteq> [] \<and> length rs \<le> Suc reenqueueMaxAttempts - a
          \<and> length fin \<le> 1 \<and> (fin = [] \<or> saw_cancelled c t)
          \<and> list_all isl (butlast (rs @ fin))
          \<and> fate_told i es (last (rs @ fin)) ls
          \<and> t \<noteq> [] \<and> (isl (last (rs @ fin)) \<or> (\<exists>c'. last t = CReenqueue c' es g (last (rs @ fin)))))"

lemma fate_told_Cons: "fate_told i es r ls \<Longrightarrow> fate_told i es r (l # ls)"
  by (auto simp: fate_told_def reports_lost_def split: sum.splits)

lemma retry_notes_final:
  assumes "Reenqueue (queue m) c es g w = (Inl err, w1)"
    and "bestEffortReenqueue (recording m) i es g (w2, t) = (ls, (w', t'))"
    and "saw_cancelled c u" and "attempts u = []" "pops u = []" "publications u = []"
    and "n \<le> reenqueueMaxAttempts - a" "waits u = doubling b n" "a \<le> reenqueueMaxAttempts"
  shows "\<exists>v. t' = t @ v \<and> retry_notes c i es g a b (l # ls) (CReenqueue c es g (Inl err) # u @ v)"
proof -
  obtain r w3 where r: "Reenqueue (queue m) last_attempt es g w2 = (r, w3)" by fastforce
  have t': "t' = t @ [CReenqueue last_attempt es g r]"
    using assms(2) r by (auto simp: bestEffort_recording last_attempt_def split: prod.splits)
  have "fate_told i es r ls"
    using assms(2) r
    by (auto simp: bestEffortReenqueue_def Let_def last_attempt_def [symmetric] fate_told_def
        reports_lost_def split: sum.splits if_splits)
  then have fate: "fate_told i es r (l # ls)" by (rule fate_told_Cons)
  have att: "attempts (CReenqueue c es g (Inl err) # u @ [CReenqueue last_attempt es g r]) =
     map (\<lambda>r. (c, es, g, r)) [Inl err] @ map (\<lambda>r. (last_attempt, es, g, r)) [r]"
    using assms(4) by (simp add: attempts_def)
  show ?thesis
    unfolding retry_notes_def t'
    by (intro exI [of _ "[CReenqueue last_attempt es g r]"] conjI refl exI [of _ "[Inl err]"]
          exI [of _ "[r]"] att exI [of _ n])
      (use assms fate in \<open>auto simp: note_defs\<close>)
qed

lemma retry_notes_step:
  assumes "retry_notes c i es g (Suc a) (b * reenqueueBackoffFactor) ls t" and "a < reenqueueMaxAttempts"
  shows "retry_notes c i es g a b (l # ls)
     ([CReenqueue c es g (Inl err), CCtxErr c False, CWait c b False] @ t)"
proof -
  obtain n where n: "n \<le> reenqueueMaxAttempts - Suc a" "waits t = doubling (b * reenqueueBackoffFactor) n"
    using assms(1) by (auto simp: retry_notes_def)
  obtain rs fin where rs: "attempts t = map (\<lambda>r. (c, es, g, r)) rs @ map (\<lambda>r. (last_attempt, es, g, r)) fin"
    "rs \<noteq> []" "length rs \<le> Suc reenqueueMaxAttempts - Suc a" "length fin \<le> 1" "fin = [] \<or> saw_cancelled c t"
    "list_all isl (butlast (rs @ fin))" "fate_told i es (last (rs @ fin)) ls"
    "t \<noteq> []" "isl (last (rs @ fin)) \<or> (\<exists>c'. last t = CReenqueue c' es g (last (rs @ fin)))"
    using assms(1) unfolding retry_notes_def by blast
  let ?u = "[CReenqueue c es g (Inl err), CCtxErr c False, CWait c b False] @ t"
  have att: "attempts ?u = map (\<lambda>r. (c, es, g, r)) (Inl err # rs) @ map (\<lambda>r. (last_attempt, es, g, r)) fin"
    using rs(1) by (simp add: attempts_def)
  have wt: "waits ?u = doubling b (Suc n)"
    using n(2) by (simp add: waits_def)
  have "Suc n \<le> reenqueueMaxAttempts - a" using n(1) assms(2) by linarith
  moreover have "pops ?u = [] \<and> publications ?u = []"
    using assms(1) by (simp add: retry_notes_def pops_def publications_def)
  moreover have "fin = [] \<or> saw_cancelled c ?u"
    using rs(5) by (auto simp: saw_cancelled_def)
  moreover have "fate_told i es (last ((Inl err # rs) @ fin)) (l # ls)"
    using rs(2,7) by (auto intro: fate_told_Cons)
  moreover have "list_all isl (butlast ((Inl err # rs) @ fin))" using rs(2,6) by simp
  moreover have "?u \<noteq> []"
    "isl (last ((Inl err # rs) @ fin)) \<or> (\<exists>c'. last ?u = CReenqueue c' es g (last ((Inl err # rs) @ fin)))"
    using rs(2,8,9) by simp_all
  moreover have "length (Inl err # rs) \<le> Suc reenqueueMaxAttempts - a" using rs(3) assms(2) by simp
  ultimately show ?thesis
    unfolding retry_notes_def using att wt rs(4) by blast
qed

text \<open>A run that stops at its first attempt.\<close>

lemma retry_notes_stop:
  assumes "a \<le> reenqueueMaxAttempts" and "attempts u = [(c, es, g, r)]" and "pops u = []"
    and "publications u = []" and "waits u = []" and "fate_told i es r ls"
    and "u \<noteq> []" and "isl r \<or> last u = CReenqueue c es g r"
  shows "retry_notes c i es g a b ls u"
proof -
  have "waits u = doubling b 0" "attempts u = map (\<lambda>r. (c, es, g, r)) [r] @ map (\<lambda>r. (last_attempt, es, g, r)) []"
    using assms by simp_all
  then show ?thesis
    unfolding retry_notes_def
    by (intro conjI assms(3,4) exI [of _ 0] exI [of _ "[r]"] exI [of _ "[]"]) (use assms in auto)
qed

lemma reenqueue_from_notes:
  assumes "a \<le> reenqueueMaxAttempts"
    and "reenqueue_from (recording m) c i es g a b (w, t) = (ls, (w', t'))"
  shows "\<exists>u. t' = t @ u \<and> retry_notes c i es g a b ls u"
  using assms
proof (induction "reenqueueMaxAttempts - a" arbitrary: a b w t ls rule: less_induct)
  case less
  obtain r w1 where r: "Reenqueue (queue m) c es g w = (r, w1)" by fastforce
  let ?t1 = "t @ [CReenqueue c es g r]"
  have r': "Reenqueue (queue (recording m)) c es g (w, t) = (r, (w1, ?t1))" using r by simp
  show ?case
  proof (cases r)
    case (Inr ok)
    then have "t' = t @ [CReenqueue c es g (Inr ok)]" "fate_told i es (Inr ok) ls"
      using reenqueue_from_ok [OF less.prems(1) r' [unfolded Inr], of i b] less.prems(2)
      by (auto simp: fate_told_def split: if_splits)
    then show ?thesis
      by (intro exI [of _ "[CReenqueue c es g (Inr ok)]"] conjI
          retry_notes_stop [where r = "Inr ok", OF less.prems(1)])
        (simp_all add: note_defs)
  next
    case (Inl err)
    obtain canc w2 where canc: "CtxErr (clock m) c w1 = (canc, w2)" by fastforce
    obtain dn w3 where dn: "WaitOrDone (clock m) c b w2 = (dn, w3)" by fastforce
    let ?t2 = "?t1 @ [CCtxErr c canc]"
    have canc': "CtxErr (clock (recording m)) c (w1, ?t1) = (canc, (w2, ?t2))" using canc by simp
    have dn': "WaitOrDone (clock (recording m)) c b (w2, ?t2) = (dn, (w3, ?t2 @ [CWait c b dn]))"
      using dn by simp
    note failed = reenqueue_from_failed [OF less.prems(1) r' [unfolded Inl], of i b, folded Inl]
    note final = retry_notes_final [OF r [unfolded Inl] _ _ _ _ _ _ _ less.prems(1), folded Inl]
    obtain l lost where lost: "log_lvl lost = LevelError"
        "(''players'', AStrs (collectPlayerIDs es)) \<in> set (log_attrs lost)"
      and f1: "\<And>v. CtxErr (clock (recording m)) c (w1, ?t1) = (True, v) \<Longrightarrow>
         reenqueue_from (recording m) c i es g a b (w, t) =
           (case bestEffortReenqueue (recording m) i es g v of (ls, w') \<Rightarrow> (l # ls, w'))"
      and f2: "\<And>v. CtxErr (clock (recording m)) c (w1, ?t1) = (False, v) \<Longrightarrow> a = reenqueueMaxAttempts \<Longrightarrow>
         reenqueue_from (recording m) c i es g a b (w, t) = ([l, lost], v)"
      and f3: "\<And>v v3. CtxErr (clock (recording m)) c (w1, ?t1) = (False, v) \<Longrightarrow> a < reenqueueMaxAttempts \<Longrightarrow>
         WaitOrDone (clock (recording m)) c b v = (True, v3) \<Longrightarrow>
         reenqueue_from (recording m) c i es g a b (w, t) =
           (case bestEffortReenqueue (recording m) i es g v3 of (ls, w') \<Rightarrow> (l # ls, w'))"
      and f4: "\<And>v v3. CtxErr (clock (recording m)) c (w1, ?t1) = (False, v) \<Longrightarrow> a < reenqueueMaxAttempts \<Longrightarrow>
         WaitOrDone (clock (recording m)) c b v = (False, v3) \<Longrightarrow>
         reenqueue_from (recording m) c i es g a b (w, t) =
           (case reenqueue_from (recording m) c i es g (Suc a) (b * reenqueueBackoffFactor) v3 of (ls, w') \<Rightarrow> (l # ls, w'))"
      by (rule failed) (rule that)
    consider "canc" | "\<not> canc" "a = reenqueueMaxAttempts"
      | "\<not> canc" "a < reenqueueMaxAttempts" "dn" | "\<not> canc" "a < reenqueueMaxAttempts" "\<not> dn"
      using less.prems(1) by linarith
    then show ?thesis
    proof cases
      case 1
      then obtain ls' where "bestEffortReenqueue (recording m) i es g (w2, ?t2) = (ls', (w', t'))" "ls = l # ls'"
        using f1 [of "(w2, ?t2)"] canc' less.prems(2) by (auto split: prod.splits)
      then show ?thesis
        using 1 final [where u = "[CCtxErr c True]" and n = 0] by (force simp: note_defs)
    next
      case 2
      have "t' = t @ [CReenqueue c es g (Inl err), CCtxErr c False]" "ls = [l, lost]"
        using f2 [of "(w2, ?t2)"] canc' less.prems(2) 2 Inl by auto
      moreover have "fate_told i es (Inl err) [l, lost]"
        using lost by (simp add: fate_told_def reports_lost_def)
      ultimately show ?thesis
        by (intro exI [of _ "[CReenqueue c es g (Inl err), CCtxErr c False]"] conjI
            retry_notes_stop [where r = "Inl err", OF less.prems(1)]) (simp_all add: note_defs)
    next
      case 3
      then obtain ls' where "bestEffortReenqueue (recording m) i es g (w3, ?t2 @ [CWait c b dn]) = (ls', (w', t'))"
          "ls = l # ls'"
        using f3 [of "(w2, ?t2)"] canc' dn' less.prems(2) by (auto split: prod.splits)
      then show ?thesis
        using 3 final [where u = "[CCtxErr c False, CWait c b True]" and n = 1] by (force simp: note_defs)
    next
      case 4
      then obtain ls' where rec: "reenqueue_from (recording m) c i es g (Suc a) (b * reenqueueBackoffFactor)
            (w3, ?t2 @ [CWait c b dn]) = (ls', (w', t'))" and ls: "ls = l # ls'"
        using f4 [of "(w2, ?t2)"] canc' dn' less.prems(2) by (auto split: prod.splits)
      have "reenqueueMaxAttempts - Suc a < reenqueueMaxAttempts - a" "Suc a \<le> reenqueueMaxAttempts"
        using 4(2) by simp_all
      from less.hyps [OF this rec] obtain u where
        u: "t' = (?t2 @ [CWait c b dn]) @ u" "retry_notes c i es g (Suc a) (b * reenqueueBackoffFactor) ls' u"
        by blast
      show ?thesis
        using retry_notes_step [OF u(2) 4(2), of l err] u(1) 4 ls Inl by auto
    qed
  qed
qed

section \<open>The shapes of a tick\<close>

definition match_payload :: "string \<Rightarrow> QueueEntry list \<Rightarrow> string" where
  "match_payload i es = marshal_event (wire_event \<lparr>mm_MatchID = i, mm_Players = map matched_player es\<rparr>)"

lemma tick_shapes:
  assumes "tick (recording m) c (w, []) = (ls, m', (w', t))"
  obtains
    (skipped) n where "t = [CNow n]" "\<not> fst (fst (allowTick n (circuit m)))"
      "circuit m' = circuit_after [Allow n] (circuit m)"
  | (pop_failed) n err n' where "t = [CNow n, CPop c (Inl err), CNow n']"
      "fst (fst (allowTick n (circuit m)))"
      "circuit m' = circuit_after [PopFail n', Allow n] (circuit m)"
  | (unpaired) n es g where "t = [CNow n, CPop c (Inr (es, g))]" "length es \<noteq> MatchPlayerCount"
      "fst (fst (allowTick n (circuit m)))" "es = [] \<or> reports_lost es ls"
      "circuit m' = circuit_after [PopOk, Allow n] (circuit m)"
  | (published) n es g i where
      "t = [CNow n, CPop c (Inr (es, g)), CMatchID i, CPublish c EventTypeMatchMade (match_payload i es) None]"
      "length es = MatchPlayerCount" "fst (fst (allowTick n (circuit m)))"
      "circuit m' = circuit_after [PublishOk, PopOk, Allow n] (circuit m)"
  | (returned) n es g i err n' u ls1 ls2 where
      "t = [CNow n, CPop c (Inr (es, g)), CMatchID i,
            CPublish c EventTypeMatchMade (match_payload i es) (Some err), CNow n'] @ u"
      "length es = MatchPlayerCount" "fst (fst (allowTick n (circuit m)))"
      "ls = ls1 @ ls2" "retry_notes c i es g 1 reenqueueInitialBackoff ls2 u"
      "circuit m' = circuit_after [PublishFail n', PopOk, Allow n] (circuit m)"
proof -
  obtain n w1 where n: "Now (clock m) w = (n, w1)" by fastforce
  obtain al lg br where al: "allowTick n (circuit m) = ((al, lg), br)" by (metis surj_pair)
  obtain r w2 where r: "PopPair (queue m) c w1 = (r, w2)" by fastforce
  show thesis
  proof (cases al)
    case False
    then have "circuit (fst (snd (tick (recording m) c (w, [])))) = br"
      "snd (snd (snd (tick (recording m) c (w, [])))) = [CNow n]"
      using n al by (simp_all add: tick_def)
    then have "t = [CNow n]" "circuit m' = br" using assms by simp_all
    with False al show thesis
      by (intro skipped [of n]) simp_all
  next
    case True
    show thesis
    proof (cases r)
      case (Inl err)
      obtain n' w3 where n': "Now (clock m) w2 = (n', w3)" by fastforce
      have "circuit (fst (snd (tick (recording m) c (w, [])))) = snd (recordPopFailure n' br)"
        "snd (snd (snd (tick (recording m) c (w, [])))) = [CNow n, CPop c (Inl err), CNow n']"
        using n al True r Inl n' by (simp_all add: tick_def split: prod.split)
      then have "t = [CNow n, CPop c (Inl err), CNow n']" "circuit m' = snd (recordPopFailure n' br)"
        using assms by simp_all
      with True al show thesis
      by (intro pop_failed [of n err n']) simp_all
    next
      case (Inr x)
      then obtain es g where x: "r = Inr (es, g)" by (cases x) auto
      obtain l1 b1 where b1: "recordPopSuccess br = (l1, b1)" by fastforce
      show thesis
      proof (cases "length es = MatchPlayerCount")
        case False
        have "circuit (fst (snd (tick (recording m) c (w, [])))) = b1"
          "snd (snd (snd (tick (recording m) c (w, [])))) = [CNow n, CPop c (Inr (es, g))]"
          "es = [] \<or> reports_lost es (fst (tick (recording m) c (w, [])))"
          using n al True r x False b1 by (simp_all add: tick_def reports_lost_def Let_def)
        then have "t = [CNow n, CPop c (Inr (es, g))]" "es = [] \<or> reports_lost es ls" "circuit m' = b1"
          using assms by simp_all
        with True al False b1 show thesis
      by (intro unpaired [of n es g]) simp_all
      next
        case len: True
        let ?m = "m\<lparr>circuit := b1\<rparr>"
        let ?t2 = "[CNow n, CPop c (Inr (es, g))]"
        have ne: "length es \<noteq> 0" using len by (simp add: MatchPlayerCount_def)
        have "tick (recording m) c (w, []) =
            (case publish_pair (recording ?m) c es g (w2, ?t2) of (ls', m', w') \<Rightarrow> (l1 @ ls', m', w'))"
          using n al True r x b1 len ne by (simp add: tick_def del: length_0_conv)
        then obtain ls2 where pp: "publish_pair (recording ?m) c es g (w2, ?t2) = (ls2, m', (w', t))"
          and ls: "ls = l1 @ ls2"
          using assms by (auto split: prod.splits)
        obtain i w3 where i: "NewMatchID (matchIDs m) w2 = (i, w3)" by fastforce
        obtain e w4 where e: "Publish (publisher m) c EventTypeMatchMade (match_payload i es) w3 = (e, w4)"
          by fastforce
        let ?t4 = "?t2 @ [CMatchID i, CPublish c EventTypeMatchMade (match_payload i es) e]"
        show thesis
        proof (cases e)
          case None
          have "circuit (fst (snd (publish_pair (recording ?m) c es g (w2, ?t2)))) = snd (recordPublishSuccess b1)"
            "snd (snd (snd (publish_pair (recording ?m) c es g (w2, ?t2)))) = ?t4"
            using i e None
            by (simp_all add: publish_pair_def ToMatchMadeWire_eq match_payload_def Let_def split: prod.split)
          then have "t = ?t4" "circuit m' = snd (recordPublishSuccess b1)" using pp by simp_all
          with None len True al b1 show thesis
      by (intro published [of n es g i]) simp_all
        next
          case (Some err)
          obtain n' w5 where n': "Now (clock m) w4 = (n', w5)" by fastforce
          obtain l2 b2 where b2: "recordPublishFailure n' b1 = (l2, b2)" by fastforce
          obtain l3 v where v: "reenqueueWithRetry (recording (m\<lparr>circuit := b2\<rparr>)) c i es g (w5, ?t4 @ [CNow n']) = (l3, v)"
            by (metis surj_pair)
          have "v = (w', t) \<and> circuit m' = b2 \<and> ls2 = (Log LevelError ''matcher publish failed, re-enqueueing pair''
              [(''error'', AVal err)] # l2) @ l3"
            using pp i e Some n' b2 v
            by (auto simp: publish_pair_def record_publish_failure_def ToMatchMadeWire_eq match_payload_def Let_def)
          then have v': "reenqueue_from (recording (m\<lparr>circuit := b2\<rparr>)) c i es g 1 reenqueueInitialBackoff
              (w5, ?t4 @ [CNow n']) = (l3, (w', t))"
            and ls2: "ls2 = (Log LevelError ''matcher publish failed, re-enqueueing pair''
              [(''error'', AVal err)] # l2) @ l3"
            using v by (simp_all add: reenqueueWithRetry_def)
          have br: "circuit m' = b2" using \<open>v = (w', t) \<and> circuit m' = b2 \<and> _\<close> by simp
          have "1 \<le> reenqueueMaxAttempts" by (simp add: reenqueueMaxAttempts_def)
          from reenqueue_from_notes [OF this v'] obtain u where
            u: "t = (?t4 @ [CNow n']) @ u" "retry_notes c i es g 1 reenqueueInitialBackoff l3 u"
            by blast
          show thesis
          proof (rule returned)
            show "t = [CNow n, CPop c (Inr (es, g)), CMatchID i,
              CPublish c EventTypeMatchMade (match_payload i es) (Some err), CNow n'] @ u"
              using u(1) Some by simp
            show "ls = (l1 @ Log LevelError ''matcher publish failed, re-enqueueing pair''
              [(''error'', AVal err)] # l2) @ l3"
              using ls ls2 by simp
          qed (use len True al u(2) br b1 b2 in simp_all)
        qed
      qed
    qed
  qed
qed

section \<open>Properties\<close>

definition tick_notes :: "'w Matcher \<Rightarrow> go_ctx \<Rightarrow> 'w \<Rightarrow> call list" where
  "tick_notes m c w = snd (snd (snd (tick (recording m) c (w, []))))"

text \<open>The history that a tick adds to the breaker, newest event first, read from its notes.\<close>

definition tick_events :: "call list \<Rightarrow> circuit_event list" where
  "tick_events t =
    (case t of
       CNow n # CPop c (Inl err) # CNow n' # _ \<Rightarrow> [PopFail n', Allow n]
     | CNow n # CPop c (Inr _) # CMatchID i # CPublish _ _ _ None # _ \<Rightarrow> [PublishOk, PopOk, Allow n]
     | CNow n # CPop c (Inr _) # CMatchID i # CPublish _ _ _ (Some e) # CNow n' # _ \<Rightarrow>
         [PublishFail n', PopOk, Allow n]
     | CNow n # CPop c (Inr _) # _ \<Rightarrow> [PopOk, Allow n]
     | CNow n # _ \<Rightarrow> [Allow n]
     | _ \<Rightarrow> [])"

lemma tick_recorded:
  obtains m' w' where "tick (recording m) c (w, []) = (fst (tick m c w), m', (w', tick_notes m c w))"
    "circuit m' = circuit (fst (snd (tick m c w)))"
  using tick_recording_run [of m c w "[]"] unfolding tick_notes_def
  by (metis prod.collapse recording_simps(8))

lemma doubling_backoffs:
  "n \<le> 4 \<Longrightarrow> prefix (doubling reenqueueInitialBackoff n)
     [100 * millisecond, 200 * millisecond, 400 * millisecond, 800 * millisecond]"
  by (cases n; cases "n - 1"; cases "n - 2"; cases "n - 3")
    (simp_all add: reenqueueInitialBackoff_def reenqueueBackoffFactor_def numeral_eq_Suc)

lemma retry_notes_bounds:
  assumes "retry_notes c i es g 1 reenqueueInitialBackoff ls u"
  shows "pops u = []" "publications u = []" "length (attempts u) \<le> 6"
    "prefix (waits u) [100 * millisecond, 200 * millisecond, 400 * millisecond, 800 * millisecond]"
proof -
  show "pops u = []" "publications u = []" using assms by (simp_all add: retry_notes_def)
  obtain rs fin where "attempts u = map (\<lambda>r. (c, es, g, r)) rs @ map (\<lambda>r. (last_attempt, es, g, r)) fin"
    "length rs \<le> 5" "length fin \<le> 1"
    using assms by (auto simp: retry_notes_def reenqueueMaxAttempts_def)
  then show "length (attempts u) \<le> 6" by simp
  show "prefix (waits u) [100 * millisecond, 200 * millisecond, 400 * millisecond, 800 * millisecond]"
    using assms doubling_backoffs by (auto simp: retry_notes_def reenqueueMaxAttempts_def)
qed

text \<open>
  C29. Whatever the queue, the publisher and the clock answer, one tick pops at most once and
  publishes at most once, tries to write a pair back at most six times (five attempts and one at
  shutdown), and waits in between for 100, 200, 400 and 800 milliseconds or an initial part of it.
\<close>

theorem tick_bounded:
  "length (pops (tick_notes m c w)) \<le> 1 \<and> length (publications (tick_notes m c w)) \<le> 1
   \<and> length (attempts (tick_notes m c w)) \<le> 6
   \<and> prefix (waits (tick_notes m c w))
       [100 * millisecond, 200 * millisecond, 400 * millisecond, 800 * millisecond]"
proof (rule tick_recorded [of m c w])
  fix m' w'
  assume run: "tick (recording m) c (w, []) = (fst (tick m c w), m', (w', tick_notes m c w))"
  show ?thesis
    using run
  proof (cases rule: tick_shapes)
    case (returned n es g i err n' u ls1 ls2)
    then show ?thesis using retry_notes_bounds [OF returned(5)] by (simp add: note_defs)
  qed (simp_all add: note_defs)
qed

lemma reports_lost_append: "reports_lost es ls2 \<Longrightarrow> reports_lost es (ls1 @ ls2)"
  by (simp add: reports_lost_def)

text \<open>
  A matcher whose surroundings always give the same answers; it serves as an example in the
  witnesses below.
\<close>

definition fixed_matcher ::
  "(go_error + QueueEntry list \<times> string) \<Rightarrow> go_error option \<Rightarrow> (go_error + bool) \<Rightarrow> bool \<Rightarrow> unit Matcher" where
  "fixed_matcher pop pub back cancelled =
    \<lparr>queue = \<lparr>Enqueue = (\<lambda>c p d n l g w. (Inr 0, w)), Cancel = (\<lambda>c p w. (Inr False, w)),
              Size = (\<lambda>c w. (Inr 0, w)), PopPair = (\<lambda>c w. (pop, w)), Reenqueue = (\<lambda>c es g w. (back, w))\<rparr>,
     publisher = \<lparr>Publish = (\<lambda>c ty p w. (pub, w))\<rparr>,
     clock = \<lparr>Now = (\<lambda>w. (0, w)), WaitOrDone = (\<lambda>c d w. (cancelled, w)), CtxErr = (\<lambda>c w. (cancelled, w))\<rparr>,
     matchIDs = \<lparr>NewMatchID = (\<lambda>w. (''m1'', w))\<rparr>,
     interval = second, circuit = newCircuitBreaker 3 second, drainTimeout = second\<rparr>"

definition two_players :: "QueueEntry list" where
  "two_players =
    [\<lparr>PlayerID = ''a'', DeckID = 1, Name = ''Ann'', Level = 2, JoinedAt = 0\<rparr>,
     \<lparr>PlayerID = ''b'', DeckID = 3, Name = ''Bob'', Level = 4, JoinedAt = 0\<rparr>]"

lemma two_players [simp]: "length two_players = 2" "two_players \<noteq> []"
  by (simp_all add: two_players_def)

lemmas example_simps = fixed_matcher_def MatchPlayerCount_def newCircuitBreaker_def
  allowTick_def tick_def publish_pair_def record_publish_failure_def ToMatchMadeWire_eq
  reenqueueWithRetry_def circuit_defs word_sle_eq reenqueue_from.simps [of _ _ _ _ _ "Suc 0"]
  reenqueueMaxAttempts_def bestEffortReenqueue_def shutdownReenqueueTimeout_def tick_notes_def note_defs

lemma tick_attempts:
  assumes "attempts (tick_notes m c w) \<noteq> []"
  shows "\<exists>es g i err rs fin.
      pops (tick_notes m c w) = [(c, Inr (es, g))] \<and> length es = MatchPlayerCount
      \<and> publications (tick_notes m c w) = [(c, EventTypeMatchMade, match_payload i es, Some err)]
      \<and> attempts (tick_notes m c w) =
          map (\<lambda>r. (c, es, g, r)) rs @ map (\<lambda>r. (WithTimeout Background (2 * second), es, g, r)) fin
      \<and> length rs \<le> 5 \<and> length fin \<le> 1 \<and> (fin = [] \<or> saw_cancelled c (tick_notes m c w))
      \<and> list_all isl (butlast (rs @ fin))"
proof (rule tick_recorded [of m c w])
  fix m' w'
  assume run: "tick (recording m) c (w, []) = (fst (tick m c w), m', (w', tick_notes m c w))"
  show ?thesis
    using run
  proof (cases rule: tick_shapes)
    case (returned n es g i err n' u ls1 ls2)
    obtain rs fin where rs: "attempts u = map (\<lambda>r. (c, es, g, r)) rs @ map (\<lambda>r. (last_attempt, es, g, r)) fin"
      "length rs \<le> 5" "length fin \<le> 1" "fin = [] \<or> saw_cancelled c u" "list_all isl (butlast (rs @ fin))"
      using returned(5) by (auto simp: retry_notes_def reenqueueMaxAttempts_def)
    have "saw_cancelled c u \<Longrightarrow> saw_cancelled c (tick_notes m c w)"
      by (simp add: returned(1) saw_cancelled_def)
    moreover have "attempts (tick_notes m c w) = attempts u" "pops (tick_notes m c w) = [(c, Inr (es, g))]"
      "publications (tick_notes m c w) = [(c, EventTypeMatchMade, match_payload i es, Some err)]"
      using retry_notes_bounds(1,2) [OF returned(5)] by (simp_all add: returned(1) note_defs)
    ultimately show ?thesis
      using rs returned(2) unfolding last_attempt_def shutdownReenqueueTimeout_def
      by (intro exI [of _ es] exI [of _ g] exI [of _ i] exI [of _ err] exI [of _ rs] exI [of _ fin]) auto
  qed (use assms in \<open>simp_all add: attempts_def\<close>)
qed

text \<open>
  C26. A tick writes a pair back only after the publication of that very pair has failed: every
  attempt carries the entries and the gateway instance that the pop returned, an attempt follows
  only failed ones, and the attempt with a context of its own (two seconds, not cancelled by the
  shutdown signal) comes last, at most once, and only after the tick saw its context cancelled.
\<close>

theorem tick_writes_back_popped_pair:
  assumes "attempts (tick_notes m c w) \<noteq> []"
  shows "\<exists>es g i err rs fin.
      pops (tick_notes m c w) = [(c, Inr (es, g))] \<and> length es = MatchPlayerCount
      \<and> publications (tick_notes m c w) = [(c, EventTypeMatchMade, match_payload i es, Some err)]
      \<and> attempts (tick_notes m c w) =
          map (\<lambda>r. (c, es, g, r)) rs @ map (\<lambda>r. (WithTimeout Background (2 * second), es, g, r)) fin
      \<and> length rs \<le> 5 \<and> length fin \<le> 1 \<and> (fin = [] \<or> saw_cancelled c (tick_notes m c w))
      \<and> list_all isl (butlast (rs @ fin))"
  by (rule tick_attempts [OF assms])

lemma tick_writes_back_popped_pair_witness:
  "length (attempts (tick_notes (fixed_matcher (Inr (two_players, ''g1'')) (Some (ErrOther ''down''))
     (Inl (ErrOther ''down'')) True) SignalCtx ())) = 2"
proof -
  let ?t = "tick_notes (fixed_matcher (Inr (two_players, ''g1'')) (Some (ErrOther ''down''))
     (Inl (ErrOther ''down'')) True) SignalCtx ()"
  have a: "attempts ?t = [(SignalCtx, two_players, ''g1'', Inl (ErrOther ''down'')),
      (WithTimeout Background (2 * second), two_players, ''g1'', Inl (ErrOther ''down''))]"
    by (simp add: example_simps)
  show ?thesis
    using tick_writes_back_popped_pair [of "fixed_matcher (Inr (two_players, ''g1'')) (Some (ErrOther ''down''))
     (Inl (ErrOther ''down'')) True" SignalCtx "()"] a by simp
qed

text \<open>The fate of a popped pair; a write-back that was refused shows in the answer and in the log.\<close>

lemma tick_pair_accounted':
  assumes "pops (tick_notes m c w) = [(c, Inr (es, g))]" and "es \<noteq> []"
  shows "(\<exists>i. publications (tick_notes m c w) = [(c, EventTypeMatchMade, match_payload i es, None)])
       \<or> (\<exists>c' b. attempts (tick_notes m c w) \<noteq> [] \<and> last (attempts (tick_notes m c w)) = (c', es, g, Inr b)
            \<and> (b \<or> (\<exists>i. logDroppedPair i es \<in> set (fst (tick m c w)))))
       \<or> reports_lost es (fst (tick m c w))"
proof (rule tick_recorded [of m c w])
  fix m' w'
  assume run: "tick (recording m) c (w, []) = (fst (tick m c w), m', (w', tick_notes m c w))"
  show ?thesis
    using run
  proof (cases rule: tick_shapes)
    case (unpaired n es' g')
    then show ?thesis using assms by (auto simp: note_defs)
  next
    case (published n es' g' i)
    then show ?thesis using assms by (auto simp: note_defs)
  next
    case (returned n es' g' i err n' u ls1 ls2)
    have es: "es' = es" "g' = g"
      using assms retry_notes_bounds(1) [OF returned(5)] by (simp_all add: returned(1) pops_def)
    obtain rs fin where rs: "attempts u = map (\<lambda>r. (c, es, g, r)) rs @ map (\<lambda>r. (last_attempt, es, g, r)) fin"
      "rs \<noteq> []" "fate_told i es (last (rs @ fin)) ls2"
      using returned(5) unfolding retry_notes_def es by blast
    have att: "attempts (tick_notes m c w) = attempts u"
      by (simp add: returned(1) attempts_def)
    obtain c' where last: "last (attempts u) = (c', es, g, last (rs @ fin))"
      using rs(1,2) by (cases "fin = []") (simp_all add: last_map)
    show ?thesis
    proof (cases "last (rs @ fin)")
      case (Inl e)
      then have "reports_lost es (fst (tick m c w))"
        using rs(3) by (simp add: fate_told_def returned(4) reports_lost_append)
      then show ?thesis by blast
    next
      case (Inr b)
      then have "b \<or> logDroppedPair i es \<in> set (fst (tick m c w))"
        using rs(3) by (auto simp: fate_told_def returned(4))
      moreover have "attempts u \<noteq> []" using rs(1,2) by simp
      ultimately show ?thesis using last Inr att by auto
    qed
  qed (use assms in \<open>simp_all add: pops_def\<close>)
qed

text \<open>
  C6. No popped pair disappears silently: after a tick that popped entries, their match has been
  published with a nil error, or the last attempt to write them back returned \<open>true\<close>, or the log
  says that they were dropped because the gateway instance changed, or an error record of the
  log names them.
\<close>

theorem tick_pair_accounted:
  assumes "pops (tick_notes m c w) = [(c, Inr (es, g))]" and "es \<noteq> []"
  shows "(\<exists>i. publications (tick_notes m c w) = [(c, EventTypeMatchMade, match_payload i es, None)])
       \<or> (\<exists>c'. last (attempts (tick_notes m c w)) = (c', es, g, Inr True) \<and> attempts (tick_notes m c w) \<noteq> [])
       \<or> (\<exists>i. logDroppedPair i es \<in> set (fst (tick m c w)))
       \<or> reports_lost es (fst (tick m c w))"
  using tick_pair_accounted' [OF assms] by auto

lemma tick_pair_accounted_witness:
  "attempts (tick_notes (fixed_matcher (Inr (two_players, ''g1'')) (Some (ErrOther ''down''))
     (Inr True) False) SignalCtx ()) = [(SignalCtx, two_players, ''g1'', Inr True)]"
proof -
  let ?m = "fixed_matcher (Inr (two_players, ''g1'')) (Some (ErrOther ''down'')) (Inr True) False"
  have t: "attempts (tick_notes ?m SignalCtx ()) = [(SignalCtx, two_players, ''g1'', Inr True)]"
    "pops (tick_notes ?m SignalCtx ()) = [(SignalCtx, Inr (two_players, ''g1''))]"
    by (simp_all add: example_simps)
  moreover have "two_players \<noteq> []" by simp
  ultimately show ?thesis using tick_pair_accounted [of ?m SignalCtx "()" two_players "''g1''"] by simp
qed

section \<open>The breaker over a run of ticks\<close>

lemma circuit_after_append: "circuit_after (es @ es') c = circuit_after es (circuit_after es' c)"
  by (induction es) simp_all

lemma tick_history:
  "circuit (fst (snd (tick m c w))) = circuit_after (tick_events (tick_notes m c w)) (circuit m)"
  "length (tick_events (tick_notes m c w)) \<le> 3"
proof -
  obtain m' w' where run: "tick (recording m) c (w, []) = (fst (tick m c w), m', (w', tick_notes m c w))"
    and br: "circuit m' = circuit (fst (snd (tick m c w)))"
    by (rule tick_recorded)
  have "circuit m' = circuit_after (tick_events (tick_notes m c w)) (circuit m)
      \<and> length (tick_events (tick_notes m c w)) \<le> 3"
    using run by (cases rule: tick_shapes) (simp_all add: tick_events_def)
  then show "circuit (fst (snd (tick m c w))) = circuit_after (tick_events (tick_notes m c w)) (circuit m)"
    "length (tick_events (tick_notes m c w)) \<le> 3"
    using br by simp_all
qed

text \<open>
  \<open>k\<close> ticks one after another; between two of them \<open>env\<close> changes the world in any way. The
  result is the history of the breaker, the matcher and the world.
\<close>

fun run_ticks ::
  "(nat \<Rightarrow> 'w \<Rightarrow> 'w) \<Rightarrow> nat \<Rightarrow> 'w Matcher \<Rightarrow> go_ctx \<Rightarrow> 'w \<Rightarrow> circuit_event list \<times> 'w Matcher \<times> 'w" where
  "run_ticks env 0 m c w = ([], m, w)"
| "run_ticks env (Suc k) m c w =
    (case run_ticks env k m c w of (es, m1, w1) \<Rightarrow>
       (tick_events (tick_notes m1 c (env k w1)) @ es, snd (tick m1 c (env k w1))))"

lemma run_ticks_history:
  "run_ticks env k m c w = (es, m1, w1) \<Longrightarrow>
     circuit m1 = circuit_after es (circuit m) \<and> length es \<le> 3 * k"
proof (induction k arbitrary: es m1 w1)
  case (Suc k)
  obtain es0 m0 w0 where r: "run_ticks env k m c w = (es0, m0, w0)" using prod_cases3 by blast
  have "es = tick_events (tick_notes m0 c (env k w0)) @ es0" "m1 = fst (snd (tick m0 c (env k w0)))"
    using Suc.prems r by (auto simp: prod_eq_iff)
  then show ?case
    using Suc.IH [OF r] tick_history [of m0 c "env k w0"] by (simp add: circuit_after_append)
qed simp

text \<open>
  C13. The breaker gates the loop: after \<open>k\<close> ticks from the construction of the matcher, with any
  activity in between, the next tick at time \<open>n\<close> pops exactly when neither run of failures has
  reached the threshold or the cooldown has passed since the last failure that did; otherwise
  looking at the clock is all it does.
\<close>

theorem breaker_gates_ticks:
  assumes new: "matcher_New q p cl ids opts = Inr m" and bound: "CircuitCooldown opts \<le> max_duration"
    and k: "3 * k < 2 ^ 63" and run: "run_ticks env k m c w = (es, m1, w1)"
    and n: "hd (tick_notes m1 c w2) = CNow n"
  shows "(pops (tick_notes m1 c w2) \<noteq> []) =
           (pop_run es < nat (sint (CircuitThreshold opts)) \<and> publish_run es < nat (sint (CircuitThreshold opts))
            \<or> tripped_at (nat (sint (CircuitThreshold opts))) es + CircuitCooldown opts \<le> n)
       \<and> (pops (tick_notes m1 c w2) = []) = (tick_notes m1 c w2 = [CNow n])"
proof -
  have ok: "0 < sint (CircuitThreshold opts)" "0 < CircuitCooldown opts"
    and m: "circuit m = newCircuitBreaker (CircuitThreshold opts) (CircuitCooldown opts)"
    using new by (auto simp: matcher_New_def validate_Options_def word_sle_eq split: if_splits)
  have len: "length es < 2 ^ 63" and c1: "circuit m1 = circuit_after es (circuit m)"
    using run_ticks_history [OF run] k by linarith+
  have allow: "fst (fst (allowTick n (circuit m1))) =
      (pop_run es < nat (sint (CircuitThreshold opts)) \<and> publish_run es < nat (sint (CircuitThreshold opts))
       \<or> tripped_at (nat (sint (CircuitThreshold opts))) es + CircuitCooldown opts \<le> n)"
    unfolding c1 m by (rule allowTick_cooled [OF ok(1) len ok(2) bound])
  obtain m' w' where t: "tick (recording m1) c (w2, []) = (fst (tick m1 c w2), m', (w', tick_notes m1 c w2))"
    by (rule tick_recorded)
  show ?thesis
    unfolding allow [symmetric] using t n
    by (cases rule: tick_shapes) (simp_all add: pops_def)
qed

lemma breaker_gates_ticks_witness:
  "\<exists>m es m1. run_ticks (\<lambda>k w. w) 1 m SignalCtx () = (es, m1, ()) \<and> es = [PopFail 0, Allow 0]
     \<and> tick_notes m1 SignalCtx () = [CNow 0]"
proof -
  let ?f = "fixed_matcher (Inl (ErrOther ''down'')) None (Inr True) False"
  let ?o = "\<lparr>Interval = 1, CircuitThreshold = 1, CircuitCooldown = 1, DrainTimeout = 1\<rparr>"
  let ?m = "?f\<lparr>interval := 1, circuit := newCircuitBreaker 1 1, drainTimeout := 1\<rparr>"
  let ?m1 = "?m\<lparr>circuit := \<lparr>threshold = 1, cooldown = 1, popFailureCount = 1, publishFailureCount = 0,
      isOpen = True, openedAt = 0, hasLoggedSkip = False\<rparr>\<rparr>"
  have new: "matcher_New (queue ?f) (publisher ?f) (clock ?f) (matchIDs ?f) ?o = Inr ?m"
    by (simp add: matcher_New_def validate_Options_def word_sle_eq fixed_matcher_def)
  have run: "run_ticks (\<lambda>k w. w) 1 ?m SignalCtx () = ([PopFail 0, Allow 0], ?m1, ())"
    by (simp add: example_simps tick_events_def)
  have hd: "hd (tick_notes ?m1 SignalCtx ()) = CNow 0"
    by (simp add: example_simps time_sub_def min_duration_def max_duration_def)
  have "tick_notes ?m1 SignalCtx () = [CNow 0]"
    using breaker_gates_ticks [OF new _ _ run hd] by (auto simp: max_duration_def)
  with run show ?thesis by blast
qed

end
