(* ===== verification/MatcherQueue.thy ===== *)
theory MatcherQueue
  imports MatcherTrace QueueProps
begin

text \<open>
  The matcher on a queue that keeps its contract. The first part carries invariants of the world
  through a tick; the second works in the locale \<open>queue_contract\<close>; the last states the results
  for the Redis queue on any server that follows the laws of \<open>redis_server\<close>. Other activity
  (HTTP handlers, other clients of the server) may run whenever the tick calls its publisher, its
  clock or the source of match identifiers: these calls may change the world.
\<close>

section \<open>Invariants through a tick\<close>

text \<open>The calls other than those on the queue keep \<open>P\<close>.\<close>

definition env_keeps :: "('w \<Rightarrow> bool) \<Rightarrow> 'w Matcher \<Rightarrow> bool" where
  "env_keeps P m \<longleftrightarrow>
     (\<forall>w. P w \<longrightarrow> P (snd (Now (clock m) w)) \<and> P (snd (NewMatchID (matchIDs m) w))
        \<and> (\<forall>c d. P (snd (WaitOrDone (clock m) c d w))) \<and> (\<forall>c. P (snd (CtxErr (clock m) c w)))
        \<and> (\<forall>c ty p. P (snd (Publish (publisher m) c ty p w))))"

lemma env_keepsD:
  assumes "env_keeps P m" and "P w"
  shows "P (snd (Now (clock m) w))" "P (snd (NewMatchID (matchIDs m) w))"
    "P (snd (WaitOrDone (clock m) c d w))" "P (snd (CtxErr (clock m) c w))"
    "P (snd (Publish (publisher m) c ty p w))"
  using assms unfolding env_keeps_def by blast+

lemma env_keeps_circuit [simp]: "env_keeps P (m\<lparr>circuit := br\<rparr>) = env_keeps P m"
  by (simp add: env_keeps_def)

lemma bestEffort_keeps:
  assumes "\<And>w c. P w \<Longrightarrow> P (snd (Reenqueue (queue m) c es g w))" and "P w"
  shows "P (snd (bestEffortReenqueue m i es g w))"
  using assms(1) [OF assms(2)]
  by (simp add: bestEffortReenqueue_def Let_def case_prod_beta split: sum.split)

lemma reenqueue_from_keeps:
  assumes re: "\<And>w c. P w \<Longrightarrow> P (snd (Reenqueue (queue m) c es g w))" and env: "env_keeps P m"
  shows "P w \<Longrightarrow> P (snd (reenqueue_from m c i es g a b w))"
proof (induction "Suc reenqueueMaxAttempts - a" arbitrary: a b w)
  case 0
  then show ?case by (subst reenqueue_from.simps) simp
next
  case (Suc k)
  then have IH: "P w \<Longrightarrow> P (snd (reenqueue_from m c i es g (Suc a) (b * reenqueueBackoffFactor) w))" for w
    by simp
  note keeps = re [of w c, OF Suc.prems] env_keepsD [OF env] bestEffort_keeps [where P = P, OF re] IH
  show ?case
    by (subst reenqueue_from.simps)
      (simp add: Let_def case_prod_beta keeps Suc.prems split: sum.split)
qed

text \<open>
  \<open>P0\<close> holds up to the pop, \<open>P1\<close> from the pop on, and \<open>L es g\<close> says what the pop promises of the
  entries it returns.
\<close>

lemma retry_keeps:
  assumes "\<And>w c. P1 w \<Longrightarrow> P1 (snd (Reenqueue (queue m) c es g w))" and "env_keeps P1 m" and "P1 w"
  shows "P1 (snd (reenqueueWithRetry (m\<lparr>circuit := br\<rparr>) c i es g w))"
  unfolding reenqueueWithRetry_def
  by (rule reenqueue_from_keeps) (simp_all add: assms)

lemma publish_pair_keeps:
  assumes "\<And>w c. P1 w \<Longrightarrow> P1 (snd (Reenqueue (queue m) c es g w))" and "env_keeps P1 m" and "P1 w"
  shows "P1 (snd (snd (publish_pair (m\<lparr>circuit := br\<rparr>) c es g w)))"
  using env_keepsD [OF assms(2)] assms(3) retry_keeps [of P1 m es g, OF assms(1,2)]
  by (simp add: publish_pair_def record_publish_failure_def ToMatchMadeWire_eq Let_def case_prod_beta
      split: option.split)

lemma tick_keeps:
  assumes env0: "env_keeps P0 m" and env1: "env_keeps P1 m"
    and pop: "\<And>w. P0 w \<Longrightarrow> P1 (snd (PopPair (queue m) c w))"
    and popped: "\<And>w es g w'. P0 w \<Longrightarrow> PopPair (queue m) c w = (Inr (es, g), w') \<Longrightarrow> es \<noteq> [] \<Longrightarrow> L es g"
    and re: "\<And>w c es g. P1 w \<Longrightarrow> L es g \<Longrightarrow> P1 (snd (Reenqueue (queue m) c es g w))"
    and w: "P0 w"
  shows "P0 (snd (snd (tick m c w))) \<or> P1 (snd (snd (tick m c w)))"
proof -
  have n: "P0 (snd (Now (clock m) w))" using w by (rule env_keepsD [OF env0])
  have popd: "L es g" if "fst (PopPair (queue m) c (snd (Now (clock m) w))) = Inr (es, g)" "es \<noteq> []" for es g
    using popped [OF n _ that(2)] that(1) by (metis prod.collapse)
  have pub: "P1 (snd (snd (publish_pair (m\<lparr>circuit := br\<rparr>) c es g w1)))" if "L es g" "P1 w1" for es g w1 br
    by (rule publish_pair_keeps [OF _ env1 that(2)]) (rule re [OF _ that(1)])
  show ?thesis
    using n pop [OF n] env_keepsD [OF env1] popd
    by (simp add: tick_def Let_def case_prod_beta pub split: sum.split)
qed

section \<open>On a queue that keeps its contract\<close>

definition last_answer :: "call list \<Rightarrow> (QueueEntry list \<times> string \<times> bool) option" where
  "last_answer t =
     (if t = [] then None
      else case last t of CReenqueue c es g (Inr b) \<Rightarrow> Some (es, g, b) | _ \<Rightarrow> None)"

lemma last_answer_append [simp]:
  "last_answer (t @ [x]) = (case x of CReenqueue c es g (Inr b) \<Rightarrow> Some (es, g, b) | _ \<Rightarrow> None)"
  by (simp add: last_answer_def)

lemma last_answer_attempt:
  assumes "attempts (tick_notes m c w) \<noteq> []" and "last (attempts (tick_notes m c w)) = (c', es, g, Inr b)"
  shows "last_answer (tick_notes m c w) = Some (es, g, b)"
proof -
  obtain m' w' where run: "tick (recording m) c (w, []) = (fst (tick m c w), m', (w', tick_notes m c w))"
    by (rule tick_recorded)
  then show ?thesis
  proof (cases rule: tick_shapes)
    case (returned n es' g' i err n' u ls1 ls2)
    obtain rs fin where rs: "attempts u = map (\<lambda>r. (c, es', g', r)) rs @ map (\<lambda>r. (last_attempt, es', g', r)) fin"
      "rs \<noteq> []" "u \<noteq> []" "isl (last (rs @ fin)) \<or> (\<exists>c'. last u = CReenqueue c' es' g' (last (rs @ fin)))"
      using returned(5) unfolding retry_notes_def by blast
    have att: "attempts (tick_notes m c w) = attempts u" by (simp add: returned(1) attempts_def)
    have "es' = es \<and> g' = g \<and> last (rs @ fin) = Inr b"
      using assms(2) rs(1,2) unfolding att by (cases "fin = []") (simp_all add: last_map)
    with rs(3,4) show ?thesis by (auto simp: last_answer_def returned(1))
  qed (use assms(1) in \<open>simp_all add: attempts_def\<close>)
qed

text \<open>
  What a tick has done so far to the entries \<open>E\<close> (and the identifier \<open>g0\<close>) it found, by its notes:
  nothing before a pop that returned a pair; the first two entries gone after it, or back.
\<close>

definition popped_nothing :: "call list \<Rightarrow> bool" where
  "popped_nothing t \<longleftrightarrow> list_all (\<lambda>(c, r). case r of Inr (es, g) \<Rightarrow> es = [] | Inl err \<Rightarrow> False) (pops t)"

definition popped_some :: "call list \<Rightarrow> bool" where
  "popped_some t \<longleftrightarrow> list_ex (\<lambda>(c, r). case r of Inr (es, g) \<Rightarrow> es \<noteq> [] | Inl err \<Rightarrow> False) (pops t)"

definition popped_only :: "QueueEntry list \<Rightarrow> string \<Rightarrow> call list \<Rightarrow> bool" where
  "popped_only E g0 t \<longleftrightarrow>
     list_all (\<lambda>(c, r). case r of
         Inr (es, g) \<Rightarrow> if es = [] then length E < 2 else es = take 2 E \<and> 2 \<le> length E \<and> g = g0
       | Inl err \<Rightarrow> True) (pops t)"

lemmas popped_defs = popped_nothing_def popped_some_def popped_only_def

definition queue_so_far ::
  "QueueEntry list \<Rightarrow> string \<Rightarrow> QueueEntry list \<Rightarrow> call list \<Rightarrow> bool" where
  "queue_so_far E g0 now t \<longleftrightarrow>
     (now = E \<or> (2 \<le> length E \<and> now = drop 2 E))
     \<and> (popped_nothing t \<longrightarrow> now = E) \<and> popped_only E g0 t
     \<and> (popped_some t \<and> attempts t = [] \<longrightarrow> now = drop 2 E)
     \<and> (case last_answer t of None \<Rightarrow> True | Some (es, g, b) \<Rightarrow> b \<and> now = E)"

lemma notes_append: "pops (t @ u) = pops t @ pops u" "attempts (t @ u) = attempts t @ attempts u"
  by (simp_all add: pops_def attempts_def)

lemma notes_single:
  "pops [CPop c r] = [(c, r)]" "attempts [CPop c r] = []"
  "pops [CReenqueue c es g b] = []" "attempts [CReenqueue c es g b] = [(c, es, g, b)]"
  by (simp_all add: pops_def attempts_def)

lemma popped_other:
  "pops [x] = [] \<Longrightarrow> popped_nothing (t @ [x]) = popped_nothing t"
  "pops [x] = [] \<Longrightarrow> popped_some (t @ [x]) = popped_some t"
  "pops [x] = [] \<Longrightarrow> popped_only E g (t @ [x]) = popped_only E g t"
  by (simp_all add: popped_defs notes_append)

lemma so_far_start: "queue_so_far E g E []"
  by (simp add: queue_so_far_def popped_defs pops_def attempts_def last_answer_def)

lemma so_far_unpopped: "queue_so_far E g e t \<Longrightarrow> pops t = [] \<Longrightarrow> e = E"
  by (simp add: queue_so_far_def popped_nothing_def)

lemma so_far_other:
  "queue_so_far E g e t \<Longrightarrow> pops [x] = [] \<Longrightarrow> attempts [x] = [] \<Longrightarrow> queue_so_far E g e (t @ [x])"
  by (cases x) (auto simp: queue_so_far_def popped_other notes_append notes_single)

lemma so_far_pop:
  assumes "pops t = []" and "attempts t = []"
    and "case r of Inl err \<Rightarrow> e = E \<or> (2 \<le> length E \<and> e = drop 2 E)
         | Inr (es, g') \<Rightarrow> if es = [] then e = E \<and> length E < 2
             else es = take 2 E \<and> 2 \<le> length E \<and> g' = g \<and> e = drop 2 E"
  shows "queue_so_far E g e (t @ [CPop c r])"
  using assms
  by (auto simp: queue_so_far_def popped_defs notes_append notes_single split: sum.splits if_splits)

lemma so_far_back:
  assumes "queue_so_far E g e t" and "2 \<le> length E"
    and "case r of Inl err \<Rightarrow> e' = e \<or> e' = E | Inr b \<Rightarrow> b \<and> e' = E"
  shows "queue_so_far E g e' (t @ [CReenqueue c es g r])"
  using assms
  by (auto simp: queue_so_far_def popped_other notes_append notes_single split: sum.splits)

context queue_contract
begin

lemma tick_inv:
  assumes m: "queue m = Q" and env: "env_keeps inv m" and w: "inv w"
  shows "inv (snd (snd (tick m c w)))"
proof -
  have "inv (snd (snd (tick m c w))) \<or> inv (snd (snd (tick m c w)))"
    by (rule tick_keeps [where L = "\<lambda>es g. list_all writable es", OF env env _ _ _ w])
      (use m pop_inv popped_pair(5) reenqueue_inv in auto)
  then show ?thesis by blast
qed

text \<open>After a successful write-back both players wait, whatever else happened in the meantime.\<close>

lemma tick_requeued:
  assumes m: "queue m = Q" and env: "env_keeps inv m" and w: "inv w"
    and att: "attempts (tick_notes m c w) \<noteq> []" "last (attempts (tick_notes m c w)) = (c', es, g, Inr True)"
  shows "set es \<subseteq> set (entries (snd (snd (tick m c w))))"
proof -
  let ?J = "\<lambda>(w, t). inv w \<and> (\<forall>es g. last_answer t = Some (es, g, True) \<longrightarrow> set es \<subseteq> set (entries w))"
  let ?L = "\<lambda>es g. list_all writable es \<and> distinct (map PlayerID es) \<and> (\<forall>e \<in> set es. stored e = e)"
  have env': "env_keeps ?J (recording m)"
    using env by (simp add: env_keeps_def case_prod_beta)
  have "?J (snd (snd (tick (recording m) c (w, [])))) \<or> ?J (snd (snd (tick (recording m) c (w, []))))"
  proof (rule tick_keeps [where L = ?L, OF env' env'])
    fix v
    assume "?J v"
    then show "?J (snd (PopPair (queue (recording m)) c v))"
      using pop_inv m by (cases v) (simp add: case_prod_beta)
  next
    fix v es g v'
    assume "?J v" "PopPair (queue (recording m)) c v = (Inr (es, g), v')" "es \<noteq> []"
    then show "?L es g"
      using popped_pair(5-7) m by (cases v) (auto split: prod.splits)
  next
    fix v c es g
    assume v: "?J v" and L: "?L es g"
    obtain s t where st: "v = (s, t)" by fastforce
    obtain r s' where r: "Reenqueue Q c es g s = (r, s')" by fastforce
    have "inv s'" using reenqueue_inv [of s es c g] v L r st by simp
    moreover have "set es \<subseteq> set (entries s')" if "r = Inr True"
      using reenqueue_ok [of s es c g True s'] v L r st that requeue_keeps_all [of es] by auto
    ultimately show "?J (snd (Reenqueue (queue (recording m)) c es g v))"
      using r m st by (auto split: sum.splits)
  qed (use w in \<open>simp add: last_answer_def\<close>)
  then show ?thesis
    using last_answer_attempt [OF att] tick_recording_run(3) [of m c w "[]"]
    by (auto simp: tick_notes_def case_prod_beta)
qed

text \<open>Writing the popped pair back restores the entries, and does so again.\<close>

lemma requeue_restores:
  assumes w: "inv w" and E: "inv w0" "entries w0 = E" "2 \<le> length E"
    and now: "entries w = E \<or> entries w = drop 2 E"
  shows "requeue (take 2 E) (set (entries w)) = set E"
proof -
  have d: "distinct (map PlayerID E)" using unique [OF E(1)] E(2) by simp
  have st: "stored e = e" if "e \<in> set E" for e using exact_times [OF E(1)] E(2) that by simp
  have E12: "E = take 2 E @ drop 2 E" by simp
  have dt: "distinct (map PlayerID (take 2 E))" "PlayerID ` set (take 2 E) \<inter> PlayerID ` set (drop 2 E) = {}"
    using d by (metis E12 distinct_append map_append, metis E12 distinct_append map_append set_map)
  have "stored ` set (take 2 E) = set (take 2 E)"
    using st by (force dest: in_set_takeD)
  moreover have "{e \<in> set (drop 2 E). PlayerID e \<notin> PlayerID ` set (take 2 E)} = set (drop 2 E)"
    using dt(2) by auto
  moreover have "{e \<in> set E. PlayerID e \<notin> PlayerID ` set (take 2 E)} = set (drop 2 E)"
    using dt(2) by (subst E12) (auto simp del: append_take_drop_id)
  moreover have "set E = set (take 2 E) \<union> set (drop 2 E)" by (metis E12 set_append)
  ultimately show ?thesis using now by (auto simp: requeue_distinct [OF dt(1)])
qed

text \<open>
  With nothing else touching the queue during the tick: the waiting entries are afterwards what
  they were, or the first two are gone, and then they were published or their loss was reported
  (or the pop itself failed with its reply lost).
\<close>

lemma tick_queue_so_far:
  assumes m: "queue m = Q"
    and env: "\<And>E i. env_keeps (\<lambda>w. inv w \<and> entries w = E \<and> instance_of w = i) m" and w: "inv w"
  shows "queue_so_far (entries w) (id_text (instance_of w))
           (entries (snd (snd (tick m c w)))) (tick_notes m c w)"
proof -
  let ?E = "entries w" and ?g = "id_text (instance_of w)"
  let ?K = "\<lambda>(v, t). inv v \<and> instance_of v = instance_of w \<and> queue_so_far ?E ?g (entries v) t"
  let ?Pre = "\<lambda>(v, t). ?K (v, t) \<and> pops t = [] \<and> attempts t = []"
  let ?L = "\<lambda>es g. es = take 2 ?E \<and> 2 \<le> length ?E \<and> g = ?g"
  have env': "env_keeps (\<lambda>v. inv v \<and> entries v = e \<and> instance_of v = i) m" for e i by (rule env)
  have envK: "env_keeps ?K (recording m)" "env_keeps ?Pre (recording m)"
    using env' unfolding env_keeps_def
    by (auto simp: case_prod_beta so_far_other pops_def attempts_def)
  have "?Pre (snd (snd (tick (recording m) c (w, [])))) \<or> ?K (snd (snd (tick (recording m) c (w, []))))"
  proof (rule tick_keeps [where L = ?L, OF envK(2,1)])
    fix v
    assume v: "?Pre v"
    obtain s t where st: "v = (s, t)" by fastforce
    obtain r s' where r: "PopPair Q c s = (r, s')" by fastforce
    have E: "entries s = ?E" using v st so_far_unpopped [of ?E ?g "entries s" t] by simp
    have "queue_so_far ?E ?g (entries s') (t @ [CPop c r])"
    proof (rule so_far_pop)
      show "case r of Inl err \<Rightarrow> entries s' = ?E \<or> (2 \<le> length ?E \<and> entries s' = drop 2 ?E)
         | Inr (es, g') \<Rightarrow> if es = [] then entries s' = ?E \<and> length ?E < 2
             else es = take 2 ?E \<and> 2 \<le> length ?E \<and> g' = ?g \<and> entries s' = drop 2 ?E"
        using v st E pop_err [of s c] pop_ok [of s c] r
        by (auto split: sum.splits if_splits)
    qed (use v st in simp_all)
    then show "?K (snd (PopPair (queue (recording m)) c v))"
      using v st r m pop_inv [of s c] by simp
  next
    fix v es g v'
    assume v: "?Pre v" and r: "PopPair (queue (recording m)) c v = (Inr (es, g), v')" "es \<noteq> []"
    obtain s t where st: "v = (s, t)" by fastforce
    obtain s' where "PopPair Q c s = (Inr (es, g), s')" using r m st by (auto split: prod.splits)
    moreover have "entries s = ?E" using v st so_far_unpopped [of ?E ?g "entries s" t] by simp
    ultimately show "?L es g" using popped_pair(1-3) [of s c es g s'] v st r(2) by simp
  next
    fix v c es g
    assume v: "?K v" and L: "?L es g"
    obtain s t where st: "v = (s, t)" by fastforce
    obtain r s' where r: "Reenqueue Q c es g s = (r, s')" by fastforce
    have inv: "inv s" "instance_of s = instance_of w" and so: "queue_so_far ?E ?g (entries s) t"
      using v st by simp_all
    have wr: "list_all writable es" using L entries_writable [OF w] by (auto simp: list_all_iff dest: in_set_takeD)
    have inv': "inv s'" "instance_of s' = instance_of w"
      using reenqueue_inv [OF inv(1) wr, of c g] r inv(2) by simp_all
    have "requeue es (set (entries s)) = set ?E"
      using requeue_restores [OF inv(1) w refl] L so by (auto simp: queue_so_far_def)
    then have restored: "set (entries s') = requeue es (set (entries s)) \<Longrightarrow> entries s' = ?E"
      using same_entries [OF inv'(1) w] by simp
    have "case r of Inl err \<Rightarrow> entries s' = entries s \<or> entries s' = ?E | Inr b \<Rightarrow> b \<and> entries s' = ?E"
    proof (cases r)
      case (Inl err)
      have "entries s' = entries s \<or> entries s' = ?E"
        using reenqueue_err [OF inv(1) wr r [unfolded Inl]] restored by blast
      then show ?thesis by (simp add: Inl)
    next
      case (Inr b)
      have "b" using conjunct1 [OF reenqueue_ok [OF inv(1) wr r [unfolded Inr]]] L inv(2) by simp
      then have "b \<and> entries s' = ?E"
        using reenqueue_ok [OF inv(1) wr r [unfolded Inr]] restored by simp
      then show ?thesis by (simp add: Inr)
    qed
    then have "queue_so_far ?E ?g (entries s') (t @ [CReenqueue c es ?g r])"
      using so_far_back [OF so] L by blast
    then show "?K (snd (Reenqueue (queue (recording m)) c es g v))"
      using r m st L inv' by simp
  qed (use w so_far_start in \<open>simp add: pops_def attempts_def\<close>)
  then show ?thesis
    using tick_recording_run(3) [of m c w "[]"] by (auto simp: tick_notes_def case_prod_beta)
qed

lemma tick_outcome:
  assumes m: "queue m = Q"
    and env: "\<And>E i. env_keeps (\<lambda>w. inv w \<and> entries w = E \<and> instance_of w = i) m" and w: "inv w"
  shows "if entries (snd (snd (tick m c w))) = entries w
         then list_all (\<lambda>(c', ty, p, r). r \<noteq> None) (publications (tick_notes m c w))
         else 2 \<le> length (entries w) \<and> entries (snd (snd (tick m c w))) = drop 2 (entries w)
           \<and> ((\<exists>i. publications (tick_notes m c w) =
                    [(c, EventTypeMatchMade, match_payload i (take 2 (entries w)), None)])
              \<or> reports_lost (take 2 (entries w)) (fst (tick m c w))
              \<or> (\<exists>err. pops (tick_notes m c w) = [(c, Inl err)]))"
proof -
  let ?E = "entries w" and ?E' = "entries (snd (snd (tick m c w)))" and ?t = "tick_notes m c w"
  note so = tick_queue_so_far [OF m env w, of c]
  have E': "?E' = ?E \<or> (2 \<le> length ?E \<and> ?E' = drop 2 ?E)"
    and none: "popped_nothing ?t \<Longrightarrow> ?E' = ?E" and only: "popped_only ?E (id_text (instance_of w)) ?t"
    and took: "popped_some ?t \<Longrightarrow> attempts ?t = [] \<Longrightarrow> ?E' = drop 2 ?E"
    and last: "case last_answer ?t of None \<Rightarrow> True | Some (es, g, b) \<Rightarrow> b \<and> ?E' = ?E"
    using so by (simp_all add: queue_so_far_def)
  have ne: "2 \<le> length ?E \<Longrightarrow> drop 2 ?E \<noteq> ?E"
    by (rule notI, drule arg_cong [where f = length]) simp
  obtain m' w' where run: "tick (recording m) c (w, []) = (fst (tick m c w), m', (w', ?t))"
    by (rule tick_recorded)
  then show ?thesis
  proof (cases rule: tick_shapes)
    case (skipped n)
    then show ?thesis using none by (simp add: popped_nothing_def note_defs)
  next
    case (pop_failed n err n')
    then show ?thesis using E' by (auto simp: note_defs)
  next
    case (unpaired n es g)
    then have "es = [] \<or> (es = take 2 ?E \<and> 2 \<le> length ?E)"
      using only by (auto simp: popped_only_def pops_def)
    then have "es = []" using unpaired(2) by (auto simp: MatchPlayerCount_def)
    then show ?thesis using none unpaired by (simp add: popped_nothing_def note_defs)
  next
    case (published n es g i)
    then have "es \<noteq> []" by (auto simp: MatchPlayerCount_def)
    then have es: "es = take 2 ?E" "2 \<le> length ?E" and "?E' = drop 2 ?E"
      using only took published by (simp_all add: popped_only_def popped_some_def note_defs)
    then show ?thesis using published ne by (auto simp: note_defs)
  next
    case (returned n es g i err n' u ls1 ls2)
    then have nz: "es \<noteq> []" by (auto simp: MatchPlayerCount_def)
    have pops: "pops ?t = [(c, Inr (es, g))]"
      and pubs: "publications ?t = [(c, EventTypeMatchMade, match_payload i es, Some err)]"
      using returned(1) retry_notes_bounds(1,2) [OF returned(5)] by (simp_all add: note_defs)
    have es: "es = take 2 ?E" using only pops nz by (simp add: popped_only_def)
    have "?E' = ?E \<or> reports_lost es (fst (tick m c w))"
    proof (rule ccontr)
      assume contr: "\<not> ?thesis"
      from tick_pair_accounted' [OF pops nz] pubs contr
      obtain c' b where a: "attempts ?t \<noteq> []" "last (attempts ?t) = (c', es, g, Inr b)"
        by auto
      from last_answer_attempt [OF this] last contr show False by simp
    qed
    then show ?thesis using E' es pubs by auto
  qed
qed

end

section \<open>Properties\<close>

text \<open>
  An example: the Redis queue of the reference server, a publisher that always answers \<open>pub\<close>, and
  a clock that reads the server's.
\<close>

definition ref_matcher :: "go_error option \<Rightarrow> ref_world Matcher" where
  "ref_matcher pub =
    \<lparr>queue = NewRedisQueue ref_redis, publisher = \<lparr>Publish = (\<lambda>c ty p w. (pub, w))\<rparr>,
     clock = \<lparr>Now = (\<lambda>w. (rw_now w, w)), WaitOrDone = (\<lambda>c d w. (False, w)), CtxErr = (\<lambda>c w. (False, w))\<rparr>,
     matchIDs = \<lparr>NewMatchID = (\<lambda>w. (''m1'', w))\<rparr>,
     interval = second, circuit = newCircuitBreaker 3 second, drainTimeout = second\<rparr>"

lemma ref_matcher [simp]:
  "queue (ref_matcher pub) = NewRedisQueue ref_redis" "env_keeps P (ref_matcher pub)"
  by (simp_all add: ref_matcher_def env_keeps_def)

lemma two_waiting_pop:
  obtains es g w1 w2 where "redis_PopPair ref_redis SignalCtx two_waiting = (Inr (es, g), w1)"
    "es = queue_entries (ref_view two_waiting)" "length es = 2" "es \<noteq> []"
    "redis_Reenqueue ref_redis SignalCtx es g w1 = (Inr True, w2)"
proof -
  obtain es g w1 where r: "redis_PopPair ref_redis SignalCtx two_waiting = (Inr (es, g), w1)"
    and net1: "rw_net w1 = []"
    using ref_pop_runs [OF two_waiting(1,2)] by blast
  have "length es = 2" "es = queue_entries (ref_view two_waiting)"
    using ref.PopPair_cases [OF two_waiting(2) r] two_waiting(5) by simp_all
  then have ne: "es \<noteq> []" by auto
  have r': "PopPair (NewRedisQueue ref_redis) SignalCtx two_waiting = (Inr (es, g), w1)"
    using r by (simp add: NewRedisQueue_def)
  have wr: "list_all writable es"
    using queue_contract.popped_pair(5) [OF ref.contract two_waiting(2) r' ne] .
  obtain b w2 where b: "redis_Reenqueue ref_redis SignalCtx es g w1 = (Inr b, w2)"
    using ref_reenqueue_runs [OF net1 wr] by blast
  then have "Reenqueue (NewRedisQueue ref_redis) SignalCtx es g w1 = (Inr b, w2)"
    by (simp add: NewRedisQueue_def)
  from queue_contract.reenqueue_puts_back [OF ref.contract two_waiting(2) r' ne this] b
  have "redis_Reenqueue ref_redis SignalCtx es g w1 = (Inr True, w2)" by simp
  from that [OF r \<open>es = _\<close> \<open>length es = 2\<close> ne this] show thesis .
qed

lemmas ref_matcher_simps = ref_matcher_def NewRedisQueue_def



text \<open>
  C8. When the publication of a popped pair fails and a write-back succeeds, both players wait
  again after the tick with their original data and join time, whatever other clients did to the
  queue during the retries.
\<close>

theorem tick_requeues_players:
  assumes "redis_server R alpha" and "queue m = NewRedisQueue R"
    and "env_keeps (\<lambda>s. queue_inv (alpha s)) m" and "queue_inv (alpha s)"
    and "attempts (tick_notes m c s) \<noteq> []" and "last (attempts (tick_notes m c s)) = (c', es, g, Inr True)"
  shows "set es \<subseteq> set (queue_entries (alpha (snd (snd (tick m c s)))))
       \<and> pops (tick_notes m c s) = [(c, Inr (es, g))]"
proof -
  obtain es' g' err i rs fin where t: "pops (tick_notes m c s) = [(c, Inr (es', g'))]"
    "attempts (tick_notes m c s) = map (\<lambda>r. (c, es', g', r)) rs
       @ map (\<lambda>r. (WithTimeout Background (2 * second), es', g', r)) fin"
    using tick_attempts [OF assms(5)] by blast
  have "(c', es, g, Inr True) \<in> set (attempts (tick_notes m c s))"
    using last_in_set [OF assms(5)] assms(6) by simp
  then have "es' = es" "g' = g" unfolding t(2) by auto
  then show ?thesis
    using t(1) queue_contract.tick_requeued [OF redis_server.contract [OF assms(1)] assms(2-6)] by simp
qed

lemma tick_requeues_players_witness:
  "\<exists>g. attempts (tick_notes (ref_matcher (Some (ErrOther ''down''))) SignalCtx two_waiting)
        = [(SignalCtx, queue_entries (ref_view two_waiting), g, Inr True)]
     \<and> PlayerID ` set (queue_entries (ref_view two_waiting)) \<subseteq>
        PlayerID ` set (queue_entries (ref_view
          (snd (snd (tick (ref_matcher (Some (ErrOther ''down''))) SignalCtx two_waiting)))))"
proof -
  let ?m = "ref_matcher (Some (ErrOther ''down''))"
  obtain es g w1 w2 where r: "redis_PopPair ref_redis SignalCtx two_waiting = (Inr (es, g), w1)"
    "es = queue_entries (ref_view two_waiting)" "length es = 2" "es \<noteq> []"
    "redis_Reenqueue ref_redis SignalCtx es g w1 = (Inr True, w2)"
    by (rule two_waiting_pop)
  have a: "attempts (tick_notes ?m SignalCtx two_waiting) = [(SignalCtx, es, g, Inr True)]"
    using r(1,3-5) by (simp add: ref_matcher_simps example_simps)
  have "set es \<subseteq> set (queue_entries (ref_view (snd (snd (tick ?m SignalCtx two_waiting)))))"
    using conjunct1 [OF tick_requeues_players [OF ref.redis_server_axioms, of ?m two_waiting SignalCtx SignalCtx es g]] a
    by (simp add: two_waiting(2))
  then show ?thesis using a r(2) by blast
qed

text \<open>
  C1. When nothing else touches the queue during a tick, the tick either leaves the waiting
  entries as they were, in the same order, and has published nothing, or it has removed exactly
  the two that joined first, and then their match was published with a nil error, or their loss
  is in the log, or the reply of the pop itself was lost.
\<close>

theorem tick_matches_fifo:
  assumes "redis_server R alpha" and "queue m = NewRedisQueue R"
    and "\<And>E i. env_keeps (\<lambda>s. queue_inv (alpha s) \<and> queue_entries (alpha s) = E \<and> stored_instance (alpha s) = i) m"
    and "queue_inv (alpha s)"
  shows "if queue_entries (alpha (snd (snd (tick m c s)))) = queue_entries (alpha s)
         then list_all (\<lambda>(c', ty, p, r). r \<noteq> None) (publications (tick_notes m c s))
         else 2 \<le> length (queue_entries (alpha s))
           \<and> queue_entries (alpha (snd (snd (tick m c s)))) = drop 2 (queue_entries (alpha s))
           \<and> ((\<exists>i. publications (tick_notes m c s) =
                    [(c, EventTypeMatchMade, match_payload i (take 2 (queue_entries (alpha s))), None)])
              \<or> reports_lost (take 2 (queue_entries (alpha s))) (fst (tick m c s))
              \<or> (\<exists>err. pops (tick_notes m c s) = [(c, Inl err)]))"
  by (rule queue_contract.tick_outcome [OF redis_server.contract [OF assms(1)] assms(2-4)])

lemma tick_matches_fifo_witness:
  "queue_entries (ref_view (snd (snd (tick (ref_matcher None) SignalCtx two_waiting)))) = []
   \<and> publications (tick_notes (ref_matcher None) SignalCtx two_waiting) =
       [(SignalCtx, EventTypeMatchMade, match_payload ''m1'' (queue_entries (ref_view two_waiting)), None)]"
proof -
  let ?m = "ref_matcher None"
  obtain es g w1 w2 where r: "redis_PopPair ref_redis SignalCtx two_waiting = (Inr (es, g), w1)"
    "es = queue_entries (ref_view two_waiting)" "length es = 2" "es \<noteq> []"
    "redis_Reenqueue ref_redis SignalCtx es g w1 = (Inr True, w2)"
    by (rule two_waiting_pop)
  have p: "publications (tick_notes ?m SignalCtx two_waiting) =
      [(SignalCtx, EventTypeMatchMade, match_payload ''m1'' es, None)]"
    using r(1,3,4) by (simp add: ref_matcher_simps example_simps match_payload_def)
  have "env_keeps P ?m" for P by simp
  from tick_matches_fifo [OF ref.redis_server_axioms _ this two_waiting(2), of SignalCtx] p two_waiting(5)
  have "queue_entries (ref_view (snd (snd (tick ?m SignalCtx two_waiting)))) = []"
    by (auto split: if_splits)
  then show ?thesis using p r(2) by simp
qed

end
