(* ===== verification/Progress.thy ===== *)
theory Progress
  imports MatcherQueue
begin

text \<open>
  Many ticks on the Redis queue when everything works: while no call of a tick fails, the waiting
  players are matched in the order in which they joined, two per tick, until fewer than two wait.
\<close>

text \<open>\<open>k\<close> ticks one after another, with their notes.\<close>

fun tick_seq :: "nat \<Rightarrow> 'w Matcher \<Rightarrow> go_ctx \<Rightarrow> 'w \<Rightarrow> call list list \<times> 'w Matcher \<times> 'w" where
  "tick_seq 0 m c w = ([], m, w)"
| "tick_seq (Suc k) m c w =
    (case tick_seq k m c w of (ts, m1, w1) \<Rightarrow> (ts @ [tick_notes m1 c w1], snd (tick m1 c w1)))"

text \<open>No pop and no publication of the tick failed.\<close>

definition healthy :: "call list \<Rightarrow> bool" where
  "healthy t \<longleftrightarrow> list_all (\<lambda>(c, r). \<not> isl r) (pops t) \<and> list_all (\<lambda>(c, ty, p, r). r = None) (publications t)"

text \<open>The publication of the \<open>k\<close>-th pair of the entries \<open>E\<close>, if there is one.\<close>

definition publishes_pair :: "go_ctx \<Rightarrow> QueueEntry list \<Rightarrow> nat \<Rightarrow> call list \<Rightarrow> bool" where
  "publishes_pair c E k t \<longleftrightarrow>
     (if 2 * k + 1 < length E
      then \<exists>i. publications t = [(c, EventTypeMatchMade, match_payload i (take 2 (drop (2 * k) E)), None)]
      else publications t = [])"

section \<open>One tick\<close>

text \<open>A tick changes nothing of the matcher but the breaker.\<close>

lemma record_failure_circuit: "\<exists>br. fst (snd (record_publish_failure m w)) = m\<lparr>circuit := br\<rparr>"
  by (auto simp: record_publish_failure_def Let_def case_prod_beta)

lemma publish_pair_circuit: "\<exists>br. fst (snd (publish_pair m c es g w)) = m\<lparr>circuit := br\<rparr>"
  using record_failure_circuit [of m]
  by (auto simp: publish_pair_def ToMatchMadeWire_eq Let_def case_prod_beta split: option.split)

lemma tick_circuit: "\<exists>br. fst (snd (tick m c w)) = m\<lparr>circuit := br\<rparr>"
proof -
  have p: "\<exists>br. fst (snd (publish_pair (m\<lparr>circuit := b\<rparr>) c es g v)) = m\<lparr>circuit := br\<rparr>" for b es g v
    using publish_pair_circuit [of "m\<lparr>circuit := b\<rparr>" c es g v] by auto
  show ?thesis
    using p by (auto simp: tick_def Let_def case_prod_beta split: sum.split)
qed

lemma closed_stays:
  "\<not> isOpen c \<Longrightarrow> fst (fst (allowTick n c)) \<and> \<not> isOpen (circuit_after [PopOk, Allow n] c)
     \<and> \<not> isOpen (circuit_after [PublishOk, PopOk, Allow n] c)"
  by (simp add: allowTick_def circuit_defs)

context queue_contract
begin

lemma healthy_tick:
  assumes m: "queue m = Q" and closed: "\<not> isOpen (circuit m)"
    and env: "\<And>E i. env_keeps (\<lambda>w. inv w \<and> entries w = E \<and> instance_of w = i) m" and w: "inv w"
    and ok: "healthy (tick_notes m c w)"
  shows "publishes_pair c (entries w) 0 (tick_notes m c w)
     \<and> entries (snd (snd (tick m c w))) = (if length (entries w) < 2 then entries w else drop 2 (entries w))
     \<and> \<not> isOpen (circuit (fst (snd (tick m c w))))"
proof -
  let ?E = "entries w" and ?E' = "entries (snd (snd (tick m c w)))" and ?t = "tick_notes m c w"
  have only: "popped_only ?E (id_text (instance_of w)) ?t" and none: "popped_nothing ?t \<Longrightarrow> ?E' = ?E"
    and took: "popped_some ?t \<Longrightarrow> attempts ?t = [] \<Longrightarrow> ?E' = drop 2 ?E"
    using tick_queue_so_far [OF m env w, of c] by (simp_all add: queue_so_far_def)
  obtain m' w' where run: "tick (recording m) c (w, []) = (fst (tick m c w), m', (w', ?t))"
    and br: "circuit m' = circuit (fst (snd (tick m c w)))" by (rule tick_recorded)
  from run show ?thesis
  proof (cases rule: tick_shapes)
    case (skipped n)
    then show ?thesis using closed_stays [OF closed] by blast
  next
    case (pop_failed n err n')
    then show ?thesis using ok by (simp add: healthy_def pops_def)
  next
    case (unpaired n es g)
    then have "es = []" using only by (auto simp: popped_only_def pops_def MatchPlayerCount_def split: if_splits)
    then show ?thesis
      using only none unpaired closed_stays [OF closed, of n] br
      by (simp add: popped_only_def popped_nothing_def publishes_pair_def note_defs)
  next
    case (published n es g i)
    then have "es \<noteq> []" by (auto simp: MatchPlayerCount_def)
    then have "es = take 2 ?E" "2 \<le> length ?E" "?E' = drop 2 ?E"
      using only took published by (simp_all add: popped_only_def popped_some_def note_defs)
    then show ?thesis
      using published closed_stays [OF closed, of n] br by (auto simp: publishes_pair_def note_defs)
  next
    case (returned n es g i err n' u ls1 ls2)
    then show ?thesis using ok by (simp add: healthy_def publications_def)
  qed
qed

lemma healthy_ticks:
  assumes m: "queue m = Q" and closed: "\<not> isOpen (circuit m)"
    and env: "\<And>E i. env_keeps (\<lambda>w. inv w \<and> entries w = E \<and> instance_of w = i) m"
    and env_inv: "env_keeps inv m" and w: "inv w"
  shows "tick_seq k m c w = (ts, m1, w1) \<Longrightarrow> list_all healthy ts \<Longrightarrow>
     inv w1 \<and> (\<exists>br. m1 = m\<lparr>circuit := br\<rparr>) \<and> \<not> isOpen (circuit m1) \<and> length ts = k
     \<and> entries w1 = drop (2 * min k (length (entries w) div 2)) (entries w)
     \<and> (\<forall>j < k. publishes_pair c (entries w) j (ts ! j))"
proof (induction k arbitrary: ts m1 w1)
  case 0
  then show ?case using closed w by (auto intro: exI [of _ "circuit m"])
next
  case (Suc k)
  obtain ts0 m0 w0 where r: "tick_seq k m c w = (ts0, m0, w0)" by (metis prod_cases3)
  have ts: "ts = ts0 @ [tick_notes m0 c w0]" and m1: "m1 = fst (snd (tick m0 c w0))" "w1 = snd (snd (tick m0 c w0))"
    using Suc.prems(1) r by auto
  have IH: "inv w0" "\<exists>br. m0 = m\<lparr>circuit := br\<rparr>" "\<not> isOpen (circuit m0)" "length ts0 = k"
    "entries w0 = drop (2 * min k (length (entries w) div 2)) (entries w)"
    "\<forall>j < k. publishes_pair c (entries w) j (ts0 ! j)"
    using Suc.IH [OF r] Suc.prems(2) ts by simp_all
  have m0: "queue m0 = Q" "env_keeps inv m0"
    "env_keeps (\<lambda>w. inv w \<and> entries w = E \<and> instance_of w = i) m0" for E i
    using IH(2) m env env_inv by auto
  have h: "healthy (tick_notes m0 c w0)" using Suc.prems(2) ts by simp
  note step = healthy_tick [OF m0(1) IH(3) m0(3) IH(1) h]
  have "inv w1" unfolding m1 by (rule tick_inv [OF m0(1,2) IH(1)])
  moreover have "\<exists>br. m1 = m\<lparr>circuit := br\<rparr>"
    using tick_circuit [of m0 c w0] IH(2) m1(1) by auto
  moreover have "entries w1 = drop (2 * min (Suc k) (length (entries w) div 2)) (entries w)"
  proof (cases "Suc k \<le> length (entries w) div 2")
    case True
    then show ?thesis using step IH(5) m1(2) by (auto simp: min_def)
  next
    case False
    then have "min k (length (entries w) div 2) = length (entries w) div 2"
      "min (Suc k) (length (entries w) div 2) = length (entries w) div 2" by simp_all
    moreover have "length (drop (2 * (length (entries w) div 2)) (entries w)) < 2" by simp
    ultimately show ?thesis using step IH(5) m1(2) by simp
  qed
  moreover have "publishes_pair c (entries w) k (tick_notes m0 c w0)"
  proof (cases "2 * k + 1 < length (entries w)")
    case True
    then have "min k (length (entries w) div 2) = k" by simp
    then have "entries w0 = drop (2 * k) (entries w)" "2 \<le> length (entries w0)" using IH(5) True by simp_all
    with True conjunct1 [OF step] show ?thesis by (simp add: publishes_pair_def)
  next
    case False
    then have "length (entries w0) < 2" using IH(5) by (auto simp: min_def)
    with False step show ?thesis by (auto simp: publishes_pair_def)
  qed
  ultimately show ?case
    using step IH(4,6) ts m1(1) by (auto simp: nth_append less_Suc_eq)
qed

end

section \<open>Properties\<close>

lemma env_keeps_view:
  assumes "\<And>st. env_keeps (\<lambda>s. alpha s = st) m"
  shows "env_keeps (\<lambda>s. P (alpha s)) m"
  unfolding env_keeps_def
proof (intro allI impI)
  fix w
  assume "P (alpha w)"
  with env_keepsD [OF assms [of "alpha w"] refl]
  show "P (alpha (snd (Now (clock m) w))) \<and> P (alpha (snd (NewMatchID (matchIDs m) w)))
      \<and> (\<forall>c d. P (alpha (snd (WaitOrDone (clock m) c d w)))) \<and> (\<forall>c. P (alpha (snd (CtxErr (clock m) c w))))
      \<and> (\<forall>c ty p. P (alpha (snd (Publish (publisher m) c ty p w))))"
    by simp
qed

text \<open>
  C7. When everything works, everyone is matched, in the order of joining: \<open>k\<close> ticks of a matcher
  with a closed breaker, none of whose calls fails and during which nobody joins or leaves, publish
  the first \<open>k\<close> pairs of the queue, one per tick and in order, and leave the rest, so after half as
  many ticks as players at most one still waits.
\<close>

theorem healthy_ticks_match_in_order:
  assumes "redis_server R alpha" and "queue m = NewRedisQueue R" and "\<not> isOpen (circuit m)"
    and "\<And>st. env_keeps (\<lambda>s. alpha s = st) m" and "queue_inv (alpha s)"
    and "tick_seq k m c s = (ts, m1, s1)" and "list_all healthy ts"
  shows "queue_entries (alpha s1) = drop (2 * min k (length (queue_entries (alpha s)) div 2)) (queue_entries (alpha s))
    \<and> length ts = k \<and> (\<forall>j < k. publishes_pair c (queue_entries (alpha s)) j (ts ! j))
    \<and> (length (queue_entries (alpha s)) div 2 \<le> k \<longrightarrow> length (queue_entries (alpha s1)) \<le> 1)"
proof -
  have env: "env_keeps (\<lambda>s. queue_inv (alpha s) \<and> queue_entries (alpha s) = E \<and> stored_instance (alpha s) = i) m" for E i
    by (rule env_keeps_view [OF assms(4)])
  have env_inv: "env_keeps (\<lambda>s. queue_inv (alpha s)) m"
    by (rule env_keeps_view [OF assms(4)])
  show ?thesis
    using queue_contract.healthy_ticks [OF redis_server.contract [OF assms(1)] assms(2,3) env env_inv assms(5-7)]
    by auto
qed

lemma healthy_ticks_match_in_order_witness:
  "queue_entries (ref_view (snd (snd (tick_seq 1 (ref_matcher None) SignalCtx two_waiting)))) = []"
proof -
  let ?m = "ref_matcher None"
  obtain es g w1 w2 where r: "redis_PopPair ref_redis SignalCtx two_waiting = (Inr (es, g), w1)"
    "es = queue_entries (ref_view two_waiting)" "length es = 2" "es \<noteq> []"
    "redis_Reenqueue ref_redis SignalCtx es g w1 = (Inr True, w2)"
    by (rule two_waiting_pop)
  have p: "publications (tick_notes ?m SignalCtx two_waiting) =
      [(SignalCtx, EventTypeMatchMade, match_payload ''m1'' es, None)]"
    "pops (tick_notes ?m SignalCtx two_waiting) = [(SignalCtx, Inr (es, g))]"
    using r(1,3,4) by (simp_all add: ref_matcher_simps example_simps match_payload_def)
  then have h: "list_all healthy (fst (tick_seq 1 ?m SignalCtx two_waiting))"
    by (simp add: healthy_def)
  obtain ts m1 s1 where t: "tick_seq 1 ?m SignalCtx two_waiting = (ts, m1, s1)" by (metis prod_cases3)
  have "\<not> isOpen (circuit ?m)" by (simp add: ref_matcher_def newCircuitBreaker_def)
  from healthy_ticks_match_in_order [OF ref.redis_server_axioms _ this _ two_waiting(2) t] h two_waiting(5)
  show ?thesis unfolding t by simp
qed

end
