(* ===== verification/System.thy ===== *)
theory System
  imports Activity Progress
begin

text \<open>
  The service as a whole: the HTTP interface and the matcher on one queue. Requests are answered
  between two ticks and at every call that a tick makes to its clock, its publisher or its source of
  match identifiers, so between any two of its calls on the queue. The world of the matcher is the
  service's world beside the events of the HTTP interface so far.
\<close>

section \<open>Histories\<close>

text \<open>Every call of a tick other than those on the queue is a step \<open>act\<close> of the world.\<close>

definition env_does :: "('v \<Rightarrow> 'v \<Rightarrow> bool) \<Rightarrow> 'v Matcher \<Rightarrow> bool" where
  "env_does act m \<longleftrightarrow>
     (\<forall>v. act v (snd (Now (clock m) v)) \<and> act v (snd (NewMatchID (matchIDs m) v))
        \<and> (\<forall>c d. act v (snd (WaitOrDone (clock m) c d v))) \<and> (\<forall>c. act v (snd (CtxErr (clock m) c v)))
        \<and> (\<forall>c ty p. act v (snd (Publish (publisher m) c ty p v))))"

lemma env_does_circuit [simp]: "env_does act (m\<lparr>circuit := br\<rparr>) = env_does act m"
  by (simp add: env_does_def)

lemma env_does_keeps:
  "env_does act m \<Longrightarrow> (\<And>v v'. act v v' \<Longrightarrow> P v \<Longrightarrow> P v') \<Longrightarrow> env_keeps P m"
  unfolding env_does_def env_keeps_def by blast

lemma env_does_recording:
  assumes "env_does act m"
    and "\<And>v v' t x. act v v' \<Longrightarrow> P (v, t) \<Longrightarrow> pops [x] = [] \<Longrightarrow> attempts [x] = [] \<Longrightarrow> P (v', t @ [x])"
  shows "env_keeps P (recording m)"
  using assms(1) unfolding env_keeps_def env_does_def
  by (auto simp: case_prod_beta pops_def attempts_def intro!: assms(2))

text \<open>
  A history: ticks of the matcher and steps of the world in any order, with the log records and the
  notes of every tick, newest first.
\<close>

inductive history ::
  "('v \<Rightarrow> 'v \<Rightarrow> bool) \<Rightarrow> go_ctx \<Rightarrow> 'v Matcher \<Rightarrow> 'v \<Rightarrow> 'v Matcher \<Rightarrow> 'v \<Rightarrow> (log list \<times> call list) list \<Rightarrow> bool"
  for act c m0 v0 where
  start: "history act c m0 v0 m0 v0 []"
| other: "history act c m0 v0 m v ts \<Longrightarrow> act v v' \<Longrightarrow> history act c m0 v0 m v' ts"
| tick: "history act c m0 v0 m v ts \<Longrightarrow>
     history act c m0 v0 (fst (snd (tick m c v))) (snd (snd (tick m c v)))
       ((fst (tick m c v), tick_notes m c v) # ts)"

text \<open>The players whose match a tick published with Pub/Sub's acknowledgement, by its notes.\<close>

definition popped_players :: "call list \<Rightarrow> string list" where
  "popped_players t =
     concat (map (\<lambda>(c, r). case r of Inr (es, g) \<Rightarrow> map PlayerID es | Inl err \<Rightarrow> []) (pops t))"

definition matched_in :: "call list \<Rightarrow> string list" where
  "matched_in t = (if list_ex (\<lambda>(c, ty, p, r). r = None) (publications t) then popped_players t else [])"

definition matched :: "(log list \<times> call list) list \<Rightarrow> string list" where
  "matched ts = concat (map (\<lambda>(ls, t). matched_in t) ts)"

definition pop_failed_in :: "call list \<Rightarrow> bool" where
  "pop_failed_in t = list_ex (\<lambda>(c, r). isl r) (pops t)"

text \<open>A record that says that the player was lost, or dropped with a stale pair.\<close>

definition told :: "string \<Rightarrow> log list \<Rightarrow> bool" where
  "told p = list_ex (\<lambda>l.
     (log_lvl l = LevelError \<or> log_msg l = ''matcher dropped stale pair instead of re-enqueueing'')
     \<and> list_ex (\<lambda>(k, a). case a of AStrs ps \<Rightarrow> k = ''players'' \<and> p \<in> set ps | _ \<Rightarrow> False) (log_attrs l))"

lemma told_dropped: "logDroppedPair i es \<in> set ls \<Longrightarrow> p \<in> PlayerID ` set es \<Longrightarrow> told p ls"
  by (auto simp: told_def list_ex_iff logDroppedPair_def collectPlayerIDs_def intro!: bexI)

lemma told_lost: "reports_lost es ls \<Longrightarrow> p \<in> PlayerID ` set es \<Longrightarrow> told p ls"
  unfolding reports_lost_def told_def list_ex_iff
  by (erule bexE, rule bexI, intro conjI disjI1, erule conjunct1, rule bexI, erule_tac [2] conjunct2)
    (simp_all add: collectPlayerIDs_def)

lemma popped_append: "popped_players (t @ u) = popped_players t @ popped_players u"
  by (simp add: popped_players_def notes_append)

lemma popped_pop: "popped_players [CPop c r] = (case r of Inr (es, g) \<Rightarrow> map PlayerID es | Inl err \<Rightarrow> [])"
  by (simp add: popped_players_def pops_def)

lemma popped_other_call: "pops [x] = [] \<Longrightarrow> popped_players [x] = []"
  by (simp add: popped_players_def)

lemma pop_failed_append: "pop_failed_in (t @ u) \<longleftrightarrow> pop_failed_in t \<or> pop_failed_in u"
  by (simp add: pop_failed_in_def notes_append)

lemma tick_pops: "pops (tick_notes m c w) = [] \<or> (\<exists>r. pops (tick_notes m c w) = [(c, r)])"
proof (rule tick_recorded [of m c w])
  fix m' w'
  assume "tick (recording m) c (w, []) = (fst (tick m c w), m', (w', tick_notes m c w))"
  then show ?thesis
  proof (cases rule: tick_shapes)
    case (returned n es g i err n' u ls1 ls2)
    then show ?thesis using retry_notes_bounds(1) [OF returned(5)] by (simp add: pops_def)
  qed (simp_all add: pops_def)
qed

text \<open>Matched, or lost and told so, or a pop failed whose reply may have been lost.\<close>

definition accounted :: "(log list \<times> call list) list \<Rightarrow> string \<Rightarrow> bool" where
  "accounted ts p \<longleftrightarrow> p \<in> set (matched ts) \<or> list_ex (\<lambda>(ls, t). told p ls \<or> pop_failed_in t) ts"

lemma accounted_Cons:
  "accounted ((ls, t) # ts) p \<longleftrightarrow> p \<in> set (matched_in t) \<or> told p ls \<or> pop_failed_in t \<or> accounted ts p"
  by (auto simp: accounted_def matched_def)

lemma recorded_end:
  "snd (snd (tick (recording m) c (w, []))) = (snd (snd (tick m c w)), tick_notes m c w)"
  by (simp add: prod_eq_iff tick_notes_def tick_recording_run)

lemma tick_retried:
  assumes "attempts (tick_notes m c w) \<noteq> []"
  shows "matched_in (tick_notes m c w) = []"
    and "list_all (\<lambda>(c', es, g, r). map PlayerID es = popped_players (tick_notes m c w)) (attempts (tick_notes m c w))"
  using tick_attempts [OF assms] by (auto simp: matched_in_def popped_players_def list_all_iff)

text \<open>
  The count through a tick: a popped player is in hand, and counts beside the \<open>k\<close> entries that wait,
  until the pair is written back; from then on one enqueue is still left for each of its players.
\<close>

definition held :: "call list \<Rightarrow> string \<Rightarrow> nat \<Rightarrow> nat" where
  "held t p k =
     (if attempts t = [] then count_list (popped_players t) p + k else max (count_list (popped_players t) p) k)"

definition writes_back_popped :: "call list \<Rightarrow> bool" where
  "writes_back_popped t = list_all (\<lambda>(c, es, g, r). map PlayerID es = popped_players t) (attempts t)"

lemma held_nil [simp]: "held [] p k = k" "writes_back_popped []"
  by (simp_all add: held_def writes_back_popped_def attempts_def popped_players_def pops_def)

lemma matched_in_le: "count_list (matched_in t) p \<le> count_list (popped_players t) p"
  by (simp add: matched_in_def)

lemma held_mono: "a + held t p k \<le> j \<Longrightarrow> j \<le> j' \<Longrightarrow> k' + j \<le> k + j' \<Longrightarrow> a + held t p k' \<le> j'"
  by (auto simp: held_def split: if_splits)

context queue_contract
begin

lemma activity_waits:
  assumes same: "\<And>w w'. same w w' \<Longrightarrow> inv w \<Longrightarrow> inv w' \<and> entries w' = entries w \<and> instance_of w' = instance_of w"
    and act: "activity G verify circ Q same v v'" and v: "inv (fst v)"
  shows "inv (fst v')" and "joins (snd v) p \<le> joins (snd v') p"
    and "waits_in (entries (fst v')) p + joins (snd v) p \<le> waits_in (entries (fst v)) p + joins (snd v') p"
proof -
  obtain new where new: "inv (fst v')" "snd v' = new @ snd v" "accords new (view (fst v)) (view (fst v'))"
    using activity_accords [OF same act v] by blast
  show "inv (fst v')" "joins (snd v) p \<le> joins (snd v') p" using new(1,2) by simp_all
  show "waits_in (entries (fst v')) p + joins (snd v) p \<le> waits_in (entries (fst v)) p + joins (snd v') p"
    using accordsD(1) [OF new(3), of p] new(1,2) waits_for_eq [OF v, of p] waits_for_eq [OF new(1), of p]
    by (auto simp: waiting_players_def split: if_splits)
qed

definition in_balance :: "string list \<Rightarrow> ('w \<times> event list) \<times> call list \<Rightarrow> bool" where
  "in_balance M = (\<lambda>(v, t). inv (fst v)
     \<and> (writes_back_popped t \<longrightarrow>
         (\<forall>p. count_list M p + held t p (waits_in (entries (fst v)) p) \<le> joins (snd v) p)))"

lemma in_balance_activity:
  assumes same: "\<And>w w'. same w w' \<Longrightarrow> inv w \<Longrightarrow> inv w' \<and> entries w' = entries w \<and> instance_of w' = instance_of w"
    and act: "activity G verify circ Q same v v'" and b: "in_balance M (v, t)"
    and x: "pops [x] = []" "attempts [x] = []"
  shows "in_balance M (v', t @ [x])"
proof -
  have inv: "inv (fst v)" using b by (simp add: in_balance_def)
  note w = activity_waits [OF same act inv]
  have n: "popped_players (t @ [x]) = popped_players t" "attempts (t @ [x]) = attempts t"
    using x by (simp_all add: popped_append popped_other_call notes_append)
  have h: "held (t @ [x]) = held t" "writes_back_popped (t @ [x]) = writes_back_popped t"
    by (simp_all add: fun_eq_iff held_def writes_back_popped_def n)
  show ?thesis
    using b w(1) held_mono [OF _ w(2,3)] by (simp add: in_balance_def h)
qed

lemma in_balance_pop:
  assumes b: "in_balance M (v, t)" and t: "pops t = []" "attempts t = []"
    and r: "PopPair Q c (fst v) = (r, w')"
  shows "in_balance M ((w', snd v), t @ [CPop c r])"
proof -
  have inv: "inv (fst v)" "inv w'" using b pop_inv [of "fst v" c] r by (auto simp: in_balance_def)
  have n: "attempts (t @ [CPop c r]) = []" "popped_players t = []"
    "popped_players (t @ [CPop c r]) = (case r of Inr (es, g) \<Rightarrow> map PlayerID es | Inl err \<Rightarrow> [])"
    using t by (simp_all add: notes_append notes_single popped_append popped_pop popped_players_def [of t])
  have "count_list (popped_players (t @ [CPop c r])) p + waits_in (entries w') p \<le> waits_in (entries (fst v)) p" for p
  proof (cases r)
    case (Inl err)
    then have "popped_players (t @ [CPop c r]) = []" using n(3) by simp
    then show ?thesis
      using pop_err [OF inv(1) r [unfolded Inl]] count_take_drop [of 2 "map PlayerID (entries (fst v))" p]
      by (auto simp: waits_in_def drop_map)
  next
    case (Inr eg)
    obtain es g where eg: "eg = (es, g)" by fastforce
    have "map PlayerID es @ map PlayerID (entries w') = map PlayerID (entries (fst v))"
      using pop_ok [OF inv(1) r [unfolded Inr eg]] by (auto simp flip: map_append split: if_splits)
    then show ?thesis by (metis Inr eg n(3) waits_in_def count_list_append old.prod.case order_refl sum.case(2))
  qed
  then have "a + held (t @ [CPop c r]) p (waits_in (entries w') p) \<le> j"
    if "a + held t p (waits_in (entries (fst v)) p) \<le> j" for a p j
    using that t(2) by (simp add: held_def n(1,2)) (meson add_le_mono order_refl order_trans)
  then show ?thesis using b inv(2) t(2) by (simp add: in_balance_def writes_back_popped_def n(1))
qed

lemma in_balance_reenqueue:
  assumes b: "in_balance M (v, t)" and wr: "list_all writable es"
    and r: "Reenqueue Q c es g (fst v) = (r, w')"
  shows "in_balance M ((w', snd v), t @ [CReenqueue c es g r])"
proof -
  let ?t = "t @ [CReenqueue c es g r]"
  have inv: "inv (fst v)" "inv w'" using b reenqueue_inv [OF _ wr, of "fst v" c g] r by (auto simp: in_balance_def)
  have n: "attempts ?t = attempts t @ [(c, es, g, r)]" "popped_players ?t = popped_players t"
    by (simp_all add: notes_append notes_single popped_append popped_other_call)
  have "count_list M p + held ?t p (waits_in (entries w') p) \<le> joins (snd v) p"
    if "writes_back_popped ?t" for p
  proof -
    have es: "map PlayerID es = popped_players t" and t: "writes_back_popped t"
      using that by (simp_all add: writes_back_popped_def n)
    have "waits_in (entries w') p \<le> max (count_list (popped_players t) p) (waits_in (entries (fst v)) p)"
      using reenqueue_players [OF inv(1) wr, of c g] r waits_for_eq [OF inv(1), of p] waits_for_eq [OF inv(2), of p]
        count_pos [of p "map PlayerID es"] es by auto
    moreover have "count_list M p + held t p (waits_in (entries (fst v)) p) \<le> joins (snd v) p"
      using b t by (simp add: in_balance_def)
    ultimately show ?thesis by (auto simp: held_def n split: if_splits)
  qed
  then show ?thesis using inv(2) by (simp add: in_balance_def)
qed

lemma tick_balance:
  assumes m: "queue m = beside Q" and env: "env_does (activity G verify circ Q same) m"
    and same: "\<And>w w'. same w w' \<Longrightarrow> inv w \<Longrightarrow> inv w' \<and> entries w' = entries w \<and> instance_of w' = instance_of w"
    and b: "in_balance M (v, [])"
  shows "in_balance (matched_in (tick_notes m c v) @ M) (snd (snd (tick m c v)), [])"
proof -
  let ?K = "in_balance M" and ?t = "tick_notes m c v"
  let ?Pre = "\<lambda>(v, t). ?K (v, t) \<and> pops t = [] \<and> attempts t = []"
  have envK: "env_keeps ?K (recording m)" "env_keeps ?Pre (recording m)"
    by (rule env_does_recording [OF env], auto simp: notes_append intro: in_balance_activity [OF same])+
  have "?Pre (snd (snd (tick (recording m) c (v, [])))) \<or> ?K (snd (snd (tick (recording m) c (v, []))))"
  proof (rule tick_keeps [where L = "\<lambda>es g. list_all writable es", OF envK(2,1)])
    fix x assume x: "?Pre x"
    then show "?K (snd (PopPair (queue (recording m)) c x))"
      using in_balance_pop [of M "fst x" "snd x" c] m
      by (cases x) (auto simp: case_prod_beta beside_snd)
  next
    fix x es g x'
    assume x: "?Pre x" and r: "PopPair (queue (recording m)) c x = (Inr (es, g), x')" "es \<noteq> []"
    obtain w' where "PopPair Q c (fst (fst x)) = (Inr (es, g), w')"
      using r m by (cases x; cases "fst x") (auto split: prod.splits)
    then show "list_all writable es"
      using popped_pair(5) x r(2) by (auto simp: in_balance_def)
  next
    fix x c' es g
    assume x: "?K x" and wr: "list_all writable es"
    then show "?K (snd (Reenqueue (queue (recording m)) c' es g x))"
      using in_balance_reenqueue [of M "fst x" "snd x" es c' g] m
      by (cases x) (auto simp: case_prod_beta beside_snd)
  qed (use b in \<open>simp add: pops_def attempts_def\<close>)
  then have K: "?K (snd (snd (tick m c v)), tick_notes m c v)"
    by (auto simp: recorded_end)
  show ?thesis
  proof (cases "attempts (tick_notes m c v) = []")
    case True
    have "count_list (matched_in ?t @ M) p + k \<le> j" if "count_list M p + held ?t p k \<le> j" for p k j
      using that matched_in_le [of ?t p] True by (simp add: held_def)
    then show ?thesis using K True by (simp add: in_balance_def writes_back_popped_def)
  next
    case False
    have "count_list (matched_in ?t @ M) p + k \<le> j" if "count_list M p + held ?t p k \<le> j" for p k j
      using that False tick_retried(1) [OF False] by (auto simp: held_def split: if_splits)
    then show ?thesis using K tick_retried(2) [OF False] by (simp add: in_balance_def writes_back_popped_def)
  qed
qed

lemma history_balance:
  assumes same: "\<And>w w'. same w w' \<Longrightarrow> inv w \<Longrightarrow> inv w' \<and> entries w' = entries w \<and> instance_of w' = instance_of w"
    and m0: "queue m0 = beside Q" "env_does (activity G verify circ Q same) m0"
    and w0: "inv w0" "entries w0 = []"
    and h: "history (activity G verify circ Q same) c m0 (w0, []) m v ts"
  shows "(\<exists>br. m = m0\<lparr>circuit := br\<rparr>) \<and> in_balance (matched ts) (v, [])"
  using h
proof induction
  case start
  show ?case
    using w0 by (auto simp: in_balance_def matched_def waits_in_def intro: exI [of _ "circuit m0"])
next
  case (other m v ts v')
  then have b: "in_balance (matched ts) (v, [])" by simp
  then have "in_balance (matched ts) (v', [] @ [CNow 0])"
    by (intro in_balance_activity [OF same other.hyps(2)]) (simp_all add: pops_def attempts_def)
  then show ?case using other.IH
    by (simp add: in_balance_def held_def writes_back_popped_def attempts_def popped_players_def pops_def)
next
  case (tick m v ts)
  then obtain br where m: "m = m0\<lparr>circuit := br\<rparr>" and b: "in_balance (matched ts) (v, [])" by auto
  obtain br' where "fst (snd (tick m c v)) = m\<lparr>circuit := br'\<rparr>" using tick_circuit [of m c v] by blast
  moreover have "in_balance (matched_in (tick_notes m c v) @ matched ts) (snd (snd (tick m c v)), [])"
    by (rule tick_balance [OF _ _ same b]) (use m m0 in simp_all)
  ultimately show ?case using m by (auto simp: matched_def)
qed

text \<open>
  Nobody vanishes, through a tick: with one gateway instance \<open>g\<close>, everyone who is expected waits, is
  one of \<open>A\<close> (accounted for before the tick), is in the tick's hand, or a pop of the tick failed.
\<close>

definition in_sight :: "string \<Rightarrow> string set \<Rightarrow> ('w \<times> event list) \<times> call list \<Rightarrow> bool" where
  "in_sight g A = (\<lambda>(v, t). inv (fst v)
     \<and> (\<forall>p. one_instance g (snd v) \<longrightarrow> expected p (snd v) \<longrightarrow>
          instance_of (fst v) = Some g
          \<and> (p \<in> waiting_players (entries (fst v)) \<or> p \<in> A \<or> p \<in> set (popped_players t) \<or> pop_failed_in t)))"

lemma in_sight_activity:
  assumes same: "\<And>w w'. same w w' \<Longrightarrow> inv w \<Longrightarrow> inv w' \<and> entries w' = entries w \<and> instance_of w' = instance_of w"
    and act: "activity G verify circ Q same v v'" and b: "in_sight g A (v, t)"
    and x: "pops [x] = []"
  shows "in_sight g A (v', t @ [x])"
proof -
  have inv: "inv (fst v)" using b by (simp add: in_sight_def)
  obtain new where new: "inv (fst v')" "snd v' = new @ snd v" "accords new (view (fst v)) (view (fst v'))"
    using activity_accords [OF same act inv] by blast
  have n: "popped_players (t @ [x]) = popped_players t" "pop_failed_in (t @ [x]) = pop_failed_in t"
    using x by (simp_all add: popped_append popped_other_call pop_failed_append) (simp add: pop_failed_in_def)
  have "instance_of (fst v') = Some g
      \<and> (p \<in> waiting_players (entries (fst v')) \<or> p \<in> A \<or> p \<in> set (popped_players t) \<or> pop_failed_in t)"
    if "one_instance g (snd v')" "expected p (snd v')" for p
  proof (cases "expected p new")
    case True
    then show ?thesis using accordsD(4) [OF new(3), of g p] that new(2) by simp
  next
    case False
    then have "TakenOut p \<notin> set new" "expected p (snd v)" "one_instance g new" "one_instance g (snd v)"
      using that new(2) by simp_all
    then show ?thesis
      using b accordsD(2) [OF new(3), of g] accordsD(3) [OF new(3), of g p] by (auto simp: in_sight_def)
  qed
  then show ?thesis using new(1) by (simp add: in_sight_def n)
qed

lemma in_sight_pop:
  assumes b: "in_sight g A (v, t)" and r: "PopPair Q c (fst v) = (r, w')"
  shows "in_sight g A ((w', snd v), t @ [CPop c r])"
proof -
  have inv: "inv (fst v)" "inv w'" "instance_of w' = instance_of (fst v)"
    using b pop_inv [of "fst v" c] r by (auto simp: in_sight_def)
  have "p \<in> waiting_players (entries w') \<or> p \<in> set (popped_players [CPop c r]) \<or> pop_failed_in [CPop c r]"
    if "p \<in> waiting_players (entries (fst v))" for p
  proof (cases r)
    case (Inl err)
    then show ?thesis by (simp add: pop_failed_in_def pops_def)
  next
    case (Inr eg)
    obtain es h where eg: "eg = (es, h)" by fastforce
    have "entries (fst v) = es @ entries w'"
      using pop_ok [OF inv(1) r [unfolded Inr eg]] by (auto split: if_splits)
    then show ?thesis using that by (auto simp: Inr eg popped_pop waiting_players_def)
  qed
  then show ?thesis
    using b inv(2,3) by (auto simp: in_sight_def popped_append pop_failed_append)
qed

lemma in_sight_reenqueue:
  assumes b: "in_sight g A (v, t)" and wr: "list_all writable es"
    and r: "Reenqueue Q c es h (fst v) = (r, w')"
  shows "in_sight g A ((w', snd v), t @ [CReenqueue c es h r])"
proof -
  have inv: "inv (fst v)" "inv w'" "instance_of w' = instance_of (fst v)"
    using b reenqueue_inv [OF _ wr, of "fst v" c h] r by (auto simp: in_sight_def)
  have "set (entries w') = requeue es (set (entries (fst v))) \<or> set (entries w') = set (entries (fst v))"
    using reenqueue_ok [OF inv(1) wr, of c h] reenqueue_err [OF inv(1) wr, of c h] r
    by (cases r) (fastforce split: if_splits)+
  then have "waiting_players (entries (fst v)) \<subseteq> waiting_players (entries w')"
    using requeue_players [of es "set (entries (fst v))"] by (auto simp: waiting_players_def)
  then show ?thesis
    using b inv(2,3)
    by (auto simp: in_sight_def popped_append pop_failed_append popped_other_call notes_single)
qed

lemma tick_in_sight:
  assumes m: "queue m = beside Q" and env: "env_does (activity G verify circ Q same) m"
    and same: "\<And>w w'. same w w' \<Longrightarrow> inv w \<Longrightarrow> inv w' \<and> entries w' = entries w \<and> instance_of w' = instance_of w"
    and b: "in_sight g A (v, [])"
  shows "in_sight g A (snd (snd (tick m c v)), tick_notes m c v)"
proof -
  let ?K = "in_sight g A"
  have envK: "env_keeps ?K (recording m)"
    by (rule env_does_recording [OF env]) (rule in_sight_activity [OF same])
  have "?K (snd (snd (tick (recording m) c (v, [])))) \<or> ?K (snd (snd (tick (recording m) c (v, []))))"
  proof (rule tick_keeps [where L = "\<lambda>es g. list_all writable es", OF envK envK])
    fix x assume x: "?K x"
    then show "?K (snd (PopPair (queue (recording m)) c x))"
      using in_sight_pop [of g A "fst x" "snd x" c] m
      by (cases x) (auto simp: case_prod_beta beside_snd)
  next
    fix x es h x'
    assume x: "?K x" and r: "PopPair (queue (recording m)) c x = (Inr (es, h), x')" "es \<noteq> []"
    obtain w' where "PopPair Q c (fst (fst x)) = (Inr (es, h), w')"
      using r m by (cases x; cases "fst x") (auto split: prod.splits)
    then show "list_all writable es"
      using popped_pair(5) x r(2) by (auto simp: in_sight_def)
  next
    fix x c' es h
    assume x: "?K x" and wr: "list_all writable es"
    then show "?K (snd (Reenqueue (queue (recording m)) c' es h x))"
      using in_sight_reenqueue [of g A "fst x" "snd x" es c' h] m
      by (cases x) (auto simp: case_prod_beta beside_snd)
  qed (rule b)
  then show ?thesis by (auto simp: recorded_end)
qed

lemma tick_hand_accounted:
  assumes m: "queue m = beside Q" and env: "env_does (activity G verify circ Q same) m"
    and same: "\<And>w w'. same w w' \<Longrightarrow> inv w \<Longrightarrow> inv w' \<and> entries w' = entries w \<and> instance_of w' = instance_of w"
    and v: "inv (fst v)" and p: "p \<in> set (popped_players (tick_notes m c v))"
  shows "p \<in> set (matched_in (tick_notes m c v)) \<or> told p (fst (tick m c v))
     \<or> p \<in> waiting_players (entries (fst (snd (snd (tick m c v)))))"
proof -
  let ?t = "tick_notes m c v"
  obtain es g where pops: "pops ?t = [(c, Inr (es, g))]" and es: "p \<in> PlayerID ` set es"
    using p tick_pops [of m c v] by (auto simp: popped_players_def split: sum.splits)
  have pp: "popped_players ?t = map PlayerID es" by (simp add: popped_players_def pops)
  have "es \<noteq> []" using es by auto
  from tick_pair_accounted' [OF pops this] show ?thesis
  proof (elim disjE exE conjE)
    fix i assume "publications ?t = [(c, EventTypeMatchMade, match_payload i es, None)]"
    then show ?thesis using p by (simp add: matched_in_def)
  next
    fix c' b
    assume att: "attempts ?t \<noteq> []" "last (attempts ?t) = (c', es, g, Inr b)" and b
    have "env_keeps (\<lambda>v. inv (fst v)) m"
      by (rule env_does_keeps [OF env]) (rule activity_waits(1) [OF same])
    from queue_contract.tick_requeued [OF beside_contract m this v att(1)] att(2) \<open>b\<close>
    have "set es \<subseteq> set (entries (fst (snd (snd (tick m c v)))))" by simp
    then show ?thesis using es by (auto simp: waiting_players_def)
  next
    fix c' b i assume "logDroppedPair i es \<in> set (fst (tick m c v))"
    then show ?thesis using told_dropped es by blast
  next
    assume "reports_lost es (fst (tick m c v))"
    then show ?thesis using told_lost es by blast
  qed
qed

lemma history_in_sight:
  assumes same: "\<And>w w'. same w w' \<Longrightarrow> inv w \<Longrightarrow> inv w' \<and> entries w' = entries w \<and> instance_of w' = instance_of w"
    and m0: "queue m0 = beside Q" "env_does (activity G verify circ Q same) m0" and w0: "inv w0"
    and h: "history (activity G verify circ Q same) c m0 (w0, []) m v ts"
  shows "(\<exists>br. m = m0\<lparr>circuit := br\<rparr>) \<and> in_sight g {p. accounted ts p} (v, [])"
  using h
proof induction
  case start
  show ?case using w0 by (auto simp: in_sight_def intro: exI [of _ "circuit m0"])
next
  case (other m v ts v')
  then have "in_sight g {p. accounted ts p} (v', [] @ [CNow 0])"
    by (intro in_sight_activity [OF same other.hyps(2)]) (simp_all add: pops_def)
  then show ?case using other.IH
    by (simp add: in_sight_def popped_players_def pop_failed_in_def pops_def)
next
  case (tick m v ts)
  then obtain br where m: "m = m0\<lparr>circuit := br\<rparr>" and b: "in_sight g {p. accounted ts p} (v, [])" by auto
  obtain br' where br': "fst (snd (tick m c v)) = m\<lparr>circuit := br'\<rparr>" using tick_circuit [of m c v] by blast
  have "in_sight g {p. accounted ts p} (snd (snd (tick m c v)), tick_notes m c v)"
    by (rule tick_in_sight [OF _ _ same b]) (use m m0 in simp_all)
  moreover have "accounted ((fst (tick m c v), tick_notes m c v) # ts) p
      \<or> p \<in> waiting_players (entries (fst (snd (snd (tick m c v)))))"
    if "p \<in> set (popped_players (tick_notes m c v))" for p
    using tick_hand_accounted [OF _ _ same _ that] m m0 b by (auto simp: accounted_Cons in_sight_def)
  ultimately have "in_sight g {p. accounted ((fst (tick m c v), tick_notes m c v) # ts) p} (snd (snd (tick m c v)), [])"
    by (auto simp: in_sight_def accounted_Cons)
  then show ?case using m br' by auto
qed

end

section \<open>An example\<close>

text \<open>Two players join, and one tick matches them.\<close>

definition example_matcher :: "(ref_world \<times> event list) Matcher" where
  "example_matcher =
    \<lparr>queue = beside (NewRedisQueue ref_redis), publisher = \<lparr>Publish = (\<lambda>c ty p v. (None, v))\<rparr>,
     clock = \<lparr>Now = (\<lambda>v. (rw_now (fst v), v)), WaitOrDone = (\<lambda>c d v. (False, v)), CtxErr = (\<lambda>c v. (False, v))\<rparr>,
     matchIDs = \<lparr>NewMatchID = (\<lambda>v. (''m1'', v))\<rparr>,
     interval = second, circuit = newCircuitBreaker 3 second, drainTimeout = second\<rparr>"

abbreviation example_activity :: "ref_world \<times> event list \<Rightarrow> ref_world \<times> event list \<Rightarrow> bool" where
  "example_activity \<equiv> activity example_gin (\<lambda>rq. Inr (rq_body rq)) (\<lambda>w. False) (NewRedisQueue ref_redis)
     (\<lambda>s s'. ref_view s' = ref_view s)"

lemma example_matcher_env:
  "queue example_matcher = beside (NewRedisQueue ref_redis)" "env_does example_activity example_matcher"
  by (auto simp: example_matcher_def env_does_def intro: activity.idle)

lemma example_join:
  assumes "rw_net w = []" and "validateMemberPlayerID p = None" and "example_activity v (w, evs)"
  shows "example_activity v (after_enqueue p ''g1'' w, Joined p ''g1'' True # evs)"
proof -
  obtain k where k: "redis_Enqueue ref_redis RequestCtx p 1 ''Ann'' 2 ''g1'' w = (Inr k, after_enqueue p ''g1'' w)"
    using ref_enqueue_runs(1) [OF assms(1,2), of "''g1''"] by auto
  let ?rq = "post ''/internal/v1/enqueue'' p"
  obtain ls where "NewRouter example_gin (\<lambda>rq. Inr (rq_body rq)) (service (NewRedisQueue ref_redis) (\<lambda>w. False)) ?rq w
      = Some (respond 202 NoBody, ls, after_enqueue p ''g1'' w)"
    using k by (simp add: handle_Enqueue_def example_gin_def not_blank_ascii minDeckID_def service_def
        redis_handler_def [symmetric] del: is_blank_ascii)
  from activity.request [OF assms(3) this]
  show ?thesis by (simp add: request_events_def post_def example_gin_def)
qed

lemma example_joined:
  "example_activity (example_world, []) (two_waiting, [Joined ''b'' ''g1'' True, Joined ''a'' ''g1'' True])"
proof -
  have v: "validateMemberPlayerID ''a'' = None" "validateMemberPlayerID ''b'' = None"
    by (simp_all add: validate_None_iff)
  have net: "rw_net example_world = []" by (simp add: example_world_def)
  have "example_activity (example_world, []) (after_enqueue ''a'' ''g1'' example_world, [Joined ''a'' ''g1'' True])"
    by (rule example_join [OF net v(1) activity.idle])
  from example_join [OF ref_enqueue_runs(2) [OF net v(1), of "''g1''"] v(2) this]
  show ?thesis by (simp add: two_waiting_def)
qed

lemma example_history:
  obtains m s ls t where
    "history example_activity SignalCtx example_matcher (example_world, []) m
       (s, [Joined ''b'' ''g1'' True, Joined ''a'' ''g1'' True]) [(ls, t)]"
    "set (matched [(ls, t)]) = {''a'', ''b''}"
proof -
  let ?evs = "[Joined ''b'' ''g1'' True, Joined ''a'' ''g1'' True]" and ?m = example_matcher
  have h: "history example_activity SignalCtx ?m (example_world, []) ?m (two_waiting, ?evs) []"
    by (rule history.other [OF history.start]) (rule example_joined)
  obtain es g w1 w2 where r: "redis_PopPair ref_redis SignalCtx two_waiting = (Inr (es, g), w1)"
    "es = queue_entries (ref_view two_waiting)" "length es = 2" "es \<noteq> []"
    "redis_Reenqueue ref_redis SignalCtx es g w1 = (Inr True, w2)"
    by (rule two_waiting_pop)
  let ?v = "(two_waiting, ?evs)"
  have "pops (tick_notes ?m SignalCtx ?v) = [(SignalCtx, Inr (es, g))]"
    "publications (tick_notes ?m SignalCtx ?v) = [(SignalCtx, EventTypeMatchMade, match_payload ''m1'' es, None)]"
    using r(1,3,4) by (simp_all add: example_matcher_def NewRedisQueue_def example_simps match_payload_def)
  then have ms: "set (matched [(fst (tick ?m SignalCtx ?v), tick_notes ?m SignalCtx ?v)]) = {''a'', ''b''}"
    using two_waiting(4) r(2) by (simp add: matched_def matched_in_def popped_players_def)
  have snd: "snd (snd (snd (tick ?m SignalCtx ?v))) = ?evs"
    using r(1,3,4) by (simp add: example_matcher_def NewRedisQueue_def example_simps)
  show thesis
    using history.tick [OF h] snd
    by (intro that [of "fst (snd (tick ?m SignalCtx ?v))" "fst (snd (snd (tick ?m SignalCtx ?v)))", OF _ ms])
      (metis prod.collapse)
qed

section \<open>Histories on the Redis queue\<close>

lemma redis_history_balance:
  assumes "redis_server R alpha" and "keys_ok (alpha s0)" and "zset (alpha s0) queueKey = []"
    and "queue m0 = beside (NewRedisQueue R)"
    and "env_does (activity G verify circ (NewRedisQueue R) (\<lambda>s s'. alpha s' = alpha s)) m0"
    and "history (activity G verify circ (NewRedisQueue R) (\<lambda>s s'. alpha s' = alpha s)) c m0 (s0, []) m v ts"
  shows "count_list (matched ts) p + (if p \<in> waiting_players (queue_entries (alpha (fst v))) then 1 else 0)
       \<le> joins (snd v) p"
proof -
  note C = redis_server.contract [OF assms(1)]
  have s0: "queue_inv (alpha s0)" "queue_entries (alpha s0) = []"
    using assms(2,3) by (simp_all add: queue_inv_def mq_wf_def queue_entries_def)
  have "queue_contract.in_balance (\<lambda>s. queue_inv (alpha s)) (\<lambda>s. queue_entries (alpha s)) (matched ts) (v, [])"
    using queue_contract.history_balance [OF C _ assms(4,5) s0 assms(6)] by simp
  then have "queue_inv (alpha (fst v))"
    "count_list (matched ts) p + waits_in (queue_entries (alpha (fst v))) p \<le> joins (snd v) p"
    by (simp_all add: queue_contract.in_balance_def [OF C])
  then show ?thesis
    using queue_contract.waits_for_eq [OF C, of "fst v" p] by (simp add: waiting_players_def)
qed

lemma redis_history_sight:
  assumes "redis_server R alpha" and "queue_inv (alpha s0)"
    and "queue m0 = beside (NewRedisQueue R)"
    and "env_does (activity G verify circ (NewRedisQueue R) (\<lambda>s s'. alpha s' = alpha s)) m0"
    and "history (activity G verify circ (NewRedisQueue R) (\<lambda>s s'. alpha s' = alpha s)) c m0 (s0, []) m v ts"
    and "one_instance g (snd v)" and "expected p (snd v)"
  shows "p \<in> waiting_players (queue_entries (alpha (fst v))) \<or> accounted ts p"
proof -
  note C = redis_server.contract [OF assms(1)]
  have "queue_contract.in_sight (\<lambda>s. queue_inv (alpha s)) (\<lambda>s. queue_entries (alpha s))
      (\<lambda>s. stored_instance (alpha s)) g {p. accounted ts p} (v, [])"
    using queue_contract.history_in_sight [OF C _ assms(3,4,2,5)] by simp
  then show ?thesis
    using assms(6,7) unfolding queue_contract.in_sight_def [OF C]
    by (auto simp: popped_players_def pop_failed_in_def pops_def)
qed

section \<open>Properties\<close>





end
