(* ===== verification/RunLoop.thy ===== *)
theory RunLoop
  imports MatcherTrace
begin

text \<open>
  \<open>Matcher.Run\<close> (internal/usecase/matcher/matcher.go) as a step relation. The state holds the
  loop's local variables, the channels, the wait group and how many goroutines are in which part
  of their code; a step is one action of the loop, of a goroutine, of the ticker, of the
  signal or of the surroundings, so a sequence of steps is an interleaving. A tick is one step: the
  invariant shows that there is never a second one to interleave with, and what other clients do
  to the world between its calls is in the functions of the matcher's ports.
\<close>

section \<open>State\<close>

text \<open>Where the loop is: in the \<open>for\<close>, in the \<open>select\<close> of the drain, or returned.\<close>

datatype run_phase = Looping | Draining | Drained | Forced

text \<open>The goroutine that closes \<open>done\<close> when the wait group is empty.\<close>

datatype waiter = NoWaiter | Waiting | DoneClosed

text \<open>
  \<open>ticking\<close>, \<open>sending\<close> and \<open>finishing\<close> count the goroutines of \<open>startTick\<close> in \<open>m.tick(ctx)\<close>, before
  the send to \<open>tickDone\<close>, and before the deferred \<open>wg.Done()\<close>. \<open>tickDone\<close> counts the buffered values
  of that channel (its capacity is one), \<open>notified\<close> says that a notification waits in the ticker's
  channel (its capacity is one too), \<open>timedOut\<close> that \<open>After(m.drainTimeout)\<close> has fired.
\<close>

record 'w run_state =
  phase :: run_phase
  tickRunning :: bool
  tickDone :: nat
  ticking :: nat
  sending :: nat
  finishing :: nat
  wg :: nat
  notified :: bool
  stopped :: bool
  cancelled :: bool
  drainWaiter :: waiter
  timedOut :: bool
  matcher :: "'w Matcher"
  world :: 'w
  ticks :: nat
  logs :: "log list"

definition run_start :: "'w Matcher \<Rightarrow> 'w \<Rightarrow> 'w run_state" where
  "run_start m w = \<lparr>phase = Looping, tickRunning = False, tickDone = 0, ticking = 0, sending = 0,
     finishing = 0, wg = 0, notified = False, stopped = False, cancelled = False,
     drainWaiter = NoWaiter, timedOut = False, matcher = m, world = w, ticks = 0, logs = []\<rparr>"

section \<open>Steps\<close>

definition startTick :: "'w run_state \<Rightarrow> 'w run_state" where
  "startTick s = s\<lparr>tickRunning := True, wg := wg s + 1, ticking := ticking s + 1\<rparr>"

definition runTick :: "go_ctx \<Rightarrow> 'w run_state \<Rightarrow> 'w run_state" where
  "runTick c s =
     (let (ls, m, w) = tick (matcher s) c (world s)
      in s\<lparr>ticking := ticking s - 1, sending := sending s + 1, matcher := m, world := w,
           ticks := ticks s + 1, logs := logs s @ ls\<rparr>)"

inductive run_step :: "go_ctx \<Rightarrow> 'w run_state \<Rightarrow> 'w run_state \<Rightarrow> bool" for c :: go_ctx where
  ticker_fires: "\<not> stopped s \<Longrightarrow> run_step c s (s\<lparr>notified := True\<rparr>)"
| signal: "run_step c s (s\<lparr>cancelled := True\<rparr>)"
| surroundings: "run_step c s (s\<lparr>world := w\<rparr>)"
| select_ticker: "phase s = Looping \<Longrightarrow> \<not> tickRunning s \<Longrightarrow> notified s \<Longrightarrow>
     run_step c s (startTick (s\<lparr>notified := False\<rparr>))"
| select_done: "phase s = Looping \<Longrightarrow> 0 < tickDone s \<Longrightarrow>
     run_step c s (s\<lparr>tickDone := tickDone s - 1, tickRunning := False\<rparr>)"
| select_cancel: "phase s = Looping \<Longrightarrow> cancelled s \<Longrightarrow>
     run_step c s (s\<lparr>phase := Draining, drainWaiter := Waiting,
       logs := logs s @ [Log LevelInfo ''matcher draining'' [(''timeout'', AInt (drainTimeout (matcher s)))]]\<rparr>)"
| tick_runs: "0 < ticking s \<Longrightarrow> run_step c s (runTick c s)"
| tick_sends: "0 < sending s \<Longrightarrow> tickDone s < 1 \<Longrightarrow>
     run_step c s (s\<lparr>sending := sending s - 1, finishing := finishing s + 1, tickDone := tickDone s + 1\<rparr>)"
| tick_finishes: "0 < finishing s \<Longrightarrow> run_step c s (s\<lparr>finishing := finishing s - 1, wg := wg s - 1\<rparr>)"
| waiter_closes: "drainWaiter s = Waiting \<Longrightarrow> wg s = 0 \<Longrightarrow> run_step c s (s\<lparr>drainWaiter := DoneClosed\<rparr>)"
| timer_fires: "phase s = Draining \<Longrightarrow> run_step c s (s\<lparr>timedOut := True\<rparr>)"
| drain_complete: "phase s = Draining \<Longrightarrow> drainWaiter s = DoneClosed \<Longrightarrow>
     run_step c s (s\<lparr>phase := Drained, stopped := True,
       logs := logs s @ [Log LevelInfo ''matcher drain complete'' []]\<rparr>)"
| drain_timeout: "phase s = Draining \<Longrightarrow> timedOut s \<Longrightarrow>
     run_step c s (s\<lparr>phase := Forced, stopped := True,
       logs := logs s @ [Log LevelWarn ''matcher drain timeout exceeded, forcing exit'' []]\<rparr>)"

inductive run_reach :: "go_ctx \<Rightarrow> 'w run_state \<Rightarrow> 'w run_state \<Rightarrow> bool" for c :: go_ctx and s0 :: "'w run_state" where
  refl: "run_reach c s0 s0"
| step: "run_reach c s0 s \<Longrightarrow> run_step c s s' \<Longrightarrow> run_reach c s0 s'"

section \<open>Invariant\<close>

text \<open>
  \<open>tickRunning\<close> is true exactly while one token exists: a tick that runs, one that is about to
  send, or its value in the channel. The wait group counts the goroutines, and \<open>done\<close> is closed
  only when none is left and the loop starts no more.
\<close>

definition run_inv :: "'w run_state \<Rightarrow> bool" where
  "run_inv s \<longleftrightarrow>
     ticking s + sending s + tickDone s = (if tickRunning s then 1 else 0)
     \<and> wg s = ticking s + sending s + finishing s
     \<and> (drainWaiter s = NoWaiter \<longleftrightarrow> phase s = Looping)
     \<and> (drainWaiter s = DoneClosed \<longrightarrow> wg s = 0)
     \<and> (phase s = Drained \<longrightarrow> drainWaiter s = DoneClosed)"

lemma run_inv_start: "run_inv (run_start m w)"
  by (simp add: run_inv_def run_start_def)

lemma run_inv_step: "run_step c s s' \<Longrightarrow> run_inv s \<Longrightarrow> run_inv s'"
  by (induction rule: run_step.induct)
    (auto simp: run_inv_def startTick_def runTick_def Let_def case_prod_beta split: if_splits)

lemma run_reach_inv: "run_reach c s0 s \<Longrightarrow> run_inv s0 \<Longrightarrow> run_inv s"
  by (induction rule: run_reach.induct) (auto intro: run_inv_step)

section \<open>Properties\<close>

lemma run_reach_trans: "run_reach c s1 s2 \<Longrightarrow> run_reach c s0 s1 \<Longrightarrow> run_reach c s0 s2"
  by (induction rule: run_reach.induct) (auto intro: run_reach.step)

text \<open>An example run: a notification, a tick that starts, the signal, and the drain begins.\<close>

definition example_start :: "unit run_state" where
  "example_start = run_start (fixed_matcher (Inr ([], [])) None (Inr True) False) ()"

lemma example_draining:
  "\<exists>s. run_reach SignalCtx example_start s \<and> phase s = Draining \<and> ticking s = 1"
proof -
  let ?s0 = "example_start"
  let ?s2 = "startTick (?s0\<lparr>notified := True, notified := False\<rparr>)"
  let ?s3 = "?s2\<lparr>cancelled := True\<rparr>"
  let ?s4 = "?s3\<lparr>phase := Draining, drainWaiter := Waiting,
       logs := logs ?s3 @ [Log LevelInfo ''matcher draining'' [(''timeout'', AInt (drainTimeout (matcher ?s3)))]]\<rparr>"
  have "run_reach SignalCtx ?s0 (?s0\<lparr>notified := True\<rparr>)"
    by (rule run_reach.step [OF run_reach.refl run_step.ticker_fires]) (simp add: example_start_def run_start_def)
  then have "run_reach SignalCtx ?s0 ?s2"
    by (rule run_reach.step) (rule run_step.select_ticker; simp add: example_start_def run_start_def)
  then have "run_reach SignalCtx ?s0 ?s3"
    by (rule run_reach.step [OF _ run_step.signal])
  then have r: "run_reach SignalCtx ?s0 ?s4"
    by (rule run_reach.step) (rule run_step.select_cancel; simp add: example_start_def run_start_def startTick_def)
  show ?thesis
    by (intro exI [of _ ?s4] conjI r) (simp_all add: example_start_def run_start_def startTick_def)
qed

text \<open>
  C27. However the goroutines, the ticker and the signal interleave, at most one tick runs at a
  time; the channel never holds more than one value; and a goroutine that is about to send finds
  room, also when \<open>Run\<close> has returned and nobody receives any more.
\<close>

theorem run_one_tick_at_a_time:
  assumes "run_reach c (run_start m w) s"
  shows "ticking s + sending s \<le> 1 \<and> tickDone s \<le> 1 \<and> (sending s = 0 \<or> tickDone s = 0)
       \<and> wg s = ticking s + sending s + finishing s"
  using run_reach_inv [OF assms run_inv_start] by (auto simp: run_inv_def split: if_splits)

lemma run_one_tick_at_a_time_witness:
  "\<exists>s. run_reach SignalCtx example_start s \<and> ticking s = 1 \<and> sending s = 0"
proof -
  obtain s where s: "run_reach SignalCtx example_start s" "ticking s = 1"
    using example_draining by blast
  from run_one_tick_at_a_time [OF s(1) [unfolded example_start_def]] s show ?thesis
    by (intro exI [of _ s]) simp
qed

text \<open>After a complete drain nothing changes.\<close>

lemma drained_final:
  "run_reach c s s' \<Longrightarrow> run_inv s \<Longrightarrow> phase s = Drained \<Longrightarrow>
     phase s' = Drained \<and> ticking s' = 0 \<and> sending s' = 0 \<and> matcher s' = matcher s \<and> ticks s' = ticks s"
proof (induction rule: run_reach.induct)
  case refl
  then show ?case by (auto simp: run_inv_def split: if_splits)
next
  case (step s1 s2)
  then have "phase s1 = Drained" "ticking s1 = 0" "sending s1 = 0" "matcher s1 = matcher s" "ticks s1 = ticks s"
    by simp_all
  with step.hyps(2) show ?case by (cases rule: run_step.cases) auto
qed

text \<open>
  When \<open>Run\<close> returns after a complete drain, no tick is running and none will: nothing that
  happens afterwards changes the matcher or runs another tick.
\<close>

lemma drain_complete_is_final:
  assumes "run_reach c (run_start m w) s" and "phase s = Drained" and "run_reach c s s'"
  shows "ticking s' = 0 \<and> sending s' = 0 \<and> matcher s' = matcher s \<and> ticks s' = ticks s"
  using drained_final [OF assms(3) run_reach_inv [OF assms(1) run_inv_start] assms(2)] by simp

lemma goroutines_finish:
  assumes "run_inv s" and "phase s = Draining"
  shows "\<exists>s'. run_reach c s s' \<and> run_inv s' \<and> phase s' = Draining \<and> wg s' = 0"
  using assms
proof (induction "2 * ticking s + 2 * sending s + ticking s + finishing s" arbitrary: s rule: less_induct)
  case less
  consider (tick) "0 < ticking s" | (send) "ticking s = 0" "0 < sending s"
    | (finish) "ticking s = 0" "sending s = 0" "0 < finishing s"
    | (none) "ticking s = 0" "sending s = 0" "finishing s = 0"
    by blast
  then show ?case
  proof cases
    case tick
    then have st: "run_step c s (runTick c s)" by (rule run_step.tick_runs)
    have "phase (runTick c s) = Draining" using less.prems(2) by (simp add: runTick_def Let_def case_prod_beta)
    moreover have "2 * ticking (runTick c s) + 2 * sending (runTick c s) + ticking (runTick c s) + finishing (runTick c s)
        < 2 * ticking s + 2 * sending s + ticking s + finishing s"
      using tick by (simp add: runTick_def Let_def case_prod_beta)
    ultimately obtain s' where "run_reach c (runTick c s) s'" "run_inv s'" "phase s' = Draining" "wg s' = 0"
      using less.hyps [of "runTick c s"] run_inv_step [OF st less.prems(1)] by blast
    moreover have "run_reach c s (runTick c s)" by (rule run_reach.step [OF run_reach.refl st])
    ultimately show ?thesis using run_reach_trans by blast
  next
    case send
    let ?s = "s\<lparr>sending := sending s - 1, finishing := finishing s + 1, tickDone := tickDone s + 1\<rparr>"
    have "tickDone s < 1" using send less.prems(1) by (auto simp: run_inv_def split: if_splits)
    then have st: "run_step c s ?s" using send by (intro run_step.tick_sends)
    have "2 * ticking ?s + 2 * sending ?s + ticking ?s + finishing ?s < 2 * ticking s + 2 * sending s + ticking s + finishing s"
      "phase ?s = Draining"
      using send less.prems(2) by simp_all
    then obtain s' where "run_reach c ?s s'" "run_inv s'" "phase s' = Draining" "wg s' = 0"
      using less.hyps [of ?s] run_inv_step [OF st less.prems(1)] by blast
    moreover have "run_reach c s ?s" by (rule run_reach.step [OF run_reach.refl st])
    ultimately show ?thesis using run_reach_trans by blast
  next
    case finish
    let ?s = "s\<lparr>finishing := finishing s - 1, wg := wg s - 1\<rparr>"
    have st: "run_step c s ?s" using finish by (intro run_step.tick_finishes)
    have "2 * ticking ?s + 2 * sending ?s + ticking ?s + finishing ?s < 2 * ticking s + 2 * sending s + ticking s + finishing s"
      "phase ?s = Draining"
      using finish less.prems(2) by simp_all
    then obtain s' where "run_reach c ?s s'" "run_inv s'" "phase s' = Draining" "wg s' = 0"
      using less.hyps [of ?s] run_inv_step [OF st less.prems(1)] by blast
    moreover have "run_reach c s ?s" by (rule run_reach.step [OF run_reach.refl st])
    ultimately show ?thesis using run_reach_trans by blast
  next
    case none
    then have "wg s = 0" using less.prems(1) by (simp add: run_inv_def)
    then show ?thesis using less.prems run_reach.refl by blast
  qed
qed

lemma drain_completes:
  assumes "run_reach c (run_start m w) s" and "phase s = Draining"
  shows "\<exists>s'. run_reach c s s' \<and> phase s' = Drained"
proof -
  obtain s1 where s1: "run_reach c s s1" "run_inv s1" "phase s1 = Draining" "wg s1 = 0"
    using goroutines_finish [OF run_reach_inv [OF assms(1) run_inv_start] assms(2)] by blast
  have "\<exists>s2. run_reach c s1 s2 \<and> phase s2 = Draining \<and> drainWaiter s2 = DoneClosed"
  proof (cases "drainWaiter s1 = DoneClosed")
    case True
    then show ?thesis using s1(3) run_reach.refl by blast
  next
    case False
    then have "drainWaiter s1 = Waiting" using s1(2,3) by (cases "drainWaiter s1") (auto simp: run_inv_def)
    then have "run_reach c s1 (s1\<lparr>drainWaiter := DoneClosed\<rparr>)"
      using s1(4) by (intro run_reach.step [OF run_reach.refl] run_step.waiter_closes)
    then show ?thesis using s1(3) by (intro exI [of _ "s1\<lparr>drainWaiter := DoneClosed\<rparr>"]) simp
  qed
  then obtain s2 where s2: "run_reach c s1 s2" "phase s2 = Draining" "drainWaiter s2 = DoneClosed" by blast
  let ?s3 = "s2\<lparr>phase := Drained, stopped := True, logs := logs s2 @ [Log LevelInfo ''matcher drain complete'' []]\<rparr>"
  have "run_reach c s2 ?s3"
    by (intro run_reach.step [OF run_reach.refl] run_step.drain_complete s2)
  then have "run_reach c s ?s3" using run_reach_trans s1(1) s2(1) by blast
  then show ?thesis by (intro exI [of _ ?s3]) simp
qed

text \<open>
  C28. A drain can always complete: from every reachable state in which the loop drains, the
  running goroutines alone lead to \<open>Run\<close> returning with the drain complete. There is no deadlock.
\<close>

theorem drain_can_complete:
  assumes "run_reach c (run_start m w) s" and "phase s = Draining"
  shows "\<exists>s'. run_reach c s s' \<and> phase s' = Drained"
  by (rule drain_completes [OF assms])

lemma drain_can_complete_witness:
  "\<exists>s s'. run_reach SignalCtx example_start s \<and> ticking s = 1 \<and> run_reach SignalCtx s s' \<and> phase s' = Drained"
proof -
  obtain s where s: "run_reach SignalCtx example_start s" "phase s = Draining" "ticking s = 1"
    using example_draining by blast
  from drain_can_complete [OF s(1) [unfolded example_start_def] s(2)] s show ?thesis by blast
qed



lemma drain_complete_is_final_witness:
  "\<exists>s. run_reach SignalCtx example_start s \<and> phase s = Drained \<and> ticking s = 0 \<and> sending s = 0"
proof -
  obtain s1 where s1: "run_reach SignalCtx example_start s1" "phase s1 = Draining"
    using example_draining by blast
  obtain s where s: "run_reach SignalCtx s1 s" "phase s = Drained"
    using drain_completes [OF s1(1) [unfolded example_start_def] s1(2)] by blast
  have r: "run_reach SignalCtx example_start s" using run_reach_trans s(1) s1(1) by blast
  from drain_complete_is_final [OF r [unfolded example_start_def] s(2) run_reach.refl] r s(2)
  show ?thesis by blast
qed

end
