(* ===== verification/Config.thy ===== *)
theory Config
  imports Matcher
begin

text \<open>
  internal/config: the settings read from environment variables. \<open>env\<close> is \<open>os.Getenv\<close> (empty for an
  unset variable). A problem is a format with its arguments; the error of \<open>FromEnv\<close> carries the
  problems in their order, which the code joins with \<open>"; "\<close>. \<open>int\<close> and \<open>time.Duration\<close> are 64 bits wide, so
  the conversion of seconds is a multiplication of words.
\<close>

definition AppEnvLocal :: string where "AppEnvLocal = ''local''"
definition AppEnvProduction :: string where "AppEnvProduction = ''production''"
definition maxPort :: int where "maxPort = 65535"

text \<open>\<open>math.MaxInt64 / int64(time.Second)\<close> and \<open>math.MaxInt\<close>.\<close>

definition maxDurationSeconds :: int where "maxDurationSeconds = (2 ^ 63 - 1) div second"
definition noUpperBound :: int where "noUpperBound = 2 ^ 63 - 1"

record Config =
  AppEnv :: string
  Port :: int
  RedisURL :: string
  GoogleCloudProjectID :: string
  MatchMadeTopic :: string
  cfg_CircuitThreshold :: int
  cfg_CircuitCooldown :: int
  cfg_DrainTimeout :: int
  InternalAuthPublicKey :: string

type_synonym problem = "string \<times> fmt_arg list"

definition readRequiredString :: "(string \<Rightarrow> string) \<Rightarrow> string \<Rightarrow> string \<times> problem option" where
  "readRequiredString env key =
    (let raw = env key in
     if is_blank raw then ([], Some (''missing required env var: %s'', [AStr key])) else (raw, None))"

text \<open>The error of \<open>strconv.Atoi\<close>, printed with \<open>%v\<close>.\<close>

definition atoi_err :: "num_error \<Rightarrow> go_error" where
  "atoi_err e = (case e of NumSyntax \<Rightarrow> ErrOther ''invalid syntax'' | NumRange \<Rightarrow> ErrOther ''value out of range'')"

definition readPositiveInt :: "(string \<Rightarrow> string) \<Rightarrow> string \<Rightarrow> int \<Rightarrow> int \<times> problem option" where
  "readPositiveInt env key upperBound =
    (let raw = env key in
     if raw = [] then (0, Some (''missing required env var: %s'', [AStr key]))
     else
       (case parse_int64 raw of
          Inl e \<Rightarrow> (0, Some (''%s %q: %v'', [AStr key, AStr raw, AVal (atoi_err e)]))
        | Inr n \<Rightarrow>
            if n \<le> 0 then (0, Some (''%s must be > 0, got %d'', [AStr key, AInt n]))
            else if upperBound < n then (0, Some (''%s must be <= %d, got %d'', [AStr key, AInt upperBound, AInt n]))
            else (n, None)))"

text \<open>\<open>time.Duration(n) * time.Second\<close>.\<close>

definition seconds_duration :: "int \<Rightarrow> int" where
  "seconds_duration n = sint (word_of_int n * word_of_int second :: int64)"

definition problem_list :: "problem option \<Rightarrow> problem list" where
  "problem_list p = (case p of None \<Rightarrow> [] | Some q \<Rightarrow> [q])"

definition config_error :: "problem list \<Rightarrow> go_error" where
  "config_error ps = Errorf ''config: %s'' (map (\<lambda>(f, as). AVal (Errorf f as)) ps)"

definition FromEnv :: "(string \<Rightarrow> string) \<Rightarrow> go_error + Config" where
  "FromEnv env =
    (let appEnv = env ''APP_ENV'' in
     if appEnv = [] then
       Inl (Errorf ''config: missing required env var: APP_ENV (must be %q or %q)''
              [AStr AppEnvLocal, AStr AppEnvProduction])
     else if appEnv \<noteq> AppEnvLocal \<and> appEnv \<noteq> AppEnvProduction then
       Inl (Errorf ''config: APP_ENV %q is invalid (must be %q or %q)''
              [AStr appEnv, AStr AppEnvLocal, AStr AppEnvProduction])
     else
       (let (redisURL, p1) = (if appEnv = AppEnvLocal then readRequiredString env ''UPSTASH_REDIS_URL'' else ([], None));
            (projectID, p2) = readRequiredString env ''GOOGLE_CLOUD_PROJECT_ID'';
            (topic, p3) = readRequiredString env ''MATCH_MADE_TOPIC'';
            (key, p4) = readRequiredString env ''INTERNAL_AUTH_PUBLIC_KEY'';
            (port, p5) = readPositiveInt env ''PORT'' maxPort;
            (thr, p6) = readPositiveInt env ''MATCHMAKING_CIRCUIT_THRESHOLD'' noUpperBound;
            (cool, p7) = readPositiveInt env ''MATCHMAKING_CIRCUIT_COOLDOWN_SEC'' maxDurationSeconds;
            (drain, p8) = readPositiveInt env ''MATCHMAKING_DRAIN_TIMEOUT_SEC'' maxDurationSeconds;
            problems = concat (map problem_list [p1, p2, p3, p4, p5, p6, p7, p8])
        in if problems \<noteq> [] then Inl (config_error problems)
           else Inr \<lparr>AppEnv = appEnv, Port = port, RedisURL = redisURL, GoogleCloudProjectID = projectID,
                  MatchMadeTopic = topic, cfg_CircuitThreshold = thr,
                  cfg_CircuitCooldown = seconds_duration cool, cfg_DrainTimeout = seconds_duration drain,
                  InternalAuthPublicKey = key\<rparr>))"

text \<open>\<open>newMatcherOptions\<close> of cmd/server/main.go, with the interval \<open>matcherInterval\<close>.\<close>

definition matcherInterval :: int where "matcherInterval = second"

definition newMatcherOptions :: "Config \<Rightarrow> Options" where
  "newMatcherOptions cfg = \<lparr>Interval = matcherInterval,
     CircuitThreshold = word_of_int (cfg_CircuitThreshold cfg),
     CircuitCooldown = cfg_CircuitCooldown cfg, DrainTimeout = cfg_DrainTimeout cfg\<rparr>"

section \<open>Properties\<close>

lemma problem_list_Nil [simp]: "problem_list p = [] \<longleftrightarrow> p = None"
  by (cases p) (simp_all add: problem_list_def)

lemma no_problems: "concat (map problem_list ps) = [] \<longleftrightarrow> list_all (\<lambda>p. p = None) ps"
  by (induction ps) (simp_all add: problem_list_def split: option.split)

lemma readRequiredString_ok: "readRequiredString env key = (v, None) \<longleftrightarrow> v = env key \<and> \<not> is_blank (env key)"
  by (auto simp: readRequiredString_def Let_def)

lemma readPositiveInt_ok:
  "readPositiveInt env key ub = (n, None) \<longleftrightarrow> parse_int64 (env key) = Inr n \<and> 0 < n \<and> n \<le> ub"
  by (auto simp: readPositiveInt_def Let_def parse_int64_def split: sum.splits)

lemma seconds_duration_exact:
  assumes "0 < n" and "n \<le> maxDurationSeconds"
  shows "seconds_duration n = n * second" "0 < n * second" "n * second \<le> max_duration"
proof -
  have n: "n \<le> 9223372036" using assms(2) by (simp add: maxDurationSeconds_def second_def)
  show "0 < n * second" using assms(1) by (simp add: second_def)
  show "n * second \<le> max_duration" using n by (simp add: second_def max_duration_def)
  have w: "word_of_int n * word_of_int second = (word_of_int (n * second) :: int64)"
    by (rule wi_hom_mult)
  have "- (2 ^ 63) \<le> n * second" "n * second < 2 ^ 63" using n assms(1) by (simp_all add: second_def)
  then show "seconds_duration n = n * second"
    unfolding seconds_duration_def w sint_sbintrunc' by (simp add: signed_take_bit_int_eq_self)
qed

text \<open>An accepted environment, field by field.\<close>

lemma FromEnv_cases:
  assumes "FromEnv env = Inr cfg"
  obtains url pid topic key port thr cool drain where
    "env ''APP_ENV'' = AppEnvLocal \<or> env ''APP_ENV'' = AppEnvProduction"
    "if env ''APP_ENV'' = AppEnvLocal then readRequiredString env ''UPSTASH_REDIS_URL'' = (url, None) else url = []"
    "readRequiredString env ''GOOGLE_CLOUD_PROJECT_ID'' = (pid, None)"
    "readRequiredString env ''MATCH_MADE_TOPIC'' = (topic, None)"
    "readRequiredString env ''INTERNAL_AUTH_PUBLIC_KEY'' = (key, None)"
    "readPositiveInt env ''PORT'' maxPort = (port, None)"
    "readPositiveInt env ''MATCHMAKING_CIRCUIT_THRESHOLD'' noUpperBound = (thr, None)"
    "readPositiveInt env ''MATCHMAKING_CIRCUIT_COOLDOWN_SEC'' maxDurationSeconds = (cool, None)"
    "readPositiveInt env ''MATCHMAKING_DRAIN_TIMEOUT_SEC'' maxDurationSeconds = (drain, None)"
    "cfg = \<lparr>AppEnv = env ''APP_ENV'', Port = port, RedisURL = url, GoogleCloudProjectID = pid,
       MatchMadeTopic = topic, cfg_CircuitThreshold = thr, cfg_CircuitCooldown = seconds_duration cool,
       cfg_DrainTimeout = seconds_duration drain, InternalAuthPublicKey = key\<rparr>"
proof -
  obtain url p1 where 1: "(if env ''APP_ENV'' = AppEnvLocal then readRequiredString env ''UPSTASH_REDIS_URL'' else ([], None)) = (url, p1)"
    by (meson surj_pair)
  obtain pid p2 where 2: "readRequiredString env ''GOOGLE_CLOUD_PROJECT_ID'' = (pid, p2)" by (meson surj_pair)
  obtain topic p3 where 3: "readRequiredString env ''MATCH_MADE_TOPIC'' = (topic, p3)" by (meson surj_pair)
  obtain key p4 where 4: "readRequiredString env ''INTERNAL_AUTH_PUBLIC_KEY'' = (key, p4)" by (meson surj_pair)
  obtain port p5 where 5: "readPositiveInt env ''PORT'' maxPort = (port, p5)" by (meson surj_pair)
  obtain thr p6 where 6: "readPositiveInt env ''MATCHMAKING_CIRCUIT_THRESHOLD'' noUpperBound = (thr, p6)"
    by (meson surj_pair)
  obtain cool p7 where 7: "readPositiveInt env ''MATCHMAKING_CIRCUIT_COOLDOWN_SEC'' maxDurationSeconds = (cool, p7)"
    by (meson surj_pair)
  obtain drain p8 where 8: "readPositiveInt env ''MATCHMAKING_DRAIN_TIMEOUT_SEC'' maxDurationSeconds = (drain, p8)"
    by (meson surj_pair)
  have app: "env ''APP_ENV'' = AppEnvLocal \<or> env ''APP_ENV'' = AppEnvProduction"
    using assms unfolding FromEnv_def Let_def by (metis Inl_Inr_False)
  then have "env ''APP_ENV'' \<noteq> []" by (auto simp: AppEnvLocal_def AppEnvProduction_def)
  with app assms have fin: "(if concat (map problem_list [p1, p2, p3, p4, p5, p6, p7, p8]) \<noteq> []
      then Inl (config_error (concat (map problem_list [p1, p2, p3, p4, p5, p6, p7, p8])))
      else Inr \<lparr>AppEnv = env ''APP_ENV'', Port = port, RedisURL = url, GoogleCloudProjectID = pid,
       MatchMadeTopic = topic, cfg_CircuitThreshold = thr, cfg_CircuitCooldown = seconds_duration cool,
       cfg_DrainTimeout = seconds_duration drain, InternalAuthPublicKey = key\<rparr>) = Inr cfg"
    unfolding FromEnv_def Let_def 1 2 3 4 5 6 7 8 prod.case by (metis (full_types))
  then have "list_all (\<lambda>p. p = None) [p1, p2, p3, p4, p5, p6, p7, p8]"
    unfolding no_problems by (metis Inl_Inr_False)
  then have ok: "p1 = None" "p2 = None" "p3 = None" "p4 = None" "p5 = None" "p6 = None" "p7 = None" "p8 = None"
    by simp_all
  with fin have "cfg = \<lparr>AppEnv = env ''APP_ENV'', Port = port, RedisURL = url, GoogleCloudProjectID = pid,
       MatchMadeTopic = topic, cfg_CircuitThreshold = thr, cfg_CircuitCooldown = seconds_duration cool,
       cfg_DrainTimeout = seconds_duration drain, InternalAuthPublicKey = key\<rparr>"
    by (simp add: problem_list_def)
  moreover have "if env ''APP_ENV'' = AppEnvLocal then readRequiredString env ''UPSTASH_REDIS_URL'' = (url, None) else url = []"
    using 1 ok(1) by (simp split: if_splits)
  ultimately show thesis using that app 2 3 4 5 6 7 8 ok by blast
qed

text \<open>An environment that is accepted; it serves as the example below.\<close>

definition example_env :: "string \<Rightarrow> string" where
  "example_env k =
    (if k = ''APP_ENV'' then ''production''
     else if k = ''PORT'' then ''8080''
     else if k = ''MATCHMAKING_CIRCUIT_THRESHOLD'' then ''5''
     else if k = ''MATCHMAKING_CIRCUIT_COOLDOWN_SEC'' then ''30''
     else if k = ''MATCHMAKING_DRAIN_TIMEOUT_SEC'' then ''10''
     else ''x'')"

definition example_config :: Config where
  "example_config = \<lparr>AppEnv = ''production'', Port = 8080, RedisURL = [], GoogleCloudProjectID = ''x'',
     MatchMadeTopic = ''x'', cfg_CircuitThreshold = 5, cfg_CircuitCooldown = 30 * second,
     cfg_DrainTimeout = 10 * second, InternalAuthPublicKey = ''x''\<rparr>"

lemma example_numbers:
  "parse_int64 ''8080'' = Inr 8080" "parse_int64 ''5'' = Inr 5" "parse_int64 ''30'' = Inr 30"
  "parse_int64 ''10'' = Inr 10"
  by (simp_all add: parse_int64_def parse_uint64_def digit_val_def)

lemma example_FromEnv: "FromEnv example_env = Inr example_config"
  by (simp add: FromEnv_def Let_def example_env_def readRequiredString_def readPositiveInt_def
      example_numbers AppEnvLocal_def AppEnvProduction_def maxPort_def noUpperBound_def
      is_space_def problem_list_def example_config_def seconds_duration_exact(1)
      maxDurationSeconds_def second_def)

text \<open>
  C32. A configuration that \<open>FromEnv\<close> accepts is the environment's: the mode is one of the two known
  ones, every required text is present and not blank, the port is a TCP port, and the durations are
  the given numbers of seconds exactly, positive and without overflow.
\<close>

theorem config_valid:
  assumes "FromEnv env = Inr cfg"
  shows "(AppEnv cfg = ''local'' \<and> \<not> is_blank (RedisURL cfg) \<or> AppEnv cfg = ''production'')
    \<and> \<not> is_blank (GoogleCloudProjectID cfg) \<and> \<not> is_blank (MatchMadeTopic cfg)
    \<and> \<not> is_blank (InternalAuthPublicKey cfg)
    \<and> 1 \<le> Port cfg \<and> Port cfg \<le> 65535 \<and> 1 \<le> cfg_CircuitThreshold cfg
    \<and> (\<exists>n. parse_int64 (env ''MATCHMAKING_CIRCUIT_COOLDOWN_SEC'') = Inr n
         \<and> cfg_CircuitCooldown cfg = n * second \<and> 0 < n \<and> n * second \<le> max_duration)
    \<and> (\<exists>n. parse_int64 (env ''MATCHMAKING_DRAIN_TIMEOUT_SEC'') = Inr n
         \<and> cfg_DrainTimeout cfg = n * second \<and> 0 < n \<and> n * second \<le> max_duration)"
proof (rule FromEnv_cases [OF assms], goal_cases)
  case (1 url pid topic key port thr cool drain)
  note ok = 1(1-9)[unfolded readRequiredString_ok readPositiveInt_ok]
  show ?case
    unfolding 1(10)
    using ok seconds_duration_exact [of cool] seconds_duration_exact [of drain]
    by (auto simp: AppEnvLocal_def AppEnvProduction_def maxPort_def split: if_splits)
qed

lemma config_valid_witness: "1 \<le> Port example_config \<and> Port example_config \<le> 65535"
  using config_valid [OF example_FromEnv] by simp

text \<open>The options made from an accepted configuration are accepted by the matcher.\<close>

lemma sint_of_int64: "- (2 ^ 63) \<le> n \<Longrightarrow> n < 2 ^ 63 \<Longrightarrow> sint (word_of_int n :: int64) = n"
  by (simp add: sint_sbintrunc' signed_take_bit_int_eq_self)

lemma accepted_options_valid:
  assumes "FromEnv env = Inr cfg"
  shows "validate_Options (newMatcherOptions cfg) = None"
proof (rule FromEnv_cases [OF assms], goal_cases)
  case (1 url pid topic key port thr cool drain)
  note ok = 1(6-9)[unfolded readPositiveInt_ok]
  have "\<not> (word_of_int thr :: int64) \<le>s 0"
    using ok(2) by (simp add: word_sle_eq sint_of_int64 noUpperBound_def)
  then show ?case
    unfolding 1(10)
    using ok seconds_duration_exact [of cool] seconds_duration_exact [of drain]
    by (simp add: validate_Options_def newMatcherOptions_def matcherInterval_def second_def)
qed

lemma accepted_threshold_exact:
  assumes "FromEnv env = Inr cfg"
  shows "sint (word_of_int (cfg_CircuitThreshold cfg) :: int64) = cfg_CircuitThreshold cfg"
  by (rule FromEnv_cases [OF assms]) (simp add: readPositiveInt_ok sint_of_int64 noUpperBound_def)

lemma accepted_cooldown_bound:
  assumes "FromEnv env = Inr cfg"
  shows "cfg_CircuitCooldown cfg \<le> max_duration"
  by (rule FromEnv_cases [OF assms]) (simp add: readPositiveInt_ok seconds_duration_exact)

lemmas accepted_options = accepted_options_valid accepted_threshold_exact accepted_cooldown_bound

lemma accepted_nonempty:
  assumes "FromEnv env = Inr cfg"
  shows "GoogleCloudProjectID cfg \<noteq> [] \<and> MatchMadeTopic cfg \<noteq> []
    \<and> (AppEnv cfg = AppEnvLocal \<or> AppEnv cfg = AppEnvProduction)"
  by (rule FromEnv_cases [OF assms]) (auto simp: readRequiredString_ok)

text \<open>
  C34. Whatever configuration \<open>FromEnv\<close> accepts, the matcher is constructed without an error, with the
  configured threshold, cooldown and drain timeout; and its ticks are gated as the breaker's
  specification says, since the cooldown is within the range of a duration.
\<close>

theorem config_matcher_constructs:
  assumes "FromEnv env = Inr cfg"
  shows "\<exists>m. matcher_New q p c ids (newMatcherOptions cfg) = Inr m
    \<and> circuit m = newCircuitBreaker (word_of_int (cfg_CircuitThreshold cfg)) (cfg_CircuitCooldown cfg)
    \<and> sint (threshold (circuit m)) = cfg_CircuitThreshold cfg \<and> cooldown (circuit m) \<le> max_duration
    \<and> drainTimeout m = cfg_DrainTimeout cfg \<and> interval m = second"
  using accepted_options [OF assms]
  by (simp add: matcher_New_def newMatcherOptions_def matcherInterval_def newCircuitBreaker_def)

lemma config_matcher_constructs_witness:
  "\<forall>(q :: unit Queue) p c ids. \<exists>m. matcher_New q p c ids (newMatcherOptions example_config) = Inr m
     \<and> sint (threshold (circuit m)) = 5"
  using config_matcher_constructs [OF example_FromEnv] by (fastforce simp: example_config_def)

section \<open>Everything that is wrong is reported\<close>

definition positive_upto :: "(string \<Rightarrow> string) \<Rightarrow> string \<Rightarrow> int \<Rightarrow> bool" where
  "positive_upto env key ub \<longleftrightarrow> (case parse_int64 (env key) of Inl e \<Rightarrow> False | Inr n \<Rightarrow> 0 < n \<and> n \<le> ub)"

text \<open>The faulty variables of an environment with a known mode.\<close>

definition faulty_vars :: "(string \<Rightarrow> string) \<Rightarrow> string list" where
  "faulty_vars env =
     filter (\<lambda>k. is_blank (env k))
       ((if env ''APP_ENV'' = AppEnvLocal then [''UPSTASH_REDIS_URL''] else [])
          @ [''GOOGLE_CLOUD_PROJECT_ID'', ''MATCH_MADE_TOPIC'', ''INTERNAL_AUTH_PUBLIC_KEY''])
     @ map fst (filter (\<lambda>(k, ub). \<not> positive_upto env k ub)
         [(''PORT'', maxPort), (''MATCHMAKING_CIRCUIT_THRESHOLD'', noUpperBound),
          (''MATCHMAKING_CIRCUIT_COOLDOWN_SEC'', maxDurationSeconds),
          (''MATCHMAKING_DRAIN_TIMEOUT_SEC'', maxDurationSeconds)])"

definition named_vars :: "problem list \<Rightarrow> fmt_arg list" where
  "named_vars ps = map (\<lambda>(f, as). hd as) ps"

lemma named_vars_append: "named_vars (ps @ qs) = named_vars ps @ named_vars qs"
  by (simp add: named_vars_def)

lemma named_required:
  "named_vars (problem_list (snd (readRequiredString env k))) = (if is_blank (env k) then [AStr k] else [])"
  by (simp add: readRequiredString_def problem_list_def named_vars_def)

lemma named_positive:
  "named_vars (problem_list (snd (readPositiveInt env k ub))) = (if positive_upto env k ub then [] else [AStr k])"
  by (simp add: readPositiveInt_def problem_list_def named_vars_def positive_upto_def parse_int64_def Let_def
      split: sum.split)

text \<open>The problems that \<open>FromEnv\<close> collects.\<close>

definition env_problems :: "(string \<Rightarrow> string) \<Rightarrow> problem list" where
  "env_problems env = concat (map problem_list [
      snd (if env ''APP_ENV'' = AppEnvLocal then readRequiredString env ''UPSTASH_REDIS_URL'' else ([], None)),
      snd (readRequiredString env ''GOOGLE_CLOUD_PROJECT_ID''), snd (readRequiredString env ''MATCH_MADE_TOPIC''),
      snd (readRequiredString env ''INTERNAL_AUTH_PUBLIC_KEY''), snd (readPositiveInt env ''PORT'' maxPort),
      snd (readPositiveInt env ''MATCHMAKING_CIRCUIT_THRESHOLD'' noUpperBound),
      snd (readPositiveInt env ''MATCHMAKING_CIRCUIT_COOLDOWN_SEC'' maxDurationSeconds),
      snd (readPositiveInt env ''MATCHMAKING_DRAIN_TIMEOUT_SEC'' maxDurationSeconds)])"

lemma filter_concat: "map f (filter P xs) = concat (map (\<lambda>x. if P x then [f x] else []) xs)"
  by (induction xs) auto

lemma if_not_swap: "(if \<not> b then x else y) = (if b then y else x)"
  by simp

lemma named_vars_concat: "named_vars (concat (map problem_list ps)) = concat (map (named_vars \<circ> problem_list) ps)"
  by (induction ps) (auto simp: named_vars_def)

lemma env_problems_named: "named_vars (env_problems env) = map AStr (faulty_vars env)"
proof -
  have none: "named_vars (problem_list None) = []" by (simp add: problem_list_def named_vars_def)
  have local: "named_vars (problem_list (snd (if b then readRequiredString env k else ([], None))))
      = concat (map (\<lambda>k. if is_blank (env k) then [AStr k] else []) (if b then [k] else []))" for b k
    by (simp add: named_required none)
  show ?thesis
    unfolding env_problems_def named_vars_concat faulty_vars_def map_append filter_append map_map filter_concat
    by (simp add: local named_required named_positive if_distrib [of "map AStr"] if_not_swap split del: if_split
        cong: if_cong)
qed

lemma FromEnv_known:
  assumes "env ''APP_ENV'' \<in> {AppEnvLocal, AppEnvProduction}"
  obtains cfg where
    "FromEnv env = (if env_problems env \<noteq> [] then Inl (config_error (env_problems env)) else Inr cfg)"
proof -
  have "(env ''APP_ENV'' = []) = False" "(env ''APP_ENV'' \<noteq> AppEnvLocal \<and> env ''APP_ENV'' \<noteq> AppEnvProduction) = False"
    using assms by (auto simp: AppEnvLocal_def AppEnvProduction_def)
  then show thesis
    by (intro that) (simp only: FromEnv_def Let_def case_prod_beta env_problems_def if_False list.map concat.simps)
qed


section \<open>The environment of the configuration's tests\<close>

text \<open>internal/config/configtest/env.go. An unset variable reads as the empty string.\<close>

datatype Setting = Unset | SetValue string

definition apply_Setting :: "string \<times> Setting \<Rightarrow> (string \<Rightarrow> string) \<Rightarrow> string \<Rightarrow> string" where
  "apply_Setting ks env = (case ks of (k, Unset) \<Rightarrow> env(k := []) | (k, SetValue v) \<Rightarrow> env(k := v))"

definition validEnv :: "(string \<times> string) list" where
  "validEnv =
    [(''APP_ENV'', ''local''), (''UPSTASH_REDIS_URL'', ''redis://dummy-valkey:6379''),
     (''GOOGLE_CLOUD_PROJECT_ID'', ''dummy-project''), (''MATCH_MADE_TOPIC'', ''dummy-topic''),
     (''INTERNAL_AUTH_PUBLIC_KEY'', ''dummy-public-key''), (''PORT'', ''8080''),
     (''MATCHMAKING_CIRCUIT_THRESHOLD'', ''3''), (''MATCHMAKING_CIRCUIT_COOLDOWN_SEC'', ''30''),
     (''MATCHMAKING_DRAIN_TIMEOUT_SEC'', ''15'')]"

definition SetEnv :: "(string \<times> Setting) list \<Rightarrow> (string \<Rightarrow> string) \<Rightarrow> string \<Rightarrow> string" where
  "SetEnv overrides env = fold apply_Setting overrides (fold (\<lambda>(k, v) e. e(k := v)) validEnv env)"

text \<open>Nothing is faulty in the tests' environment.\<close>

lemma validEnv_faulty: "faulty_vars (SetEnv [] env) = []"
  by (simp add: faulty_vars_def SetEnv_def validEnv_def AppEnvLocal_def positive_upto_def parse_int64_def
      parse_uint64_def digit_val_def maxPort_def noUpperBound_def maxDurationSeconds_def second_def is_space_def)

end
