(* ===== verification/Publisher.thy ===== *)
theory Publisher
  imports Presenter
begin

text \<open>
  internal/adapter/pubsub: the implementation of \<open>port.RawEventPublisher\<close> on Google Pub/Sub. The
  client library is not part of the repository: it is the parameter \<open>gpubsub\<close>, a record of the
  calls the adapter makes, over a world \<open>'w\<close> and with opaque clients \<open>'c\<close>, topic publishers
  \<open>'t\<close> and publish results \<open>'r\<close>. Nothing is assumed of it here.
\<close>

record ('w, 'c, 't, 'r) gpubsub =
  gp_NewClient :: "go_ctx \<Rightarrow> string \<Rightarrow> 'w \<Rightarrow> (go_error + 'c) \<times> 'w"
  gp_Publisher :: "'c \<Rightarrow> string \<Rightarrow> 't"
  gp_Publish :: "'t \<Rightarrow> go_ctx \<Rightarrow> string \<Rightarrow> 'w \<Rightarrow> 'r \<times> 'w"
  gp_Get :: "'r \<Rightarrow> go_ctx \<Rightarrow> 'w \<Rightarrow> (go_error + string) \<times> 'w"
  gp_Stop :: "'t \<Rightarrow> 'w \<Rightarrow> 'w"
  gp_Close :: "'c \<Rightarrow> 'w \<Rightarrow> go_error option \<times> 'w"

text \<open>
  The struct \<open>Publisher\<close>. The map \<open>byEventType\<close> is a list of its entries, in the order in which
  \<open>range\<close> meets them; \<open>New\<close> builds a map of one entry, so the order is the only one.
\<close>

record ('c, 't) Publisher =
  pb_client :: 'c
  pb_byEventType :: "(string \<times> 't) list"
  pb_publishTimeout :: int

definition pubsub_New ::
  "('w, 'c, 't, 'r) gpubsub \<Rightarrow> go_ctx \<Rightarrow> string \<Rightarrow> string \<Rightarrow> int \<Rightarrow> 'w
     \<Rightarrow> (go_error + ('c, 't) Publisher) \<times> 'w" where
  "pubsub_New G ctx projectID matchMadeTopic publishTimeout w =
    (if projectID = [] then (Inl (ErrNew ''pubsub: projectID is empty''), w)
     else if matchMadeTopic = [] then (Inl (ErrNew ''pubsub: matchMadeTopic is required''), w)
     else if publishTimeout \<le> 0 then
       (Inl (Errorf ''pubsub: publishTimeout must be positive, got %s'' [AInt publishTimeout]), w)
     else
       (case gp_NewClient G ctx projectID w of
          (Inl err, w) \<Rightarrow> (Inl (Errorf ''pubsub: new pubsub client: %w'' [AErr err]), w)
        | (Inr client, w) \<Rightarrow>
            (Inr \<lparr>pb_client = client,
                  pb_byEventType = [(EventTypeMatchMade, gp_Publisher G client matchMadeTopic)],
                  pb_publishTimeout = publishTimeout\<rparr>, w)))"

definition pubsub_Close ::
  "('w, 'c, 't, 'r) gpubsub \<Rightarrow> ('c, 't) Publisher \<Rightarrow> 'w \<Rightarrow> go_error option \<times> 'w" where
  "pubsub_Close G p w = gp_Close G (pb_client p) (fold (gp_Stop G) (map snd (pb_byEventType p)) w)"

text \<open>\<open>defer cancel()\<close> releases the derived context when the call returns; it has no other effect.\<close>

definition pubsub_Publish ::
  "('w, 'c, 't, 'r) gpubsub \<Rightarrow> ('c, 't) Publisher \<Rightarrow> go_ctx \<Rightarrow> string \<Rightarrow> string \<Rightarrow> 'w
     \<Rightarrow> go_error option \<times> 'w" where
  "pubsub_Publish G p ctx eventType payload w =
    (case map_of (pb_byEventType p) eventType of
       None \<Rightarrow> (Some (Errorf ''pubsub: unknown event type %q'' [AStr eventType]), w)
     | Some publisher \<Rightarrow>
         (let ctx = WithTimeout ctx (pb_publishTimeout p);
              (result, w) = gp_Publish G publisher ctx payload w
          in case gp_Get G result ctx w of
               (Inl err, w) \<Rightarrow>
                 (Some (Errorf ''pubsub: publish event_type=%s: %w'' [AStr eventType, AErr err]), w)
             | (Inr _, w) \<Rightarrow> (None, w)))"

text \<open>The adapter as a value of the port.\<close>

definition pubsub_port :: "('w, 'c, 't, 'r) gpubsub \<Rightarrow> ('c, 't) Publisher \<Rightarrow> 'w RawEventPublisher" where
  "pubsub_port G p = \<lparr>Publish = pubsub_Publish G p\<rparr>"

section \<open>Properties\<close>

lemma New_fields:
  "pubsub_New G c pid topic tmo w = (Inr p, w') \<Longrightarrow>
     pb_byEventType p = [(EventTypeMatchMade, gp_Publisher G (pb_client p) topic)]
     \<and> pb_publishTimeout p = tmo \<and> 0 < tmo"
  by (auto simp: pubsub_New_def split: if_splits prod.splits sum.splits)

end
