(* ===== verification/Delivery.thy ===== *)
theory Delivery
  imports MatcherQueue Publisher
begin

text \<open>
  internal/adapter/matchid, and the matcher on its real adapters: the Pub/Sub publisher of theory
  Publisher and the identifiers of \<open>ULIDGenerator\<close>. The ULID library is the parameter \<open>ulid_lib\<close>; its
  \<open>MustNew\<close> panics on an instant after the year 10889, which is not modelled.
\<close>

section \<open>Match identifiers\<close>

record ('w, 'ts) ulid_lib =
  ul_Timestamp :: "instant \<Rightarrow> 'ts"
  ul_MustNew :: "'ts \<Rightarrow> 'w \<Rightarrow> string \<times> 'w"

definition matchIDPrefix :: string where
  "matchIDPrefix = ''mch_''"

text \<open>The struct \<open>ULIDGenerator\<close> has the clock as its only field.\<close>

definition ulid_NewMatchID :: "('w, 'ts) ulid_lib \<Rightarrow> 'w Clock \<Rightarrow> 'w \<Rightarrow> string \<times> 'w" where
  "ulid_NewMatchID U cl w =
    (let (now, w) = Now cl w;
         (i, w) = ul_MustNew U (ul_Timestamp U now) w
     in (matchIDPrefix @ i, w))"

definition NewULIDGenerator :: "('w, 'ts) ulid_lib \<Rightarrow> 'w Clock \<Rightarrow> 'w MatchIDGenerator" where
  "NewULIDGenerator U cl = \<lparr>NewMatchID = ulid_NewMatchID U cl\<rparr>"

section \<open>Answers that were noted were given\<close>

text \<open>Every noted publication and identifier is an answer of the adapter in some world.\<close>

definition notes_true :: "'w Matcher \<Rightarrow> call list \<Rightarrow> bool" where
  "notes_true m t \<longleftrightarrow>
     (\<forall>x \<in> set t. case x of
        CPublish c ty p r \<Rightarrow> \<exists>w. fst (Publish (publisher m) c ty p w) = r
      | CMatchID i \<Rightarrow> \<exists>w. fst (NewMatchID (matchIDs m) w) = i
      | _ \<Rightarrow> True)"

lemma notes_true_append [simp]: "notes_true m (t @ u) \<longleftrightarrow> notes_true m t \<and> notes_true m u"
  by (auto simp: notes_true_def)

lemma notes_true_one [simp]:
  "notes_true m [CNow n]" "notes_true m [CPop c a]" "notes_true m [CReenqueue c es g b]"
  "notes_true m [CCtxErr c k]" "notes_true m [CWait c d k]"
  "notes_true m [CPublish c ty p r] \<longleftrightarrow> (\<exists>w. fst (Publish (publisher m) c ty p w) = r)"
  "notes_true m [CMatchID i] \<longleftrightarrow> (\<exists>w. fst (NewMatchID (matchIDs m) w) = i)"
  by (simp_all add: notes_true_def)

lemma notes_trueD:
  "notes_true m t \<Longrightarrow> CMatchID i \<in> set t \<Longrightarrow> \<exists>w. fst (NewMatchID (matchIDs m) w) = i"
  "notes_true m t \<Longrightarrow> CPublish c ty p r \<in> set t \<Longrightarrow> \<exists>w. fst (Publish (publisher m) c ty p w) = r"
  unfolding notes_true_def by (drule (1) bspec, simp)+

lemma tick_notes_true: "notes_true m (tick_notes m c w)"
proof -
  let ?P = "\<lambda>wt. notes_true m (snd wt)"
  have env: "env_keeps ?P (recording m)"
    by (auto simp: env_keeps_def Let_def case_prod_beta)
  have "?P (snd (snd (tick (recording m) c (w, [])))) \<or> ?P (snd (snd (tick (recording m) c (w, []))))"
    by (rule tick_keeps [OF env env, where L = "\<lambda>es g. True"])
      (auto simp: Let_def case_prod_beta notes_true_def [of _ "[]"])
  then show ?thesis by (simp add: tick_notes_def)
qed

section \<open>Properties\<close>

text \<open>
  C20. On the Pub/Sub adapter and the ULID generator, whatever a tick publishes goes to the topic of
  the configuration, within the publish timeout, under an event type that the adapter knows: it is
  the encoding of the popped pair under an identifier that starts with \<open>mch_\<close>, and the publication
  counts as done exactly when Pub/Sub acknowledged it.
\<close>

theorem tick_publishes_on_topic:
  assumes "pubsub_New G c0 pid topic tmo w0 = (Inr p, w1)" and "publisher m = pubsub_port G p"
    and "matchIDs m = NewULIDGenerator U cl"
    and "(c', ty, payload, r) \<in> set (publications (tick_notes m c w))"
  shows "\<exists>es g i w2 res w3.
      pops (tick_notes m c w) = [(c, Inr (es, g))] \<and> length es = MatchPlayerCount
      \<and> payload = match_payload (matchIDPrefix @ i) es
      \<and> gp_Publish G (gp_Publisher G (pb_client p) topic) (WithTimeout c tmo) payload w2 = (res, w3)
      \<and> (r = None \<longleftrightarrow> (\<exists>msg. fst (gp_Get G res (WithTimeout c tmo) w3) = Inr msg))"
proof (rule tick_recorded [of m c w])
  fix m' w'
  assume run: "tick (recording m) c (w, []) = (fst (tick m c w), m', (w', tick_notes m c w))"
  have "\<exists>es g j. pops (tick_notes m c w) = [(c, Inr (es, g))] \<and> length es = MatchPlayerCount
      \<and> CMatchID j \<in> set (tick_notes m c w) \<and> c' = c \<and> ty = EventTypeMatchMade
      \<and> payload = match_payload j es \<and> CPublish c ty payload r \<in> set (tick_notes m c w)"
    using run
  proof (cases rule: tick_shapes)
    case (returned n es g i err n' u ls1 ls2)
    then show ?thesis
      using assms(4) retry_notes_bounds(1,2) [OF returned(5)] by (auto simp: note_defs)
  qed (use assms(4) in \<open>auto simp: note_defs\<close>)
  then obtain es g j where t: "pops (tick_notes m c w) = [(c, Inr (es, g))]" "length es = MatchPlayerCount"
    "CMatchID j \<in> set (tick_notes m c w)" "ty = EventTypeMatchMade" "payload = match_payload j es"
    "CPublish c ty payload r \<in> set (tick_notes m c w)" by blast
  obtain wj where "fst (NewMatchID (matchIDs m) wj) = j"
    using notes_trueD(1) [OF tick_notes_true t(3)] by blast
  then obtain i where i: "j = matchIDPrefix @ i"
    by (auto simp: assms(3) NewULIDGenerator_def ulid_NewMatchID_def Let_def case_prod_beta)
  obtain w2 where w2: "fst (Publish (publisher m) c ty payload w2) = r"
    using notes_trueD(2) [OF tick_notes_true t(6)] by blast
  obtain res w3 where res: "gp_Publish G (gp_Publisher G (pb_client p) topic) (WithTimeout c tmo) payload w2
      = (res, w3)" by fastforce
  have "r = None \<longleftrightarrow> (\<exists>msg. fst (gp_Get G res (WithTimeout c tmo) w3) = Inr msg)"
    using w2 res New_fields [OF assms(1)] t(4)
    by (auto simp: assms(2) pubsub_port_def pubsub_Publish_def Let_def split: prod.splits sum.splits)
  then show ?thesis using t(1,2,5) i res by blast
qed

lemma tick_publishes_on_topic_witness:
  "\<exists>m :: unit Matcher. publications (tick_notes m SignalCtx ()) =
     [(SignalCtx, EventTypeMatchMade, match_payload ''mch_7'' two_players, None)]"
proof -
  let ?G = "\<lparr>gp_NewClient = \<lambda>c pid w. (Inr (), w), gp_Publisher = \<lambda>c topic. (),
     gp_Publish = \<lambda>t c p w. ((), w), gp_Get = \<lambda>r c w. (Inr ''1'', w), gp_Stop = \<lambda>t w. w,
     gp_Close = \<lambda>c w. (None, w)\<rparr> :: (unit, unit, unit, unit) gpubsub"
  let ?p = "\<lparr>pb_client = (), pb_byEventType = [(EventTypeMatchMade, ())], pb_publishTimeout = second\<rparr>"
  let ?U = "\<lparr>ul_Timestamp = \<lambda>n. n, ul_MustNew = \<lambda>t w. (''7'', w)\<rparr> :: (unit, int) ulid_lib"
  let ?f = "fixed_matcher (Inr (two_players, ''g1'')) None (Inr True) False"
  let ?m = "?f\<lparr>publisher := pubsub_port ?G ?p, matchIDs := NewULIDGenerator ?U (clock ?f)\<rparr>"
  have new: "pubsub_New ?G SignalCtx ''p'' ''t'' second () = (Inr ?p, ())"
    by (simp add: pubsub_New_def second_def)
  have t: "publications (tick_notes ?m SignalCtx ()) =
      [(SignalCtx, EventTypeMatchMade, match_payload ''mch_7'' two_players, None)]"
    by (simp add: example_simps pubsub_port_def pubsub_Publish_def NewULIDGenerator_def
        ulid_NewMatchID_def matchIDPrefix_def match_payload_def)
  have "(SignalCtx, EventTypeMatchMade, match_payload ''mch_7'' two_players, None)
      \<in> set (publications (tick_notes ?m SignalCtx ()))" unfolding t by simp
  from tick_publishes_on_topic [OF new _ _ this, of ?U "clock ?f"] t show ?thesis by auto
qed

end
