(* ===== verification/SystemClock.thy ===== *)
theory SystemClock
  imports Domain
begin

text \<open>
  internal/port/clock.go as it is declared, and internal/adapter/systemclock. A channel of instants
  is an element of \<open>'ch\<close>; the package \<open>time\<close> is the parameter \<open>go_time\<close>, a \<open>*time.Ticker\<close> an element
  of \<open>'tk\<close>. \<open>matcher_clock\<close> is the part of the interface that the matcher uses (theory Domain).
\<close>

record ('w, 'ch) port_Ticker =
  pt_C :: 'ch
  pt_Stop :: "'w \<Rightarrow> 'w"

record ('w, 'ch) port_Clock =
  pc_Now :: "'w \<Rightarrow> instant \<times> 'w"
  pc_After :: "int \<Rightarrow> 'w \<Rightarrow> 'ch \<times> 'w"
  pc_NewTicker :: "int \<Rightarrow> 'w \<Rightarrow> ('w, 'ch) port_Ticker \<times> 'w"

record ('w, 'ch, 'tk) go_time =
  gt_Now :: "'w \<Rightarrow> instant \<times> 'w"
  gt_After :: "int \<Rightarrow> 'w \<Rightarrow> 'ch \<times> 'w"
  gt_NewTicker :: "int \<Rightarrow> 'w \<Rightarrow> 'tk \<times> 'w"
  gt_TickerC :: "'tk \<Rightarrow> 'ch"
  gt_TickerStop :: "'tk \<Rightarrow> 'w \<Rightarrow> 'w"

text \<open>The methods of \<open>systemclock.ticker\<close>, and the value as the interface.\<close>

definition sys_ticker_C :: "('w, 'ch, 'tk) go_time \<Rightarrow> 'tk \<Rightarrow> 'ch" where
  "sys_ticker_C T k = gt_TickerC T k"

definition sys_ticker_Stop :: "('w, 'ch, 'tk) go_time \<Rightarrow> 'tk \<Rightarrow> 'w \<Rightarrow> 'w" where
  "sys_ticker_Stop T k w = gt_TickerStop T k w"

definition sys_Now :: "('w, 'ch, 'tk) go_time \<Rightarrow> 'w \<Rightarrow> instant \<times> 'w" where
  "sys_Now T w = gt_Now T w"

definition sys_After :: "('w, 'ch, 'tk) go_time \<Rightarrow> int \<Rightarrow> 'w \<Rightarrow> 'ch \<times> 'w" where
  "sys_After T d w = gt_After T d w"

definition sys_NewTicker :: "('w, 'ch, 'tk) go_time \<Rightarrow> int \<Rightarrow> 'w \<Rightarrow> ('w, 'ch) port_Ticker \<times> 'w" where
  "sys_NewTicker T d w =
     (let (t, w) = gt_NewTicker T d w in (\<lparr>pt_C = sys_ticker_C T t, pt_Stop = sys_ticker_Stop T t\<rparr>, w))"

definition sys_New :: "('w, 'ch, 'tk) go_time \<Rightarrow> ('w, 'ch) port_Clock" where
  "sys_New T = \<lparr>pc_Now = sys_Now T, pc_After = sys_After T, pc_NewTicker = sys_NewTicker T\<rparr>"

text \<open>
  \<open>sel c ch\<close> is the \<open>select\<close> of the context's \<open>Done\<close> channel against \<open>ch\<close> (\<open>True\<close>: \<open>Done\<close>), \<open>err c\<close>
  whether \<open>ctx.Err()\<close> is not nil.
\<close>

definition matcher_clock ::
  "(go_ctx \<Rightarrow> 'ch \<Rightarrow> 'w \<Rightarrow> bool \<times> 'w) \<Rightarrow> (go_ctx \<Rightarrow> 'w \<Rightarrow> bool \<times> 'w) \<Rightarrow> ('w, 'ch) port_Clock \<Rightarrow> 'w Clock" where
  "matcher_clock sel err C =
    \<lparr>Now = pc_Now C, WaitOrDone = (\<lambda>c d w. let (ch, w) = pc_After C d w in sel c ch w), CtxErr = err\<rparr>"

text \<open>The clock of the process reads and waits on the system's time and nothing else.\<close>

lemma matcher_clock_system:
  "Now (matcher_clock sel err (sys_New T)) w = gt_Now T w"
  "WaitOrDone (matcher_clock sel err (sys_New T)) c d w = (case gt_After T d w of (ch, w') \<Rightarrow> sel c ch w')"
  by (simp_all add: matcher_clock_def sys_New_def sys_Now_def sys_After_def)

end
