(* ===== verification/Server.thy ===== *)
theory Server
  imports Config Delivery Handler SystemClock
begin

text \<open>
  cmd/server/main.go: the loggers, the Redis client, and \<open>run\<close>, which starts the parts and stops
  them. What \<open>run\<close> calls outside the repository (the clients' constructors, the ping, the key's parser,
  the HTTP server) answers as the record \<open>outcomes\<close> says; \<open>run\<close> is then a function to its error and
  the sequence of its visible steps, deferred calls included, in which the order of the shutdown
  shows.
\<close>

section \<open>Logging\<close>

text \<open>The severity that \<open>newCloudLoggingHandler\<close> writes for a level (\<open>slog\<close> numbers its levels).\<close>

definition slogDebug :: int where "slogDebug = - 4"
definition slogInfo :: int where "slogInfo = 0"
definition slogWarn :: int where "slogWarn = 4"
definition slogError :: int where "slogError = 8"

datatype slog_value = LevelValue int | StringValue string | OtherValue

definition severity_of :: "int \<Rightarrow> string" where
  "severity_of level =
    (if slogError \<le> level then ''ERROR''
     else if slogWarn \<le> level then ''WARNING''
     else if slogInfo \<le> level then ''INFO''
     else ''DEBUG'')"

text \<open>\<open>ReplaceAttr\<close> of the handler, on an attribute (key and value).\<close>

definition replaceAttr :: "string \<times> slog_value \<Rightarrow> string \<times> slog_value" where
  "replaceAttr a =
    (if fst a = ''level'' then
       (case snd a of
          LevelValue level \<Rightarrow> (''severity'', StringValue (severity_of level))
        | _ \<Rightarrow> a)
     else if fst a = ''msg'' then (''message'', snd a)
     else a)"

datatype log_format = CloudJSON | Text

text \<open>The logger: format, whether it writes to stdout, its minimum level.\<close>

record logger =
  lg_format :: log_format
  lg_stdout :: bool
  lg_level :: int

definition newLogger :: "string \<Rightarrow> go_error + logger" where
  "newLogger appEnv =
    (if appEnv = AppEnvProduction then Inr \<lparr>lg_format = CloudJSON, lg_stdout = True, lg_level = slogInfo\<rparr>
     else if appEnv = AppEnvLocal then Inr \<lparr>lg_format = Text, lg_stdout = False, lg_level = slogDebug\<rparr>
     else Inl (Errorf ''unexpected APP_ENV: %s'' [AStr appEnv]))"

section \<open>The Redis client\<close>

text \<open>
  internal/adapter/secretmanager: \<open>sm\<close> is Google's client as a parameter, the payload of a secret's
  latest version or an error (\<open>None\<close>: no payload), and the closing.
\<close>

record 'c secrets =
  sm_NewClient :: "go_error + 'c"
  sm_AccessSecretVersion :: "'c \<Rightarrow> string \<Rightarrow> go_error + string option"
  sm_Close :: "'c \<Rightarrow> go_error option"

definition secretmanager_NewClient :: "'c secrets \<Rightarrow> string \<Rightarrow> go_error + (string \<times> 'c)" where
  "secretmanager_NewClient S projectID =
    (if projectID = [] then Inl (Errorf ''secretmanager: projectID is empty'' [])
     else (case sm_NewClient S of
             Inl err \<Rightarrow> Inl (Errorf ''secretmanager: new client: %w'' [AErr err])
           | Inr c \<Rightarrow> Inr (projectID, c)))"

definition secret_name :: "string \<Rightarrow> string \<Rightarrow> string" where
  "secret_name projectID secretID = ''projects/'' @ projectID @ ''/secrets/'' @ secretID @ ''/versions/latest''"

definition AccessLatest :: "'c secrets \<Rightarrow> string \<times> 'c \<Rightarrow> string \<Rightarrow> go_error + string" where
  "AccessLatest S cl secretID =
    (case sm_AccessSecretVersion S (snd cl) (secret_name (fst cl) secretID) of
       Inl err \<Rightarrow> Inl (Errorf ''secretmanager: access %s: %w'' [AStr secretID, AErr err])
     | Inr payload \<Rightarrow>
         (case payload of
            None \<Rightarrow> Inl (Errorf ''secretmanager: access %s: empty payload'' [AStr secretID])
          | Some d \<Rightarrow> if d = [] then Inl (Errorf ''secretmanager: access %s: empty payload'' [AStr secretID])
                      else Inr d))"

definition secretmanager_Close :: "'c secrets \<Rightarrow> string \<times> 'c \<Rightarrow> go_error option" where
  "secretmanager_Close S cl = sm_Close S (snd cl)"

definition secretIDUpstashEndpoint :: string where
  "secretIDUpstashEndpoint = ''matchmaking-upstash-redis-endpoint''"

definition secretIDUpstashPassword :: string where
  "secretIDUpstashPassword = ''matchmaking-upstash-redis-password''"

text \<open>The options of the go-redis client: parsed from a URL, or address and password over TLS 1.2.\<close>

datatype 'o redis_options = FromURL 'o | Upstash string string

text \<open>
  Beside the result, the answers of the deferred \<open>Close\<close>: one when the secrets' client was opened. Its
  error is thrown away.
\<close>

definition newRedisClient ::
  "'c secrets \<Rightarrow> (string \<Rightarrow> go_error + 'o) \<Rightarrow> Config \<Rightarrow> (go_error + 'o redis_options) \<times> go_error option list" where
  "newRedisClient S parseURL cfg =
    (if AppEnv cfg = AppEnvLocal then
       (case parseURL (RedisURL cfg) of
          Inl err \<Rightarrow> (Inl (Errorf ''parse redis url: %w'' [AErr err]), [])
        | Inr opt \<Rightarrow> (Inr (FromURL opt), []))
     else if AppEnv cfg = AppEnvProduction then
       (case secretmanager_NewClient S (GoogleCloudProjectID cfg) of
          Inl err \<Rightarrow> (Inl err, [])
        | Inr sm \<Rightarrow>
            (let deferred = [secretmanager_Close S sm] in
             case AccessLatest S sm secretIDUpstashEndpoint of
               Inl err \<Rightarrow> (Inl err, deferred)
             | Inr endpoint \<Rightarrow>
                 (case AccessLatest S sm secretIDUpstashPassword of
                    Inl err \<Rightarrow> (Inl err, deferred)
                  | Inr password \<Rightarrow> (Inr (Upstash endpoint password), deferred))))
     else (Inl (Errorf ''unsupported APP_ENV: %q'' [AStr (AppEnv cfg)]), []))"

section \<open>run\<close>

definition publishTimeout :: int where "publishTimeout = 5 * second"
definition readHeaderTimeout :: int where "readHeaderTimeout = 10 * second"
definition httpShutdownTimeout :: int where "httpShutdownTimeout = 15 * second"

text \<open>
  What \<open>run\<close> takes from outside the repository: the libraries, the commands of the Redis client, and how
  ping, key parsing, serving and shutdown go. \<open>oc_serve\<close> is the \<open>select\<close>: a listener's error, or the
  signal. \<open>oc_breaker\<close> reads the matcher's breaker, which the handlers and the matcher share.
\<close>

record 'w http_server =
  srv_Addr :: string
  srv_Handler :: "request \<Rightarrow> 'w \<Rightarrow> (response \<times> log list \<times> 'w) option"
  srv_ReadHeaderTimeout :: int

record ('w, 'c, 'o, 'p, 't, 'r, 'ch, 'tk, 'ts, 'k) outcomes =
  oc_secrets :: "'c secrets"
  oc_parseURL :: "string \<Rightarrow> go_error + 'o"
  oc_redis :: "'o redis_options \<Rightarrow> 'w redis"
  oc_ping :: "'o redis_options \<Rightarrow> go_error option"
  oc_pubsub :: "('w, 'p, 't, 'r) gpubsub"
  oc_time :: "('w, 'ch, 'tk) go_time"
  oc_select :: "go_ctx \<Rightarrow> 'ch \<Rightarrow> 'w \<Rightarrow> bool \<times> 'w"
  oc_ctx_err :: "go_ctx \<Rightarrow> 'w \<Rightarrow> bool \<times> 'w"
  oc_ulid :: "('w, 'ts) ulid_lib"
  oc_key :: "string \<Rightarrow> go_error + 'k"
  oc_verify :: "'k \<Rightarrow> request \<Rightarrow> response + string"
  oc_gin :: gin
  oc_breaker :: "'w \<Rightarrow> circuitBreaker"
  oc_serve :: "'w http_server \<Rightarrow> go_error option"
  oc_shutdown :: "go_ctx \<Rightarrow> go_error option"
  oc_world :: 'w

datatype server_event =
    RedisOpened
  | PublisherOpened
  | MatcherStarted
  | HTTPServing
  | ShutdownRequested
  | HTTPShutdown
  | MatcherAwaited
  | PublisherClosed
  | RedisClosed
  | SignalContextCancelled

text \<open>The clock of the process, and the HTTP server over the queue and the matcher.\<close>

definition server_clock :: "('w, 'c, 'o, 'p, 't, 'r, 'ch, 'tk, 'ts, 'k) outcomes \<Rightarrow> 'w Clock" where
  "server_clock oc = matcher_clock (oc_select oc) (oc_ctx_err oc) (sys_New (oc_time oc))"

definition http_server_of ::
  "('w, 'c, 'o, 'p, 't, 'r, 'ch, 'tk, 'ts, 'k) outcomes \<Rightarrow> Config \<Rightarrow> 'w Queue \<Rightarrow> 'w Matcher \<Rightarrow> 'k \<Rightarrow> 'w http_server" where
  "http_server_of oc cfg q m key =
    (let authVerifier = oc_verify oc key;
         h = handler_New q (\<lambda>w. IsCircuitOpen (m\<lparr>circuit := oc_breaker oc w\<rparr>)) (Abandon (abandon_New q))
     in \<lparr>srv_Addr = '':'' @ fmt_int (Port cfg), srv_Handler = NewRouter (oc_gin oc) authVerifier h,
         srv_ReadHeaderTimeout = readHeaderTimeout\<rparr>)"

text \<open>\<open>run\<close>; the deferred calls run in reverse order at every return after their \<open>defer\<close>.\<close>

definition run ::
  "('w, 'c, 'o, 'p, 't, 'r, 'ch, 'tk, 'ts, 'k) outcomes \<Rightarrow> (string \<Rightarrow> string) \<Rightarrow> go_error option \<times> server_event list" where
  "run oc env =
    (case FromEnv env of
       Inl err \<Rightarrow> (Some err, [])
     | Inr cfg \<Rightarrow>
    (case newLogger (AppEnv cfg) of
       Inl err \<Rightarrow> (Some err, [])
     | Inr logger \<Rightarrow>
    (case fst (newRedisClient (oc_secrets oc) (oc_parseURL oc) cfg) of
       Inl err \<Rightarrow> (Some err, [SignalContextCancelled])
     | Inr opts \<Rightarrow>
    (let defers1 = [RedisClosed, SignalContextCancelled] in
     case oc_ping oc opts of
       Some err \<Rightarrow> (Some (Errorf ''redis ping: %w'' [AErr err]), RedisOpened # defers1)
     | None \<Rightarrow>
    (let q = NewRedisQueue (oc_redis oc opts) in
     case fst (pubsub_New (oc_pubsub oc) SignalCtx (GoogleCloudProjectID cfg) (MatchMadeTopic cfg)
                 publishTimeout (oc_world oc)) of
       Inl err \<Rightarrow> (Some err, RedisOpened # defers1)
     | Inr pub \<Rightarrow>
    (let opened = [RedisOpened, PublisherOpened]; defers2 = PublisherClosed # defers1;
         cl = server_clock oc in
     case matcher_New q (pubsub_port (oc_pubsub oc) pub) cl (NewULIDGenerator (oc_ulid oc) cl)
            (newMatcherOptions cfg) of
       Inl err \<Rightarrow> (Some err, opened @ defers2)
     | Inr m \<Rightarrow>
    (case oc_key oc (InternalAuthPublicKey cfg) of
       Inl err \<Rightarrow> (Some (Errorf ''INTERNAL_AUTH_PUBLIC_KEY is invalid: %w'' [AErr err]),
                   opened @ [MatcherStarted] @ defers2)
     | Inr internalAuthKey \<Rightarrow>
    (case oc_serve oc (http_server_of oc cfg q m internalAuthKey) of
       Some err \<Rightarrow> (Some err, opened @ [MatcherStarted, HTTPServing] @ defers2)
     | None \<Rightarrow>
    (let stopped = opened @ [MatcherStarted, HTTPServing, ShutdownRequested, HTTPShutdown] in
     case oc_shutdown oc (WithTimeout Background httpShutdownTimeout) of
       Some err \<Rightarrow> (Some (Errorf ''http shutdown: %w'' [AErr err]), stopped @ defers2)
     | None \<Rightarrow> (None, stopped @ [MatcherAwaited] @ defers2))))))))))"

text \<open>\<open>main\<close>: the process's exit status and its last log record.\<close>

definition main_exit ::
  "('w, 'c, 'o, 'p, 't, 'r, 'ch, 'tk, 'ts, 'k) outcomes \<Rightarrow> (string \<Rightarrow> string) \<Rightarrow> nat \<times> log list" where
  "main_exit oc env =
    (case fst (run oc env) of
       Some err \<Rightarrow> (1, [Log LevelError ''matchmaking fatal'' [(''error'', AVal err)]])
     | None \<Rightarrow> (0, []))"

section \<open>Properties\<close>

text \<open>The shapes of a run: where it ends.\<close>

lemma run_shapes:
  "run oc env \<in>
     {(Some err, evs) | err evs. evs \<in> {[], [SignalContextCancelled],
        [RedisOpened, RedisClosed, SignalContextCancelled],
        [RedisOpened, PublisherOpened, PublisherClosed, RedisClosed, SignalContextCancelled],
        [RedisOpened, PublisherOpened, MatcherStarted, PublisherClosed, RedisClosed, SignalContextCancelled],
        [RedisOpened, PublisherOpened, MatcherStarted, HTTPServing, PublisherClosed, RedisClosed,
         SignalContextCancelled],
        [RedisOpened, PublisherOpened, MatcherStarted, HTTPServing, ShutdownRequested, HTTPShutdown,
         PublisherClosed, RedisClosed, SignalContextCancelled]}}
     \<union> {(None, [RedisOpened, PublisherOpened, MatcherStarted, HTTPServing, ShutdownRequested, HTTPShutdown,
         MatcherAwaited, PublisherClosed, RedisClosed, SignalContextCancelled])}"
  by (auto simp: run_def Let_def split: sum.splits option.splits)

text \<open>
  When \<open>run\<close> returns without an error, it has started Redis, publisher, matcher and listener in
  that order, and has stopped them in an order in which nothing is closed while it may be in use: the
  listener is shut down, then the matcher is awaited, and only then the publisher and Redis are
  closed.
\<close>

lemma run_graceful_shutdown:
  assumes "fst (run oc env) = None"
  shows "snd (run oc env) =
    [RedisOpened, PublisherOpened, MatcherStarted, HTTPServing, ShutdownRequested, HTTPShutdown,
     MatcherAwaited, PublisherClosed, RedisClosed, SignalContextCancelled]"
  using assms run_shapes [of oc env] by auto

text \<open>The secrets' client is closed exactly once when it was opened, and is opened in production only.\<close>

lemma secrets_closed:
  "snd (newRedisClient S parse cfg) =
     (if AppEnv cfg = AppEnvProduction
      then (case secretmanager_NewClient S (GoogleCloudProjectID cfg) of
              Inl err \<Rightarrow> [] | Inr sm \<Rightarrow> [secretmanager_Close S sm])
      else [])"
  by (auto simp: newRedisClient_def AppEnvLocal_def AppEnvProduction_def Let_def split: sum.split)

text \<open>Opening and closing the two clients.\<close>

definition resource_event :: "server_event \<Rightarrow> bool" where
  "resource_event e = (e \<in> {RedisOpened, PublisherOpened, PublisherClosed, RedisClosed})"

text \<open>
  What \<open>run\<close> opens it closes, in reverse order, on every path, the errors included.
\<close>

lemma run_closes_what_it_opens:
  "filter resource_event (snd (run oc env)) = []
   \<or> filter resource_event (snd (run oc env)) = [RedisOpened, RedisClosed]
   \<or> filter resource_event (snd (run oc env)) = [RedisOpened, PublisherOpened, PublisherClosed, RedisClosed]"
  using run_shapes [of oc env] by (auto simp: resource_event_def)

text \<open>
  C35. Once the matcher runs, it is awaited only when \<open>run\<close> ends without an error: an invalid key, a
  listener's error and a failed shutdown of the HTTP server all close the publisher and Redis under
  a matcher that may be in the middle of a tick.
\<close>

theorem run_error_skips_matcher_wait:
  assumes "MatcherStarted \<in> set (snd (run oc env))"
  shows "(MatcherAwaited \<in> set (snd (run oc env)) \<longleftrightarrow> fst (run oc env) = None)
    \<and> PublisherClosed \<in> set (snd (run oc env)) \<and> RedisClosed \<in> set (snd (run oc env))"
  using assms run_shapes [of oc env] by auto


section \<open>Examples\<close>

definition example_pubsub :: "(ref_world, unit, unit, unit) gpubsub" where
  "example_pubsub = \<lparr>gp_NewClient = \<lambda>c pid w. (Inr (), w), gp_Publisher = \<lambda>c topic. (),
     gp_Publish = \<lambda>t c p w. ((), w), gp_Get = \<lambda>r c w. (Inr ''1'', w), gp_Stop = \<lambda>t w. w,
     gp_Close = \<lambda>c w. (None, w)\<rparr>"

definition example_outcomes ::
  "go_error option \<Rightarrow> (ref_world, unit, unit, unit, unit, unit, unit, unit, unit, unit) outcomes" where
  "example_outcomes serve = \<lparr>
     oc_secrets = \<lparr>sm_NewClient = Inr (), sm_AccessSecretVersion = \<lambda>c n. Inr (Some ''v''), sm_Close = \<lambda>c. None\<rparr>,
     oc_parseURL = \<lambda>u. Inr (), oc_redis = \<lambda>opts. ref_redis, oc_ping = \<lambda>opts. None, oc_pubsub = example_pubsub,
     oc_time = \<lparr>gt_Now = \<lambda>w. (rw_now w, w), gt_After = \<lambda>d w. ((), w), gt_NewTicker = \<lambda>d w. ((), w),
       gt_TickerC = \<lambda>t. (), gt_TickerStop = \<lambda>t w. w\<rparr>,
     oc_select = \<lambda>c ch w. (True, w), oc_ctx_err = \<lambda>c w. (True, w),
     oc_ulid = \<lparr>ul_Timestamp = \<lambda>n. (), ul_MustNew = \<lambda>t w. (''7'', w)\<rparr>,
     oc_key = \<lambda>k. Inr (), oc_verify = \<lambda>k rq. Inr (rq_body rq), oc_gin = example_gin,
     oc_breaker = \<lambda>w. newCircuitBreaker 3 second, oc_serve = \<lambda>srv. serve,
     oc_shutdown = \<lambda>c. None, oc_world = example_world\<rparr>"

lemma example_opts:
  "fst (newRedisClient (oc_secrets (example_outcomes sv)) (oc_parseURL (example_outcomes sv)) example_config)
     = Inr (Upstash ''v'' ''v'')"
  by (simp add: newRedisClient_def example_config_def AppEnvLocal_def AppEnvProduction_def
      secretmanager_NewClient_def AccessLatest_def example_outcomes_def)

lemma example_pubsub_New:
  "fst (pubsub_New example_pubsub SignalCtx ''x'' ''x'' publishTimeout example_world) =
     Inr \<lparr>pb_client = (), pb_byEventType = [(EventTypeMatchMade, ())], pb_publishTimeout = publishTimeout\<rparr>"
  by (simp add: pubsub_New_def publishTimeout_def second_def example_pubsub_def)

lemma example_matcher:
  "\<exists>m. matcher_New q p c ids (newMatcherOptions example_config) = Inr m"
  using accepted_options(1) [OF example_FromEnv] by (simp add: matcher_New_def)

text \<open>The example's runs: the signal arrives, or the listener fails.\<close>

lemma example_runs:
  "fst (run (example_outcomes None) example_env) = None"
  "run (example_outcomes (Some err)) example_env =
     (Some err, [RedisOpened, PublisherOpened, MatcherStarted, HTTPServing, PublisherClosed, RedisClosed,
        SignalContextCancelled])"
proof -
  have lg: "\<exists>l. newLogger (AppEnv example_config) = Inr l"
    by (simp add: newLogger_def example_config_def AppEnvProduction_def)
  have fields: "GoogleCloudProjectID example_config = ''x''" "MatchMadeTopic example_config = ''x''"
    by (simp_all add: example_config_def)
  have outs: "oc_ping (example_outcomes sv) opts = None" "oc_pubsub (example_outcomes sv) = example_pubsub"
    "oc_key (example_outcomes sv) key = Inr ()" "oc_serve (example_outcomes sv) srv = sv"
    "oc_shutdown (example_outcomes sv) cx = None" "oc_world (example_outcomes sv) = example_world" for sv opts key srv cx
    by (simp_all add: example_outcomes_def)
  note ex = run_def Let_def example_FromEnv example_opts example_pubsub_New fields outs
  obtain l where l: "newLogger (AppEnv example_config) = Inr l" using lg by blast
  show "fst (run (example_outcomes None) example_env) = None"
    using accepted_options(1) [OF example_FromEnv] l by (simp add: ex matcher_New_def)
  show "run (example_outcomes (Some err)) example_env =
     (Some err, [RedisOpened, PublisherOpened, MatcherStarted, HTTPServing, PublisherClosed, RedisClosed,
        SignalContextCancelled])"
    using accepted_options(1) [OF example_FromEnv] l by (simp add: ex matcher_New_def)
qed

lemma run_graceful_shutdown_witness:
  "fst (run (example_outcomes None) example_env) = None \<and>
   snd (run (example_outcomes None) example_env) =
    [RedisOpened, PublisherOpened, MatcherStarted, HTTPServing, ShutdownRequested, HTTPShutdown,
     MatcherAwaited, PublisherClosed, RedisClosed, SignalContextCancelled]"
  using example_runs(1) run_graceful_shutdown [OF example_runs(1)] by simp

lemma run_error_skips_matcher_wait_witness:
  "MatcherStarted \<in> set (snd (run (example_outcomes (Some (ErrOther ''listen''))) example_env))
   \<and> MatcherAwaited \<notin> set (snd (run (example_outcomes (Some (ErrOther ''listen''))) example_env))"
  using run_error_skips_matcher_wait [of "example_outcomes (Some (ErrOther ''listen''))" example_env]
  by (simp add: example_runs)


end
