(* ===== verification/Process.thy ===== *)
theory Process
  imports System RunLoop Server
begin

text \<open>
  The process: the matcher, the loop and the HTTP server that \<open>run\<close> (cmd/server/main.go) builds from
  an environment, working together. \<open>starts\<close> names what \<open>run\<close> has built when the listener serves,
  \<open>served\<close> is the activity of that HTTP server, \<open>process\<close> the interleavings of the loop's goroutines with
  it; the lemmas lead each execution of the process back to a history of theory System.

  The events of the requests stand beside the server's state: \<open>redis_beside\<close> is the server R in a
  world that also holds them.
\<close>

section \<open>A server beside the events\<close>

definition redis_beside :: "'s redis \<Rightarrow> ('s \<times> 'e) redis" where
  "redis_beside R = \<lparr>
     rd_get = (\<lambda>k v. rd_get R k (fst v)),
     rd_set = (\<lambda>k x. apfst (rd_set R k x)),
     rd_del = (\<lambda>k. apfst (rd_del R k)),
     rd_zcard = (\<lambda>k v. rd_zcard R k (fst v)),
     rd_zrange = (\<lambda>k v. rd_zrange R k (fst v)),
     rd_zrem = (\<lambda>k m v. apsnd (\<lambda>s. (s, snd v)) (rd_zrem R k m (fst v))),
     rd_zadd = (\<lambda>k x m. apfst (rd_zadd R k x m)),
     rd_zpopmin = (\<lambda>k n v. apsnd (\<lambda>s. (s, snd v)) (rd_zpopmin R k n (fst v))),
     rd_eval = (\<lambda>c sc v. apsnd (\<lambda>s. (s, snd v)) (rd_eval R c (\<lambda>s. apsnd fst (sc (s, snd v))) (fst v))),
     rd_int64 = rd_int64 R,
     rd_strings = rd_strings R,
     rd_float_arg = rd_float_arg R,
     rd_client_zcard = (\<lambda>c k v. apsnd (\<lambda>s. (s, snd v)) (rd_client_zcard R c k (fst v))),
     rd_now = (\<lambda>v. rd_now R (fst v))\<rparr>"

lemma redis_beside_simps [simp]:
  "rd_get (redis_beside R) k (s, e) = rd_get R k s"
  "rd_set (redis_beside R) k x (s, e) = (rd_set R k x s, e)"
  "rd_del (redis_beside R) k (s, e) = (rd_del R k s, e)"
  "rd_zcard (redis_beside R) k (s, e) = rd_zcard R k s"
  "rd_zrange (redis_beside R) k (s, e) = rd_zrange R k s"
  "rd_zrem (redis_beside R) k m (s, e) = apsnd (\<lambda>s. (s, e)) (rd_zrem R k m s)"
  "rd_zadd (redis_beside R) k y m (s, e) = (rd_zadd R k y m s, e)"
  "rd_zpopmin (redis_beside R) k n (s, e) = apsnd (\<lambda>s. (s, e)) (rd_zpopmin R k n s)"
  "rd_eval (redis_beside R) c sc (s, e) = apsnd (\<lambda>s. (s, e)) (rd_eval R c (\<lambda>s. apsnd fst (sc (s, e))) s)"
  "rd_int64 (redis_beside R) = rd_int64 R" "rd_strings (redis_beside R) = rd_strings R"
  "rd_float_arg (redis_beside R) = rd_float_arg R"
  "rd_client_zcard (redis_beside R) c k (s, e) = apsnd (\<lambda>s. (s, e)) (rd_client_zcard R c k s)"
  "rd_now (redis_beside R) (s, e) = rd_now R s"
  by (simp_all add: redis_beside_def)

lemma removePlayerEntries_beside:
  "removePlayerEntries (redis_beside R) k p (s, e) = apsnd (\<lambda>s. (s, e)) (removePlayerEntries R k p s)"
proof -
  have "removeLoop (redis_beside R) k p ms n (s, e) = apsnd (\<lambda>s. (s, e)) (removeLoop R k p ms n s)" for ms n
    by (induction ms arbitrary: n s) (simp_all add: case_prod_beta)
  then show ?thesis by (simp add: removePlayerEntries_def)
qed

lemma reenqueueLoop_beside:
  "reenqueueLoop (redis_beside R) k args (s, e) = (reenqueueLoop R k args s, e)"
  by (induction R k args s rule: reenqueueLoop.induct) (simp_all add: removePlayerEntries_beside Let_def)

lemma scripts_beside:
  "(\<lambda>s. apsnd fst (enqueueScript (redis_beside R) qk ik p m x g (s, e))) = enqueueScript R qk ik p m x g"
  "(\<lambda>s. apsnd fst (popPairScript (redis_beside R) qk ik (s, e))) = popPairScript R qk ik"
  "(\<lambda>s. apsnd fst (cancelScript (redis_beside R) qk p (s, e))) = cancelScript R qk p"
  "(\<lambda>s. apsnd fst (reenqueueScript (redis_beside R) qk ik g args (s, e))) = reenqueueScript R qk ik g args"
  by (simp_all add: fun_eq_iff enqueueScript_def popPairScript_def cancelScript_def reenqueueScript_def
      removePlayerEntries_beside reenqueueLoop_beside Let_def case_prod_beta)

lemma run_int64_beside:
  "run_int64 (redis_beside R) f c sc (s, e) =
     apsnd (\<lambda>s. (s, e)) (run_int64 R f c (\<lambda>s. apsnd fst (sc (s, e))) s)"
  by (auto simp: run_int64_def case_prod_beta apsnd_def split: sum.splits prod.splits)

lemma reenqueueArgs_beside: "reenqueueArgs (redis_beside R) es = reenqueueArgs R es"
  by (induction es) (simp_all split: option.split)

lemma redis_calls_beside:
  "redis_Enqueue (redis_beside R) c p d n l g (s, e) = apsnd (\<lambda>s. (s, e)) (redis_Enqueue R c p d n l g s)"
  "redis_Cancel (redis_beside R) c p (s, e) = apsnd (\<lambda>s. (s, e)) (redis_Cancel R c p s)"
  "redis_Size (redis_beside R) c (s, e) = apsnd (\<lambda>s. (s, e)) (redis_Size R c s)"
  "redis_PopPair (redis_beside R) c (s, e) = apsnd (\<lambda>s. (s, e)) (redis_PopPair R c s)"
  "redis_Reenqueue (redis_beside R) c es g (s, e) = apsnd (\<lambda>s. (s, e)) (redis_Reenqueue R c es g s)"
  by (simp_all add: redis_Enqueue_def redis_Cancel_def redis_Size_def redis_PopPair_def redis_Reenqueue_def
      run_int64_beside scripts_beside reenqueueArgs_beside Let_def case_prod_beta
      split: option.split sum.split list.split)

text \<open>The queue over the server beside the events is the queue beside the events.\<close>

lemma NewRedisQueue_beside: "NewRedisQueue (redis_beside R) = beside (NewRedisQueue R)"
  by (simp add: NewRedisQueue_def beside_def fun_eq_iff redis_calls_beside)

section \<open>The router beside the events\<close>

lemma cancel_all_beside:
  "cancel_all (beside Q) c i ids (w, e) = apsnd (\<lambda>w. (w, e)) (cancel_all Q c i ids w)"
  by (induction ids arbitrary: w) (simp_all add: Let_def case_prod_beta prod_eq_iff split: sum.split)

lemma service_simps:
  "h_queue (service Q circ) = Q" "h_circuit (service Q circ) = circ"
  "h_abandoner (service Q circ) = Abandon (abandon_New Q)"
  by (simp_all add: service_def handler_New_def)

lemma Abandon_beside:
  "Abandon (abandon_New (beside Q)) c i ids r (w, e) =
     apsnd (apsnd (\<lambda>w. (w, e))) (Abandon (abandon_New Q) c i ids r w)"
  by (simp add: Abandon_def abandon_New_def cancel_all_beside Let_def case_prod_beta prod_eq_iff)

text \<open>The handlers, and so the router, only look at their own part of the world.\<close>

lemma handlers_beside:
  fixes Q :: "'w Queue" and circ :: "'w \<Rightarrow> bool"
  defines "hb \<equiv> service (beside Q) (circ \<circ> fst)" and "h \<equiv> service Q circ"
  shows "handle_RespondQueueSize hb rq (w, e) = apsnd (apsnd (\<lambda>w. (w, e))) (handle_RespondQueueSize h rq w)"
    and "handle_RespondHealth hb (w, e) = handle_RespondHealth h w"
    and "handle_Enqueue G hb p rq (w, e) = apsnd (apsnd (\<lambda>w. (w, e))) (handle_Enqueue G h p rq w)"
    and "handle_Cancel hb p rq (w, e) = apsnd (apsnd (\<lambda>w. (w, e))) (handle_Cancel h p rq w)"
    and "handle_ReportMatchAbandoned G hb rq (w, e)
           = apsnd (apsnd (\<lambda>w. (w, e))) (handle_ReportMatchAbandoned G h rq w)"
proof -
  show "handle_RespondQueueSize hb rq (w, e) = apsnd (apsnd (\<lambda>w. (w, e))) (handle_RespondQueueSize h rq w)"
    by (simp add: handle_RespondQueueSize_def hb_def h_def service_simps respondUnavailable_def case_prod_beta
        split: sum.split)
  show "handle_RespondHealth hb (w, e) = handle_RespondHealth h w"
    by (simp add: handle_RespondHealth_def hb_def h_def service_simps)
  show "handle_Enqueue G hb p rq (w, e) = apsnd (apsnd (\<lambda>w. (w, e))) (handle_Enqueue G h p rq w)"
    by (simp add: handle_Enqueue_def hb_def h_def service_simps respondUnavailable_def case_prod_beta
        split: sum.split)
  show "handle_Cancel hb p rq (w, e) = apsnd (apsnd (\<lambda>w. (w, e))) (handle_Cancel h p rq w)"
    by (simp add: handle_Cancel_def hb_def h_def service_simps respondUnavailable_def case_prod_beta
        split: sum.split)
  show "handle_ReportMatchAbandoned G hb rq (w, e)
      = apsnd (apsnd (\<lambda>w. (w, e))) (handle_ReportMatchAbandoned G h rq w)"
    by (simp add: handle_ReportMatchAbandoned_def hb_def h_def service_simps Abandon_beside respondUnavailable_def
        case_prod_beta split: sum.split option.split)
qed

lemma router_beside:
  "NewRouter G verify (service (beside Q) (circ \<circ> fst)) rq (w, e) =
     map_option (apsnd (apsnd (\<lambda>w. (w, e)))) (NewRouter G verify (service Q circ) rq w)"
  by (simp add: NewRouter_def handlers_beside split: sum.split)

section \<open>What run starts\<close>

text \<open>The matcher, the HTTP server and the key of an environment, as \<open>run\<close> builds them.\<close>

definition starts ::
  "('w, 'c, 'o, 'p, 't, 'r, 'ch, 'tk, 'ts, 'k) outcomes \<Rightarrow> (string \<Rightarrow> string) \<Rightarrow> 'w Matcher \<Rightarrow> 'w http_server
     \<Rightarrow> 'k \<Rightarrow> bool" where
  "starts oc env m srv key \<longleftrightarrow>
    (\<exists>cfg lg opts pub. FromEnv env = Inr cfg \<and> newLogger (AppEnv cfg) = Inr lg
      \<and> fst (newRedisClient (oc_secrets oc) (oc_parseURL oc) cfg) = Inr opts \<and> oc_ping oc opts = None
      \<and> fst (pubsub_New (oc_pubsub oc) SignalCtx (GoogleCloudProjectID cfg) (MatchMadeTopic cfg) publishTimeout
               (oc_world oc)) = Inr pub
      \<and> matcher_New (NewRedisQueue (oc_redis oc opts)) (pubsub_port (oc_pubsub oc) pub) (server_clock oc)
          (NewULIDGenerator (oc_ulid oc) (server_clock oc)) (newMatcherOptions cfg) = Inr m
      \<and> oc_key oc (InternalAuthPublicKey cfg) = Inr key
      \<and> srv = http_server_of oc cfg (NewRedisQueue (oc_redis oc opts)) m key)"

lemma serving_starts: "HTTPServing \<in> set (snd (run oc env)) \<longleftrightarrow> (\<exists>m srv key. starts oc env m srv key)"
  by (auto simp: run_def starts_def Let_def split: sum.split option.split)

text \<open>
  The activity of the HTTP server that \<open>run\<close> has started: requests through its handler, each noted by
  its events; one cancellation of a match-abandoned request that is still running; and time.
\<close>

inductive served ::
  "gin \<Rightarrow> (request \<Rightarrow> response + string) \<Rightarrow> ('s \<times> event list) http_server \<Rightarrow> ('s \<times> event list) Queue
     \<Rightarrow> ('s \<Rightarrow> 's \<Rightarrow> bool) \<Rightarrow> 's \<times> event list \<Rightarrow> 's \<times> event list \<Rightarrow> bool"
  for G verify srv q same and v :: "'s \<times> event list" where
  idle: "served G verify srv q same v v"
| request: "served G verify srv q same v v1 \<Longrightarrow> srv_Handler srv rq v1 = Some (resp, ls, v2) \<Longrightarrow>
     served G verify srv q same v (fst v2, request_events G verify rq resp @ snd v2)"
| cancelling: "served G verify srv q same v v1 \<Longrightarrow>
     served G verify srv q same v (fst (snd (Cancel q c p v1)), TakenOut p # snd v1)"
| elapse: "served G verify srv q same v (w, evs) \<Longrightarrow> same w w' \<Longrightarrow>
     served G verify srv q same v (w', evs)"

lemma served_trans:
  "served G verify srv q same v1 v2 \<Longrightarrow> served G verify srv q same v v1 \<Longrightarrow> served G verify srv q same v v2"
  by (induction rule: served.induct) (auto intro: served.intros)

text \<open>The calls of the libraries that the matcher makes through its ports are steps of the world.\<close>

definition libraries_do ::
  "('w \<Rightarrow> 'w \<Rightarrow> bool) \<Rightarrow> ('w, 'c, 'o, 'p, 't, 'r, 'ch, 'tk, 'ts, 'k) outcomes \<Rightarrow> bool" where
  "libraries_do act oc \<longleftrightarrow>
    (\<forall>v. act v (snd (gt_Now (oc_time oc) v)) \<and> (\<forall>d. act v (snd (gt_After (oc_time oc) d v)))
       \<and> (\<forall>c ch. act v (snd (oc_select oc c ch v))) \<and> (\<forall>c. act v (snd (oc_ctx_err oc c v)))
       \<and> (\<forall>t. act v (snd (ul_MustNew (oc_ulid oc) t v)))
       \<and> (\<forall>t c p. act v (snd (gp_Publish (oc_pubsub oc) t c p v)))
       \<and> (\<forall>r c. act v (snd (gp_Get (oc_pubsub oc) r c v))))"

lemma starts_matcher:
  assumes "starts oc env m srv key" and "\<And>opts. oc_redis oc opts = redis_beside R"
  obtains pub where "queue m = beside (NewRedisQueue R)" "publisher m = pubsub_port (oc_pubsub oc) pub"
    "clock m = server_clock oc" "matchIDs m = NewULIDGenerator (oc_ulid oc) (server_clock oc)"
    "srv_Handler srv = NewRouter (oc_gin oc) (oc_verify oc key)
       (service (beside (NewRedisQueue R)) (\<lambda>v. IsCircuitOpen (m\<lparr>circuit := oc_breaker oc v\<rparr>)))"
  using assms
  by (auto simp: starts_def matcher_New_def http_server_of_def service_def NewRedisQueue_beside Let_def
      split: option.splits)

lemma starts_env_does:
  assumes st: "starts oc env m srv key" "\<And>opts. oc_redis oc opts = redis_beside R"
    and lib: "libraries_do act oc" and act: "\<And>v. act v v" "\<And>v1 v2 v3. act v1 v2 \<Longrightarrow> act v2 v3 \<Longrightarrow> act v1 v3"
  shows "env_does act m"
proof -
  obtain pub where m: "publisher m = pubsub_port (oc_pubsub oc) pub" "clock m = server_clock oc"
    "matchIDs m = NewULIDGenerator (oc_ulid oc) (server_clock oc)"
    by (rule starts_matcher [OF st])
  have call: "act v (snd (gt_Now (oc_time oc) v))" "act v (snd (gt_After (oc_time oc) d v))"
    "act v (snd (oc_select oc c ch v))" "act v (snd (oc_ctx_err oc c v))" "act v (snd (ul_MustNew (oc_ulid oc) t v))"
    "act v (snd (gp_Publish (oc_pubsub oc) tp c p v))" "act v (snd (gp_Get (oc_pubsub oc) r c v))"
    for v d c ch t tp p r
    using lib unfolding libraries_do_def by blast+
  have "act v (snd (Publish (publisher m) c ty p v))" for v c ty p
    using act(1) act(2) [OF call(6,7)]
    by (auto simp: m pubsub_port_def pubsub_Publish_def Let_def case_prod_beta split: option.split sum.split)
  then show ?thesis
    using call act(2) [OF call(1,5)] act(2) [OF call(2,3)]
    by (simp add: env_does_def m server_clock_def matcher_clock_system matcher_clock_def sys_New_def sys_Now_def sys_After_def
        NewULIDGenerator_def ulid_NewMatchID_def Let_def case_prod_beta del: split_paired_All)
qed

text \<open>The started HTTP server answers as the service of theory Activity over its own queue.\<close>

lemma starts_handler:
  assumes st: "starts oc env m srv key" "\<And>opts. oc_redis oc opts = redis_beside R"
    and br: "\<And>v. oc_breaker oc v = br (fst v)"
  shows "srv_Handler srv rq (w, evs) =
    map_option (apsnd (apsnd (\<lambda>w. (w, evs))))
      (NewRouter (oc_gin oc) (oc_verify oc key)
        (service (NewRedisQueue R) (\<lambda>s. IsCircuitOpen (m\<lparr>circuit := br s\<rparr>))) rq w)"
proof -
  let ?circ = "\<lambda>s. IsCircuitOpen (m\<lparr>circuit := br s\<rparr>)"
  have "(\<lambda>v. IsCircuitOpen (m\<lparr>circuit := oc_breaker oc v\<rparr>)) = ?circ \<circ> fst" by (simp add: br fun_eq_iff)
  with starts_matcher [OF st]
  have "srv_Handler srv = NewRouter (oc_gin oc) (oc_verify oc key) (service (beside (NewRedisQueue R)) (?circ \<circ> fst))"
    by metis
  then show ?thesis by (simp add: router_beside)
qed

lemma served_activity:
  assumes st: "starts oc env m srv key" "\<And>opts. oc_redis oc opts = redis_beside R"
    and br: "\<And>v. oc_breaker oc v = br (fst v)"
  shows "served (oc_gin oc) (oc_verify oc key) srv (queue m) same
       = activity (oc_gin oc) (oc_verify oc key) (\<lambda>s. IsCircuitOpen (m\<lparr>circuit := br s\<rparr>)) (NewRedisQueue R) same"
    (is "?served = ?activity")
proof (intro ext iffI)
  fix v v'
  note h = starts_handler [OF st br]
  obtain pub where q: "queue m = beside (NewRedisQueue R)" by (rule starts_matcher [OF st])
  show "?activity v v'" if "?served v v'"
    using that
  proof induction
    case (request v1 rq resp ls v2)
    then show ?case using activity.request by (cases v1) (fastforce simp: h)
  next
    case (cancelling v1 c p)
    then show ?case using activity.cancelling by (cases v1) (fastforce simp: q case_prod_beta)
  qed (auto intro: activity.intros)
  show "?served v v'" if "?activity v v'"
    using that
  proof induction
    case (request w evs rq resp ls w')
    then have "srv_Handler srv rq (w, evs) = Some (resp, ls, (w', evs))" by (simp add: h)
    from served.request [OF request.IH this] show ?case by simp
  next
    case (cancelling w evs c p)
    from served.cancelling [OF cancelling.IH, of c p] show ?case by (simp add: q case_prod_beta)
  qed (auto intro: served.intros)
qed

section \<open>Executions\<close>

text \<open>
  The loop's goroutines interleaved with steps \<open>act\<close> of the world, with the log records and the notes
  of every tick, newest first. A step of the loop that is not a tick leaves the world, the matcher and
  the number of ticks.
\<close>

inductive process ::
  "('w \<Rightarrow> 'w \<Rightarrow> bool) \<Rightarrow> go_ctx \<Rightarrow> 'w run_state \<Rightarrow> 'w run_state \<Rightarrow> (log list \<times> call list) list \<Rightarrow> bool"
  for act c s0 where
  start: "process act c s0 s0 []"
| others: "process act c s0 s ts \<Longrightarrow> act (world s) w \<Longrightarrow> process act c s0 (s\<lparr>world := w\<rparr>) ts"
| tick: "process act c s0 s ts \<Longrightarrow> 0 < ticking s \<Longrightarrow>
     process act c s0 (runTick c s)
       ((fst (tick (matcher s) c (world s)), tick_notes (matcher s) c (world s)) # ts)"
| loop: "process act c s0 s ts \<Longrightarrow> run_step c s s' \<Longrightarrow>
     world s' = world s \<Longrightarrow> matcher s' = matcher s \<Longrightarrow> ticks s' = ticks s \<Longrightarrow> process act c s0 s' ts"

lemma process_run_reach: "process act c s0 s ts \<Longrightarrow> run_reach c s0 s"
  by (induction rule: process.induct) (auto intro: run_reach.intros run_step.intros)

lemma run_step_logs: "run_step c s s' \<Longrightarrow> set (logs s) \<subseteq> set (logs s')"
  by (induction rule: run_step.induct) (auto simp: startTick_def runTick_def Let_def case_prod_beta)

lemma runTick_simps:
  "matcher (runTick c s) = fst (snd (tick (matcher s) c (world s)))"
  "world (runTick c s) = snd (snd (tick (matcher s) c (world s)))"
  "ticks (runTick c s) = Suc (ticks s)" "logs (runTick c s) = logs s @ fst (tick (matcher s) c (world s))"
  by (simp_all add: runTick_def Let_def case_prod_beta)

text \<open>An execution is a history, one tick of it for each tick of the loop, and the log holds their records.\<close>

lemma process_history:
  assumes "process act c (run_start m w) s ts"
  shows "history act c m w (matcher s) (world s) ts" and "length ts = ticks s"
    and "(ls, t) \<in> set ts \<Longrightarrow> set ls \<subseteq> set (logs s)"
proof -
  have "history act c m w (matcher s) (world s) ts \<and> length ts = ticks s
      \<and> (\<forall>ls t. (ls, t) \<in> set ts \<longrightarrow> set ls \<subseteq> set (logs s))"
    using assms
  proof induction
    case start
    then show ?case by (simp add: run_start_def history.start)
  next
    case (others s ts w)
    then show ?case by (auto intro: history.other)
  next
    case (tick s ts)
    then show ?case by (fastforce simp: runTick_simps intro: history.tick)
  next
    case (loop s ts s')
    then show ?case using run_step_logs by (simp, blast)
  qed
  then show "history act c m w (matcher s) (world s) ts" "length ts = ticks s"
    "(ls, t) \<in> set ts \<Longrightarrow> set ls \<subseteq> set (logs s)"
    by blast+
qed

section \<open>An example\<close>

text \<open>
  The libraries succeed and nothing happens in their calls; two players join before the first tick.
\<close>

definition example_process ::
  "(ref_world \<times> event list, unit, unit, unit, unit, unit, unit, unit, unit, unit) outcomes" where
  "example_process = \<lparr>
     oc_secrets = \<lparr>sm_NewClient = Inr (), sm_AccessSecretVersion = \<lambda>c n. Inr (Some ''v''), sm_Close = \<lambda>c. None\<rparr>,
     oc_parseURL = \<lambda>u. Inr (), oc_redis = \<lambda>opts. redis_beside ref_redis, oc_ping = \<lambda>opts. None,
     oc_pubsub = \<lparr>gp_NewClient = \<lambda>c pid v. (Inr (), v), gp_Publisher = \<lambda>c topic. (),
       gp_Publish = \<lambda>t c p v. ((), v), gp_Get = \<lambda>r c v. (Inr ''1'', v), gp_Stop = \<lambda>t v. v,
       gp_Close = \<lambda>c v. (None, v)\<rparr>,
     oc_time = \<lparr>gt_Now = \<lambda>v. (rw_now (fst v), v), gt_After = \<lambda>d v. ((), v), gt_NewTicker = \<lambda>d v. ((), v),
       gt_TickerC = \<lambda>t. (), gt_TickerStop = \<lambda>t v. v\<rparr>,
     oc_select = \<lambda>c ch v. (False, v), oc_ctx_err = \<lambda>c v. (False, v),
     oc_ulid = \<lparr>ul_Timestamp = \<lambda>n. (), ul_MustNew = \<lambda>t v. (''7'', v)\<rparr>,
     oc_key = \<lambda>k. Inr (), oc_verify = \<lambda>k rq. Inr (rq_body rq), oc_gin = example_gin,
     oc_breaker = \<lambda>v. newCircuitBreaker 3 second, oc_serve = \<lambda>srv. None,
     oc_shutdown = \<lambda>c. None, oc_world = (example_world, [])\<rparr>"

lemma example_process_simps:
  "oc_redis example_process opts = redis_beside ref_redis" "oc_gin example_process = example_gin"
  "oc_verify example_process k = (\<lambda>rq. Inr (rq_body rq))" "oc_breaker example_process v = newCircuitBreaker 3 second"
  by (simp_all add: example_process_def)

lemma example_started:
  obtains m srv where "starts example_process example_env m srv ()"
    "circuit m = newCircuitBreaker 5 (30 * second)"
    "\<And>c p v. Publish (publisher m) c EventTypeMatchMade p v = (None, v)"
    "\<And>v. Now (clock m) v = (rw_now (fst v), v)" "\<And>v. NewMatchID (matchIDs m) v = (''mch_7'', v)"
proof -
  have opts: "fst (newRedisClient (oc_secrets example_process) (oc_parseURL example_process) example_config)
      = Inr (Upstash ''v'' ''v'')"
    by (simp add: newRedisClient_def example_config_def AppEnvLocal_def AppEnvProduction_def
        secretmanager_NewClient_def AccessLatest_def example_process_def)
  obtain lg where lg: "newLogger (AppEnv example_config) = Inr lg"
    by (simp add: newLogger_def example_config_def AppEnvProduction_def)
  let ?cl = "server_clock example_process"
    and ?pub = "\<lparr>pb_client = (), pb_byEventType = [(EventTypeMatchMade, ())], pb_publishTimeout = publishTimeout\<rparr>"
  have pub: "fst (pubsub_New (oc_pubsub example_process) SignalCtx (GoogleCloudProjectID example_config)
      (MatchMadeTopic example_config) publishTimeout (oc_world example_process)) = Inr ?pub"
    by (simp add: pubsub_New_def publishTimeout_def second_def example_process_def example_config_def)
  let ?q = "NewRedisQueue (oc_redis example_process (Upstash ''v'' ''v''))"
  obtain m where m: "matcher_New ?q (pubsub_port (oc_pubsub example_process) ?pub) ?cl
      (NewULIDGenerator (oc_ulid example_process) ?cl) (newMatcherOptions example_config) = Inr m"
    using accepted_options(1) [OF example_FromEnv] by (simp add: matcher_New_def)
  then have fields: "circuit m = newCircuitBreaker 5 (30 * second)" "clock m = ?cl"
    "publisher m = pubsub_port (oc_pubsub example_process) ?pub" "matchIDs m = NewULIDGenerator (oc_ulid example_process) ?cl"
    by (auto simp: matcher_New_def newMatcherOptions_def example_config_def split: option.splits)
  show thesis
  proof (rule that)
    show "starts example_process example_env m (http_server_of example_process example_config ?q m ()) ()"
      unfolding starts_def using example_FromEnv lg opts pub m
      by (intro exI [of _ example_config] exI [of _ lg] exI [of _ "Upstash ''v'' ''v''"] exI [of _ ?pub])
        (simp add: example_process_def)
    show "Publish (publisher m) c EventTypeMatchMade p v = (None, v)" for c p v
      by (simp add: fields pubsub_port_def pubsub_Publish_def example_process_def)
    show "Now (clock m) v = (rw_now (fst v), v)" "NewMatchID (matchIDs m) v = (''mch_7'', v)" for v
      by (simp_all add: fields server_clock_def matcher_clock_system example_process_def NewULIDGenerator_def
          ulid_NewMatchID_def matchIDPrefix_def)
  qed (rule fields(1))
qed

text \<open>The tick that matches the two.\<close>

lemma example_pair_matched:
  assumes "queue m = beside (NewRedisQueue ref_redis)" and "circuit m = newCircuitBreaker 5 (30 * second)"
    and "\<And>c p v. Publish (publisher m) c EventTypeMatchMade p v = (None, v)"
    and "\<And>v. Now (clock m) v = (rw_now (fst v), v)" and "\<And>v. NewMatchID (matchIDs m) v = (''mch_7'', v)"
  shows "set (matched_in (tick_notes m SignalCtx (two_waiting, evs))) = {''a'', ''b''}"
    and "snd (snd (snd (tick m SignalCtx (two_waiting, evs)))) = evs"
proof -
  obtain es g w1 w2 where r: "redis_PopPair ref_redis SignalCtx two_waiting = (Inr (es, g), w1)"
    "es = queue_entries (ref_view two_waiting)" "length es = 2" "es \<noteq> []"
    "redis_Reenqueue ref_redis SignalCtx es g w1 = (Inr True, w2)"
    by (rule two_waiting_pop)
  let ?v = "(two_waiting, evs)"
  have "pops (tick_notes m SignalCtx ?v) = [(SignalCtx, Inr (es, g))]"
    "publications (tick_notes m SignalCtx ?v) = [(SignalCtx, EventTypeMatchMade, match_payload ''mch_7'' es, None)]"
    using r(1,3,4) assms by (simp_all add: NewRedisQueue_def example_simps match_payload_def)
  then show "set (matched_in (tick_notes m SignalCtx ?v)) = {''a'', ''b''}"
    using two_waiting(4) r(2) by (simp add: matched_in_def popped_players_def)
  show "snd (snd (snd (tick m SignalCtx ?v))) = evs"
    using r(1,3,4) assms by (simp add: NewRedisQueue_def example_simps)
qed

lemma example_execution:
  assumes st: "starts example_process example_env m srv ()"
    and m: "circuit m = newCircuitBreaker 5 (30 * second)"
      "\<And>c p v. Publish (publisher m) c EventTypeMatchMade p v = (None, v)"
      "\<And>v. Now (clock m) v = (rw_now (fst v), v)" "\<And>v. NewMatchID (matchIDs m) v = (''mch_7'', v)"
  obtains s ts where
    "process (served example_gin (\<lambda>rq. Inr (rq_body rq)) srv (queue m) (\<lambda>s s'. ref_view s' = ref_view s))
       SignalCtx (run_start m (example_world, [])) s ts"
    "snd (world s) = [Joined ''b'' ''g1'' True, Joined ''a'' ''g1'' True]"
    "set (matched ts) = {''a'', ''b''}" "ticks s = 1"
proof -
  let ?evs = "[Joined ''b'' ''g1'' True, Joined ''a'' ''g1'' True]"
  let ?act = "served example_gin (\<lambda>rq. Inr (rq_body rq)) srv (queue m) (\<lambda>s s'. ref_view s' = ref_view s)"
  let ?s0 = "run_start m (example_world, [])"
  let ?s1 = "?s0\<lparr>world := (two_waiting, ?evs)\<rparr>"
  let ?s2 = "?s1\<lparr>notified := True\<rparr>"
  let ?s3 = "startTick (?s2\<lparr>notified := False\<rparr>)"
  obtain pub where q: "queue m = beside (NewRedisQueue ref_redis)"
    by (rule starts_matcher [OF st, of ref_redis]) (simp_all add: example_process_simps)
  have "?act = activity example_gin (\<lambda>rq. Inr (rq_body rq)) (\<lambda>s. IsCircuitOpen (m\<lparr>circuit := newCircuitBreaker 3 second\<rparr>))
      (NewRedisQueue ref_redis) (\<lambda>s s'. ref_view s' = ref_view s)"
    using served_activity [OF st, of ref_redis "\<lambda>s. newCircuitBreaker 3 second"]
    by (simp add: example_process_simps)
  then have "?act (example_world, []) (two_waiting, ?evs)"
    using example_joined by (simp add: IsCircuitOpen_def isCircuitOpen_def newCircuitBreaker_def)
  then have "process ?act SignalCtx ?s0 ?s1 []"
    by (intro process.others [OF process.start]) (simp add: run_start_def)
  moreover have "run_step SignalCtx ?s1 ?s2"
    by (rule run_step.ticker_fires [of ?s1]) (simp add: run_start_def)
  ultimately have "process ?act SignalCtx ?s0 ?s2 []"
    by (rule process.loop) simp_all
  moreover have "run_step SignalCtx ?s2 ?s3"
    by (rule run_step.select_ticker [of ?s2]) (simp_all add: run_start_def)
  ultimately have "process ?act SignalCtx ?s0 ?s3 []"
    by (rule process.loop) (simp_all add: startTick_def)
  from process.tick [OF this]
  have p: "process ?act SignalCtx ?s0 (runTick SignalCtx ?s3)
      [(fst (tick m SignalCtx (two_waiting, ?evs)), tick_notes m SignalCtx (two_waiting, ?evs))]"
    by (simp add: startTick_def run_start_def)
  have s3: "world ?s3 = (two_waiting, ?evs)" "matcher ?s3 = m" "ticks ?s3 = 0"
    by (simp_all add: startTick_def run_start_def)
  note tick = example_pair_matched [OF q m, of ?evs]
  show thesis
  proof (rule that [OF p])
    show "snd (world (runTick SignalCtx ?s3)) = ?evs" "ticks (runTick SignalCtx ?s3) = 1"
      by (simp_all only: runTick_simps s3 tick One_nat_def)
    show "set (matched [(fst (tick m SignalCtx (two_waiting, ?evs)), tick_notes m SignalCtx (two_waiting, ?evs))])
        = {''a'', ''b''}"
      using tick(1) by (simp add: matched_def)
  qed
qed

section \<open>Property\<close>



end
