(* ===== verification/OpenapiClient.thy ===== *)
theory OpenapiClient
  imports Handler
begin

text \<open>
  packages/api-matchmaking/openapi\_gen.go: the HTTP client of the service, over a world \<open>'w\<close>. The
  parameters are \<open>net_url\<close> (parsing, resolving and printing URLs of type \<open>'u\<close>), the \<open>Doer\<close> that sends
  a request, and the decoders of \<open>json.Unmarshal\<close>. A body is its bytes. A nil \<open>player_ids\<close> and an empty
  one are both the empty list, which is written \<open>[]\<close>.
\<close>

section \<open>Bodies of answers and requests\<close>

record HealthResponse =
  he_Circuit :: string
  he_Status :: string

record QueueSizeResponse =
  qr_Size :: int64

type_synonym EnqueuePlayerJSONRequestBody = EnqueueRequest
type_synonym ReportMatchAbandonedJSONRequestBody = MatchAbandonedRequest

text \<open>The key under which the generated server code announces the scheme; nothing reads it.\<close>

type_synonym internalAuthContextKey = string

definition InternalAuthScopes :: internalAuthContextKey where
  "InternalAuthScopes = ''InternalAuth.Scopes''"

section \<open>Requests, responses, editors\<close>

record 'u net_url =
  nu_Parse :: "string \<Rightarrow> go_error + 'u"
  nu_Ref :: "'u \<Rightarrow> string \<Rightarrow> go_error + 'u"
  nu_String :: "'u \<Rightarrow> string"

record 'u http_request =
  hr_Method :: string
  hr_URL :: 'u
  hr_Header :: "(string \<times> string) list"
  hr_Body :: "string option"
  hr_ctx :: go_ctx

text \<open>\<open>hp_Body\<close> is what reading the body to its end gives.\<close>

record http_response =
  hp_Status :: string
  hp_StatusCode :: int
  hp_Header :: "(string \<times> string) list"
  hp_Body :: "go_error + string"

text \<open>\<open>http.NewRequest\<close> with one of the methods GET and POST, which it accepts.\<close>

definition http_NewRequest ::
  "'u net_url \<Rightarrow> string \<Rightarrow> string \<Rightarrow> string option \<Rightarrow> go_error + 'u http_request" where
  "http_NewRequest N meth url b =
    (case nu_Parse N url of
       Inl err \<Rightarrow> Inl err
     | Inr u \<Rightarrow> Inr \<lparr>hr_Method = meth, hr_URL = u, hr_Header = [], hr_Body = b, hr_ctx = Background\<rparr>)"

definition header_add :: "string \<Rightarrow> string \<Rightarrow> 'u http_request \<Rightarrow> 'u http_request" where
  "header_add k v r = r\<lparr>hr_Header := hr_Header r @ [(k, v)]\<rparr>"

definition header_get :: "string \<Rightarrow> (string \<times> string) list \<Rightarrow> string" where
  "header_get k h = (case map_of h k of None \<Rightarrow> [] | Some v \<Rightarrow> v)"

text \<open>A \<open>RequestEditorFn\<close> gets the request by reference; it returns it as it leaves it.\<close>

type_synonym ('u, 'w) RequestEditorFn =
  "go_ctx \<Rightarrow> 'u http_request \<Rightarrow> 'w \<Rightarrow> go_error option \<times> 'u http_request \<times> 'w"

type_synonym ('u, 'w) HttpRequestDoer = "'u http_request \<Rightarrow> 'w \<Rightarrow> (go_error + http_response) \<times> 'w"

section \<open>The client\<close>

record ('u, 'w) Client =
  cl_Server :: string
  cl_Client :: "('u, 'w) HttpRequestDoer option"
  cl_RequestEditors :: "('u, 'w) RequestEditorFn list"

type_synonym ('u, 'w) ClientOption = "('u, 'w) Client \<Rightarrow> go_error + ('u, 'w) Client"

fun apply_options :: "('u, 'w) ClientOption list \<Rightarrow> ('u, 'w) Client \<Rightarrow> go_error + ('u, 'w) Client" where
  "apply_options [] c = Inr c"
| "apply_options (f # fs) c = (case f c of Inl err \<Rightarrow> Inl err | Inr c' \<Rightarrow> apply_options fs c')"

definition ensure_slash :: "string \<Rightarrow> string" where
  "ensure_slash s = (if suffix ''/'' s then s else s @ ''/'')"

text \<open>\<open>dflt\<close> is \<open>&http.Client{}\<close>.\<close>

definition openapi_NewClient ::
  "('u, 'w) HttpRequestDoer \<Rightarrow> string \<Rightarrow> ('u, 'w) ClientOption list \<Rightarrow> go_error + ('u, 'w) Client" where
  "openapi_NewClient dflt server opts =
    (case apply_options opts \<lparr>cl_Server = server, cl_Client = None, cl_RequestEditors = []\<rparr> of
       Inl err \<Rightarrow> Inl err
     | Inr c \<Rightarrow>
         (let c = c\<lparr>cl_Server := ensure_slash (cl_Server c)\<rparr>
          in Inr (if cl_Client c = None then c\<lparr>cl_Client := Some dflt\<rparr> else c)))"

definition openapi_WithHTTPClient :: "('u, 'w) HttpRequestDoer \<Rightarrow> ('u, 'w) ClientOption" where
  "openapi_WithHTTPClient doer c = Inr (c\<lparr>cl_Client := Some doer\<rparr>)"

definition openapi_WithRequestEditorFn :: "('u, 'w) RequestEditorFn \<Rightarrow> ('u, 'w) ClientOption" where
  "openapi_WithRequestEditorFn f c = Inr (c\<lparr>cl_RequestEditors := cl_RequestEditors c @ [f]\<rparr>)"

definition openapi_WithBaseURL :: "'u net_url \<Rightarrow> string \<Rightarrow> ('u, 'w) ClientOption" where
  "openapi_WithBaseURL N baseURL c =
    (case nu_Parse N baseURL of Inl err \<Rightarrow> Inl err | Inr u \<Rightarrow> Inr (c\<lparr>cl_Server := nu_String N u\<rparr>))"

fun run_editors ::
  "('u, 'w) RequestEditorFn list \<Rightarrow> go_ctx \<Rightarrow> 'u http_request \<Rightarrow> 'w \<Rightarrow> go_error option \<times> 'u http_request \<times> 'w" where
  "run_editors [] ctx req w = (None, req, w)"
| "run_editors (f # fs) ctx req w =
    (case f ctx req w of
       (Some err, req, w) \<Rightarrow> (Some err, req, w)
     | (None, req, w) \<Rightarrow> run_editors fs ctx req w)"

definition applyEditors ::
  "('u, 'w) Client \<Rightarrow> go_ctx \<Rightarrow> 'u http_request \<Rightarrow> ('u, 'w) RequestEditorFn list \<Rightarrow> 'w
     \<Rightarrow> go_error option \<times> 'u http_request \<times> 'w" where
  "applyEditors c ctx req additional w =
    (case run_editors (cl_RequestEditors c) ctx req w of
       (Some err, req, w) \<Rightarrow> (Some err, req, w)
     | (None, req, w) \<Rightarrow> run_editors additional ctx req w)"

section \<open>Building the requests\<close>

definition operationPath :: "string \<Rightarrow> string" where
  "operationPath p = (if hd p = CHR ''/'' then ''.'' @ p else p)"

text \<open>The common part of the builders.\<close>

definition new_request ::
  "'u net_url \<Rightarrow> string \<Rightarrow> string \<Rightarrow> string \<Rightarrow> string option \<Rightarrow> go_error + 'u http_request" where
  "new_request N meth server path b =
    (case nu_Parse N server of
       Inl err \<Rightarrow> Inl err
     | Inr serverURL \<Rightarrow>
         (case nu_Ref N serverURL (operationPath path) of
            Inl err \<Rightarrow> Inl err
          | Inr queryURL \<Rightarrow> http_NewRequest N meth (nu_String N queryURL) b))"

definition NewCancelPlayerRequest :: "'u net_url \<Rightarrow> string \<Rightarrow> go_error + 'u http_request" where
  "NewCancelPlayerRequest N server = new_request N ''POST'' server ''/internal/v1/cancel'' None"

definition NewGetHealthRequest :: "'u net_url \<Rightarrow> string \<Rightarrow> go_error + 'u http_request" where
  "NewGetHealthRequest N server = new_request N ''GET'' server ''/internal/v1/health'' None"

definition NewGetQueueSizeRequest :: "'u net_url \<Rightarrow> string \<Rightarrow> go_error + 'u http_request" where
  "NewGetQueueSizeRequest N server = new_request N ''GET'' server ''/internal/v1/queue-size'' None"

definition NewEnqueuePlayerRequestWithBody ::
  "'u net_url \<Rightarrow> string \<Rightarrow> string \<Rightarrow> string \<Rightarrow> go_error + 'u http_request" where
  "NewEnqueuePlayerRequestWithBody N server contentType b =
    map_sum id (header_add ''Content-Type'' contentType)
      (new_request N ''POST'' server ''/internal/v1/enqueue'' (Some b))"

definition NewReportMatchAbandonedRequestWithBody ::
  "'u net_url \<Rightarrow> string \<Rightarrow> string \<Rightarrow> string \<Rightarrow> go_error + 'u http_request" where
  "NewReportMatchAbandonedRequestWithBody N server contentType b =
    map_sum id (header_add ''Content-Type'' contentType)
      (new_request N ''POST'' server ''/internal/v1/match-abandoned'' (Some b))"

text \<open>\<open>json.Marshal\<close> of the two request types; it does not fail on them.\<close>

definition marshal_EnqueueRequest :: "EnqueueRequest \<Rightarrow> string" where
  "marshal_EnqueueRequest r =
     ''{'' @ json_key ''deck_id'' @ fmt_int (sint (er_DeckID r)) @ '','' @
     json_key ''gateway_instance_id'' @ json_string (er_GatewayInstanceID r) @ '','' @
     json_key ''level'' @ fmt_int (sint (er_Level r)) @ '','' @
     json_key ''name'' @ json_string (er_Name r) @ ''}''"

definition marshal_MatchAbandonedRequest :: "MatchAbandonedRequest \<Rightarrow> string" where
  "marshal_MatchAbandonedRequest r =
     ''{'' @ json_key ''match_id'' @ json_string (ma_MatchID r) @ '','' @
     json_key ''player_ids'' @ ''['' @ join_comma (map json_string (ma_PlayerIDs r)) @ '']'' @ '','' @
     json_key ''reason'' @ json_string (ma_Reason r) @ ''}''"

definition NewEnqueuePlayerRequest :: "'u net_url \<Rightarrow> string \<Rightarrow> EnqueueRequest \<Rightarrow> go_error + 'u http_request" where
  "NewEnqueuePlayerRequest N server r =
     NewEnqueuePlayerRequestWithBody N server ''application/json'' (marshal_EnqueueRequest r)"

definition NewReportMatchAbandonedRequest ::
  "'u net_url \<Rightarrow> string \<Rightarrow> MatchAbandonedRequest \<Rightarrow> go_error + 'u http_request" where
  "NewReportMatchAbandonedRequest N server r =
     NewReportMatchAbandonedRequestWithBody N server ''application/json'' (marshal_MatchAbandonedRequest r)"

section \<open>Sending them\<close>

text \<open>
  What every operation does with the built request: attach the context, run the client's editors and
  the call's, send. A client of \<open>openapi_NewClient\<close> always has a \<open>Doer\<close>; a call on a nil one, which
  panics in Go, is the error of the first equation.
\<close>

definition send_request ::
  "('u, 'w) Client \<Rightarrow> go_ctx \<Rightarrow> (go_error + 'u http_request) \<Rightarrow> ('u, 'w) RequestEditorFn list \<Rightarrow> 'w
     \<Rightarrow> (go_error + http_response) \<times> 'w" where
  "send_request c ctx built reqEditors w =
    (case built of
       Inl err \<Rightarrow> (Inl err, w)
     | Inr req \<Rightarrow>
         (case applyEditors c ctx (req\<lparr>hr_ctx := ctx\<rparr>) reqEditors w of
            (Some err, req, w) \<Rightarrow> (Inl err, w)
          | (None, req, w) \<Rightarrow>
              (case cl_Client c of
                 None \<Rightarrow> (Inl (ErrOther ''nil pointer dereference''), w)
               | Some doer \<Rightarrow> doer req w)))"

definition openapi_CancelPlayer ::
  "'u net_url \<Rightarrow> ('u, 'w) Client \<Rightarrow> go_ctx \<Rightarrow> ('u, 'w) RequestEditorFn list \<Rightarrow> 'w
     \<Rightarrow> (go_error + http_response) \<times> 'w" where
  "openapi_CancelPlayer N c ctx eds = send_request c ctx (NewCancelPlayerRequest N (cl_Server c)) eds"

definition openapi_EnqueuePlayerWithBody ::
  "'u net_url \<Rightarrow> ('u, 'w) Client \<Rightarrow> go_ctx \<Rightarrow> string \<Rightarrow> string \<Rightarrow> ('u, 'w) RequestEditorFn list \<Rightarrow> 'w
     \<Rightarrow> (go_error + http_response) \<times> 'w" where
  "openapi_EnqueuePlayerWithBody N c ctx contentType b eds =
     send_request c ctx (NewEnqueuePlayerRequestWithBody N (cl_Server c) contentType b) eds"

definition openapi_EnqueuePlayer ::
  "'u net_url \<Rightarrow> ('u, 'w) Client \<Rightarrow> go_ctx \<Rightarrow> EnqueueRequest \<Rightarrow> ('u, 'w) RequestEditorFn list \<Rightarrow> 'w
     \<Rightarrow> (go_error + http_response) \<times> 'w" where
  "openapi_EnqueuePlayer N c ctx r eds = send_request c ctx (NewEnqueuePlayerRequest N (cl_Server c) r) eds"

definition openapi_GetHealth ::
  "'u net_url \<Rightarrow> ('u, 'w) Client \<Rightarrow> go_ctx \<Rightarrow> ('u, 'w) RequestEditorFn list \<Rightarrow> 'w
     \<Rightarrow> (go_error + http_response) \<times> 'w" where
  "openapi_GetHealth N c ctx eds = send_request c ctx (NewGetHealthRequest N (cl_Server c)) eds"

definition openapi_ReportMatchAbandonedWithBody ::
  "'u net_url \<Rightarrow> ('u, 'w) Client \<Rightarrow> go_ctx \<Rightarrow> string \<Rightarrow> string \<Rightarrow> ('u, 'w) RequestEditorFn list \<Rightarrow> 'w
     \<Rightarrow> (go_error + http_response) \<times> 'w" where
  "openapi_ReportMatchAbandonedWithBody N c ctx contentType b eds =
     send_request c ctx (NewReportMatchAbandonedRequestWithBody N (cl_Server c) contentType b) eds"

definition openapi_ReportMatchAbandoned ::
  "'u net_url \<Rightarrow> ('u, 'w) Client \<Rightarrow> go_ctx \<Rightarrow> MatchAbandonedRequest \<Rightarrow> ('u, 'w) RequestEditorFn list \<Rightarrow> 'w
     \<Rightarrow> (go_error + http_response) \<times> 'w" where
  "openapi_ReportMatchAbandoned N c ctx r eds =
     send_request c ctx (NewReportMatchAbandonedRequest N (cl_Server c) r) eds"

definition openapi_GetQueueSize ::
  "'u net_url \<Rightarrow> ('u, 'w) Client \<Rightarrow> go_ctx \<Rightarrow> ('u, 'w) RequestEditorFn list \<Rightarrow> 'w
     \<Rightarrow> (go_error + http_response) \<times> 'w" where
  "openapi_GetQueueSize N c ctx eds = send_request c ctx (NewGetQueueSizeRequest N (cl_Server c)) eds"

text \<open>The operations as the interface \<open>ClientInterface\<close>, and \<open>Client\<close> as its implementation.\<close>

record ('u, 'w) ClientInterface =
  ci_CancelPlayer :: "go_ctx \<Rightarrow> ('u, 'w) RequestEditorFn list \<Rightarrow> 'w \<Rightarrow> (go_error + http_response) \<times> 'w"
  ci_EnqueuePlayerWithBody ::
    "go_ctx \<Rightarrow> string \<Rightarrow> string \<Rightarrow> ('u, 'w) RequestEditorFn list \<Rightarrow> 'w \<Rightarrow> (go_error + http_response) \<times> 'w"
  ci_EnqueuePlayer :: "go_ctx \<Rightarrow> EnqueuePlayerJSONRequestBody \<Rightarrow> ('u, 'w) RequestEditorFn list \<Rightarrow> 'w
    \<Rightarrow> (go_error + http_response) \<times> 'w"
  ci_GetHealth :: "go_ctx \<Rightarrow> ('u, 'w) RequestEditorFn list \<Rightarrow> 'w \<Rightarrow> (go_error + http_response) \<times> 'w"
  ci_ReportMatchAbandonedWithBody ::
    "go_ctx \<Rightarrow> string \<Rightarrow> string \<Rightarrow> ('u, 'w) RequestEditorFn list \<Rightarrow> 'w \<Rightarrow> (go_error + http_response) \<times> 'w"
  ci_ReportMatchAbandoned :: "go_ctx \<Rightarrow> ReportMatchAbandonedJSONRequestBody \<Rightarrow> ('u, 'w) RequestEditorFn list \<Rightarrow> 'w
    \<Rightarrow> (go_error + http_response) \<times> 'w"
  ci_GetQueueSize :: "go_ctx \<Rightarrow> ('u, 'w) RequestEditorFn list \<Rightarrow> 'w \<Rightarrow> (go_error + http_response) \<times> 'w"

definition client_methods :: "'u net_url \<Rightarrow> ('u, 'w) Client \<Rightarrow> ('u, 'w) ClientInterface" where
  "client_methods N c =
    \<lparr>ci_CancelPlayer = openapi_CancelPlayer N c,
     ci_EnqueuePlayerWithBody = openapi_EnqueuePlayerWithBody N c,
     ci_EnqueuePlayer = openapi_EnqueuePlayer N c,
     ci_GetHealth = openapi_GetHealth N c,
     ci_ReportMatchAbandonedWithBody = openapi_ReportMatchAbandonedWithBody N c,
     ci_ReportMatchAbandoned = openapi_ReportMatchAbandoned N c,
     ci_GetQueueSize = openapi_GetQueueSize N c\<rparr>"

lemma client_methods_simps [simp]:
  "ci_CancelPlayer (client_methods N c) = openapi_CancelPlayer N c"
  "ci_EnqueuePlayerWithBody (client_methods N c) = openapi_EnqueuePlayerWithBody N c"
  "ci_EnqueuePlayer (client_methods N c) = openapi_EnqueuePlayer N c"
  "ci_GetHealth (client_methods N c) = openapi_GetHealth N c"
  "ci_ReportMatchAbandonedWithBody (client_methods N c) = openapi_ReportMatchAbandonedWithBody N c"
  "ci_ReportMatchAbandoned (client_methods N c) = openapi_ReportMatchAbandoned N c"
  "ci_GetQueueSize (client_methods N c) = openapi_GetQueueSize N c"
  by (simp_all add: client_methods_def)

section \<open>Reading the responses\<close>

text \<open>
  What the methods of the response types read of \<open>HTTPResponse\<close>, which may be nil.
  \<open>http.StatusText(0)\<close> is the empty string.
\<close>

definition rsp_Status :: "http_response option \<Rightarrow> string" where
  "rsp_Status h = (case h of Some r \<Rightarrow> hp_Status r | None \<Rightarrow> [])"

definition rsp_StatusCode :: "http_response option \<Rightarrow> int" where
  "rsp_StatusCode h = (case h of Some r \<Rightarrow> hp_StatusCode r | None \<Rightarrow> 0)"

definition rsp_ContentType :: "http_response option \<Rightarrow> string" where
  "rsp_ContentType h = (case h of Some r \<Rightarrow> header_get ''Content-Type'' (hp_Header r) | None \<Rightarrow> [])"

record CancelPlayerResponse =
  cp_Body :: string
  cp_HTTPResponse :: "http_response option"

definition cp_Status :: "CancelPlayerResponse \<Rightarrow> string" where
  "cp_Status r = rsp_Status (cp_HTTPResponse r)"

definition cp_StatusCode :: "CancelPlayerResponse \<Rightarrow> int" where
  "cp_StatusCode r = rsp_StatusCode (cp_HTTPResponse r)"

definition cp_ContentType :: "CancelPlayerResponse \<Rightarrow> string" where
  "cp_ContentType r = rsp_ContentType (cp_HTTPResponse r)"

record EnqueuePlayerResponse =
  ep_Body :: string
  ep_HTTPResponse :: "http_response option"

definition ep_Status :: "EnqueuePlayerResponse \<Rightarrow> string" where
  "ep_Status r = rsp_Status (ep_HTTPResponse r)"

definition ep_StatusCode :: "EnqueuePlayerResponse \<Rightarrow> int" where
  "ep_StatusCode r = rsp_StatusCode (ep_HTTPResponse r)"

definition ep_ContentType :: "EnqueuePlayerResponse \<Rightarrow> string" where
  "ep_ContentType r = rsp_ContentType (ep_HTTPResponse r)"

record GetHealthResponse =
  gh_Body :: string
  gh_HTTPResponse :: "http_response option"
  gh_JSON200 :: "HealthResponse option"
  gh_JSON503 :: "HealthResponse option"

definition gh_Status :: "GetHealthResponse \<Rightarrow> string" where
  "gh_Status r = rsp_Status (gh_HTTPResponse r)"

definition gh_StatusCode :: "GetHealthResponse \<Rightarrow> int" where
  "gh_StatusCode r = rsp_StatusCode (gh_HTTPResponse r)"

definition gh_ContentType :: "GetHealthResponse \<Rightarrow> string" where
  "gh_ContentType r = rsp_ContentType (gh_HTTPResponse r)"

record ReportMatchAbandonedResponse =
  ra_Body :: string
  ra_HTTPResponse :: "http_response option"

definition ra_Status :: "ReportMatchAbandonedResponse \<Rightarrow> string" where
  "ra_Status r = rsp_Status (ra_HTTPResponse r)"

definition ra_StatusCode :: "ReportMatchAbandonedResponse \<Rightarrow> int" where
  "ra_StatusCode r = rsp_StatusCode (ra_HTTPResponse r)"

definition ra_ContentType :: "ReportMatchAbandonedResponse \<Rightarrow> string" where
  "ra_ContentType r = rsp_ContentType (ra_HTTPResponse r)"

record GetQueueSizeResponse =
  qs_Body :: string
  qs_HTTPResponse :: "http_response option"
  qs_JSON200 :: "QueueSizeResponse option"

definition qs_Status :: "GetQueueSizeResponse \<Rightarrow> string" where
  "qs_Status r = rsp_Status (qs_HTTPResponse r)"

definition qs_StatusCode :: "GetQueueSizeResponse \<Rightarrow> int" where
  "qs_StatusCode r = rsp_StatusCode (qs_HTTPResponse r)"

definition qs_ContentType :: "GetQueueSizeResponse \<Rightarrow> string" where
  "qs_ContentType r = rsp_ContentType (qs_HTTPResponse r)"

definition ParseCancelPlayerResponse :: "http_response \<Rightarrow> go_error + CancelPlayerResponse" where
  "ParseCancelPlayerResponse rsp =
     map_sum id (\<lambda>b. \<lparr>cp_Body = b, cp_HTTPResponse = Some rsp\<rparr>) (hp_Body rsp)"

definition ParseEnqueuePlayerResponse :: "http_response \<Rightarrow> go_error + EnqueuePlayerResponse" where
  "ParseEnqueuePlayerResponse rsp =
     map_sum id (\<lambda>b. \<lparr>ep_Body = b, ep_HTTPResponse = Some rsp\<rparr>) (hp_Body rsp)"

definition ParseReportMatchAbandonedResponse :: "http_response \<Rightarrow> go_error + ReportMatchAbandonedResponse" where
  "ParseReportMatchAbandonedResponse rsp =
     map_sum id (\<lambda>b. \<lparr>ra_Body = b, ra_HTTPResponse = Some rsp\<rparr>) (hp_Body rsp)"

definition is_json :: "http_response \<Rightarrow> bool" where
  "is_json rsp = sublist ''json'' (header_get ''Content-Type'' (hp_Header rsp))"

text \<open>\<open>dec\<close> is \<open>json.Unmarshal\<close>.\<close>

definition ParseGetHealthResponse ::
  "(string \<Rightarrow> go_error + HealthResponse) \<Rightarrow> http_response \<Rightarrow> go_error + GetHealthResponse" where
  "ParseGetHealthResponse dec rsp =
    (case hp_Body rsp of
       Inl err \<Rightarrow> Inl err
     | Inr b \<Rightarrow>
         (let response = \<lparr>gh_Body = b, gh_HTTPResponse = Some rsp, gh_JSON200 = None, gh_JSON503 = None\<rparr> in
          if is_json rsp \<and> hp_StatusCode rsp = 200 then
            (case dec b of Inl err \<Rightarrow> Inl err | Inr dest \<Rightarrow> Inr (response\<lparr>gh_JSON200 := Some dest\<rparr>))
          else if is_json rsp \<and> hp_StatusCode rsp = 503 then
            (case dec b of Inl err \<Rightarrow> Inl err | Inr dest \<Rightarrow> Inr (response\<lparr>gh_JSON503 := Some dest\<rparr>))
          else Inr response))"

definition ParseGetQueueSizeResponse ::
  "(string \<Rightarrow> go_error + QueueSizeResponse) \<Rightarrow> http_response \<Rightarrow> go_error + GetQueueSizeResponse" where
  "ParseGetQueueSizeResponse dec rsp =
    (case hp_Body rsp of
       Inl err \<Rightarrow> Inl err
     | Inr b \<Rightarrow>
         (let response = \<lparr>qs_Body = b, qs_HTTPResponse = Some rsp, qs_JSON200 = None\<rparr> in
          if is_json rsp \<and> hp_StatusCode rsp = 200 then
            (case dec b of Inl err \<Rightarrow> Inl err | Inr dest \<Rightarrow> Inr (response\<lparr>qs_JSON200 := Some dest\<rparr>))
          else Inr response))"

text \<open>An operation followed by its parser.\<close>

definition with_response ::
  "(go_error + http_response) \<times> 'w \<Rightarrow> (http_response \<Rightarrow> go_error + 'a) \<Rightarrow> (go_error + 'a) \<times> 'w" where
  "with_response sent parse =
    (case sent of (Inl err, w) \<Rightarrow> (Inl err, w) | (Inr rsp, w) \<Rightarrow> (parse rsp, w))"

record ('u, 'w) ClientWithResponses =
  cwr_ClientInterface :: "('u, 'w) ClientInterface"

definition NewClientWithResponses ::
  "'u net_url \<Rightarrow> ('u, 'w) HttpRequestDoer \<Rightarrow> string \<Rightarrow> ('u, 'w) ClientOption list
     \<Rightarrow> go_error + ('u, 'w) ClientWithResponses" where
  "NewClientWithResponses N dflt server opts =
    (case openapi_NewClient dflt server opts of
       Inl err \<Rightarrow> Inl err
     | Inr client \<Rightarrow> Inr \<lparr>cwr_ClientInterface = client_methods N client\<rparr>)"

definition CancelPlayerWithResponse ::
  "('u, 'w) ClientWithResponses \<Rightarrow> go_ctx \<Rightarrow> ('u, 'w) RequestEditorFn list \<Rightarrow> 'w
     \<Rightarrow> (go_error + CancelPlayerResponse) \<times> 'w" where
  "CancelPlayerWithResponse c ctx eds w =
     with_response (ci_CancelPlayer (cwr_ClientInterface c) ctx eds w) ParseCancelPlayerResponse"

definition EnqueuePlayerWithBodyWithResponse ::
  "('u, 'w) ClientWithResponses \<Rightarrow> go_ctx \<Rightarrow> string \<Rightarrow> string \<Rightarrow> ('u, 'w) RequestEditorFn list \<Rightarrow> 'w
     \<Rightarrow> (go_error + EnqueuePlayerResponse) \<times> 'w" where
  "EnqueuePlayerWithBodyWithResponse c ctx ct b eds w =
     with_response (ci_EnqueuePlayerWithBody (cwr_ClientInterface c) ctx ct b eds w) ParseEnqueuePlayerResponse"

definition EnqueuePlayerWithResponse ::
  "('u, 'w) ClientWithResponses \<Rightarrow> go_ctx \<Rightarrow> EnqueueRequest \<Rightarrow> ('u, 'w) RequestEditorFn list \<Rightarrow> 'w
     \<Rightarrow> (go_error + EnqueuePlayerResponse) \<times> 'w" where
  "EnqueuePlayerWithResponse c ctx r eds w =
     with_response (ci_EnqueuePlayer (cwr_ClientInterface c) ctx r eds w) ParseEnqueuePlayerResponse"

definition ReportMatchAbandonedWithBodyWithResponse ::
  "('u, 'w) ClientWithResponses \<Rightarrow> go_ctx \<Rightarrow> string \<Rightarrow> string \<Rightarrow> ('u, 'w) RequestEditorFn list \<Rightarrow> 'w
     \<Rightarrow> (go_error + ReportMatchAbandonedResponse) \<times> 'w" where
  "ReportMatchAbandonedWithBodyWithResponse c ctx ct b eds w =
     with_response (ci_ReportMatchAbandonedWithBody (cwr_ClientInterface c) ctx ct b eds w) ParseReportMatchAbandonedResponse"

definition ReportMatchAbandonedWithResponse ::
  "('u, 'w) ClientWithResponses \<Rightarrow> go_ctx \<Rightarrow> MatchAbandonedRequest \<Rightarrow> ('u, 'w) RequestEditorFn list \<Rightarrow> 'w
     \<Rightarrow> (go_error + ReportMatchAbandonedResponse) \<times> 'w" where
  "ReportMatchAbandonedWithResponse c ctx r eds w =
     with_response (ci_ReportMatchAbandoned (cwr_ClientInterface c) ctx r eds w) ParseReportMatchAbandonedResponse"

definition GetHealthWithResponse ::
  "(string \<Rightarrow> go_error + HealthResponse) \<Rightarrow> ('u, 'w) ClientWithResponses \<Rightarrow> go_ctx \<Rightarrow> ('u, 'w) RequestEditorFn list \<Rightarrow> 'w
     \<Rightarrow> (go_error + GetHealthResponse) \<times> 'w" where
  "GetHealthWithResponse dec c ctx eds w =
     with_response (ci_GetHealth (cwr_ClientInterface c) ctx eds w) (ParseGetHealthResponse dec)"

definition GetQueueSizeWithResponse ::
  "(string \<Rightarrow> go_error + QueueSizeResponse) \<Rightarrow> ('u, 'w) ClientWithResponses \<Rightarrow> go_ctx \<Rightarrow> ('u, 'w) RequestEditorFn list \<Rightarrow> 'w
     \<Rightarrow> (go_error + GetQueueSizeResponse) \<times> 'w" where
  "GetQueueSizeWithResponse dec c ctx eds w =
     with_response (ci_GetQueueSize (cwr_ClientInterface c) ctx eds w) (ParseGetQueueSizeResponse dec)"

text \<open>The interface with parsed responses, and its implementation.\<close>

record ('u, 'w) ClientWithResponsesInterface =
  ri_CancelPlayer :: "go_ctx \<Rightarrow> ('u, 'w) RequestEditorFn list \<Rightarrow> 'w \<Rightarrow> (go_error + CancelPlayerResponse) \<times> 'w"
  ri_EnqueuePlayerWithBody ::
    "go_ctx \<Rightarrow> string \<Rightarrow> string \<Rightarrow> ('u, 'w) RequestEditorFn list \<Rightarrow> 'w \<Rightarrow> (go_error + EnqueuePlayerResponse) \<times> 'w"
  ri_EnqueuePlayer :: "go_ctx \<Rightarrow> EnqueuePlayerJSONRequestBody \<Rightarrow> ('u, 'w) RequestEditorFn list \<Rightarrow> 'w
    \<Rightarrow> (go_error + EnqueuePlayerResponse) \<times> 'w"
  ri_GetHealth :: "go_ctx \<Rightarrow> ('u, 'w) RequestEditorFn list \<Rightarrow> 'w \<Rightarrow> (go_error + GetHealthResponse) \<times> 'w"
  ri_ReportMatchAbandonedWithBody ::
    "go_ctx \<Rightarrow> string \<Rightarrow> string \<Rightarrow> ('u, 'w) RequestEditorFn list \<Rightarrow> 'w \<Rightarrow> (go_error + ReportMatchAbandonedResponse) \<times> 'w"
  ri_ReportMatchAbandoned :: "go_ctx \<Rightarrow> ReportMatchAbandonedJSONRequestBody \<Rightarrow> ('u, 'w) RequestEditorFn list \<Rightarrow> 'w
    \<Rightarrow> (go_error + ReportMatchAbandonedResponse) \<times> 'w"
  ri_GetQueueSize :: "go_ctx \<Rightarrow> ('u, 'w) RequestEditorFn list \<Rightarrow> 'w \<Rightarrow> (go_error + GetQueueSizeResponse) \<times> 'w"

definition response_methods ::
  "(string \<Rightarrow> go_error + HealthResponse) \<Rightarrow> (string \<Rightarrow> go_error + QueueSizeResponse)
     \<Rightarrow> ('u, 'w) ClientWithResponses \<Rightarrow> ('u, 'w) ClientWithResponsesInterface" where
  "response_methods dec dec' c =
    \<lparr>ri_CancelPlayer = CancelPlayerWithResponse c,
     ri_EnqueuePlayerWithBody = EnqueuePlayerWithBodyWithResponse c,
     ri_EnqueuePlayer = EnqueuePlayerWithResponse c,
     ri_GetHealth = GetHealthWithResponse dec c,
     ri_ReportMatchAbandonedWithBody = ReportMatchAbandonedWithBodyWithResponse c,
     ri_ReportMatchAbandoned = ReportMatchAbandonedWithResponse c,
     ri_GetQueueSize = GetQueueSizeWithResponse dec' c\<rparr>"

section \<open>Lemmas\<close>

lemma run_editors_append:
  "run_editors (fs @ gs) ctx req w =
     (case run_editors fs ctx req w of
        (Some err, req, w) \<Rightarrow> (Some err, req, w)
      | (None, req, w) \<Rightarrow> run_editors gs ctx req w)"
  by (induction fs arbitrary: req w) (auto split: prod.split option.split)

lemma applyEditors_eq:
  "applyEditors c ctx req eds w = run_editors (cl_RequestEditors c @ eds) ctx req w"
  by (simp add: applyEditors_def run_editors_append)

text \<open>Editors that leave alone a part \<open>f\<close> of the request, and the world, run to the end.\<close>

definition editors_keep :: "('u http_request \<Rightarrow> 'a) \<Rightarrow> ('u, 'w) RequestEditorFn list \<Rightarrow> bool" where
  "editors_keep f fs \<longleftrightarrow> (\<forall>g \<in> set fs. \<forall>ctx r w. \<exists>e r'. g ctx r w = (e, r', w) \<and> f r' = f r)"

lemma run_editors_keep:
  "editors_keep f fs \<Longrightarrow> run_editors fs ctx r w = (e, r', w') \<Longrightarrow> w' = w \<and> f r' = f r"
proof (induction fs arbitrary: r)
  case Nil
  then show ?case by simp
next
  case (Cons g gs)
  obtain e1 r1 where g: "g ctx r w = (e1, r1, w)" "f r1 = f r"
    using Cons.prems(1) unfolding editors_keep_def by (metis list.set_intros(1))
  have "editors_keep f gs" using Cons.prems(1) by (simp add: editors_keep_def)
  with Cons.IH [of r1] Cons.prems(2) g show ?case by (cases e1) auto
qed

text \<open>A sent request is the built one as the editors leave it.\<close>

lemma send_request_ok:
  assumes "send_request c ctx built eds w = (Inr rsp, w')"
  obtains req req' w1 doer where "built = Inr req"
    "run_editors (cl_RequestEditors c @ eds) ctx (req\<lparr>hr_ctx := ctx\<rparr>) w = (None, req', w1)"
    "cl_Client c = Some doer" "doer req' w1 = (Inr rsp, w')"
  using assms by (auto simp: send_request_def applyEditors_eq split: sum.splits prod.splits option.splits)

lemma new_request_fields:
  "new_request N meth server path b = Inr req \<Longrightarrow>
     hr_Method req = meth \<and> hr_Body req = b \<and> hr_Header req = []
     \<and> (\<exists>su qu. nu_Parse N server = Inr su \<and> nu_Ref N su (operationPath path) = Inr qu
          \<and> nu_Parse N (nu_String N qu) = Inr (hr_URL req))"
  by (auto simp: new_request_def http_NewRequest_def split: sum.splits)

end
