(* ===== verification/ApiClient.thy ===== *)
theory ApiClient
  imports OpenapiClient
begin

text \<open>
  packages/api-matchmaking/apimatchmakingclient: the client that other services use. It wraps the
  generated client and turns status codes into sentinel errors. The last section puts it in front of
  the service's own router.
\<close>

section \<open>Sentinels\<close>

definition ErrNotFound :: go_error where "ErrNotFound = ErrNew ''apimatchmakingclient: not found''"
definition ErrUnauthorized :: go_error where "ErrUnauthorized = ErrNew ''apimatchmakingclient: unauthorized''"
definition ErrForbidden :: go_error where "ErrForbidden = ErrNew ''apimatchmakingclient: forbidden''"
definition ErrBadRequest :: go_error where "ErrBadRequest = ErrNew ''apimatchmakingclient: bad request''"
definition ErrServiceUnavailable :: go_error where
  "ErrServiceUnavailable = ErrNew ''apimatchmakingclient: service unavailable''"
definition ErrInternalServer :: go_error where
  "ErrInternalServer = ErrNew ''apimatchmakingclient: internal server error''"

lemmas sentinel_defs = ErrNotFound_def ErrUnauthorized_def ErrForbidden_def ErrBadRequest_def
  ErrServiceUnavailable_def ErrInternalServer_def

definition newStatusError :: "string \<Rightarrow> int \<Rightarrow> go_error" where
  "newStatusError opn code =
    (let wrapped = (\<lambda>sentinel. Errorf ''apimatchmakingclient: %s: %w'' [AStr opn, AErr sentinel]) in
     if code = 401 then wrapped ErrUnauthorized
     else if code = 403 then wrapped ErrForbidden
     else if code = 404 then wrapped ErrNotFound
     else if code = 400 then wrapped ErrBadRequest
     else if code = 503 then wrapped ErrServiceUnavailable
     else if 500 \<le> code then wrapped ErrInternalServer
     else Errorf ''apimatchmakingclient: %s: unexpected status %d'' [AStr opn, AInt code])"

section \<open>The client\<close>

record ('u, 'w) client_config =
  cc_httpClient :: "('u, 'w) HttpRequestDoer option"
  cc_editors :: "('u, 'w) RequestEditorFn list"

definition api_WithHTTPClient :: "('u, 'w) HttpRequestDoer \<Rightarrow> ('u, 'w) client_config \<Rightarrow> ('u, 'w) client_config" where
  "api_WithHTTPClient doer c = c\<lparr>cc_httpClient := Some doer\<rparr>"

definition api_WithRequestEditorFn ::
  "('u, 'w) RequestEditorFn \<Rightarrow> ('u, 'w) client_config \<Rightarrow> ('u, 'w) client_config" where
  "api_WithRequestEditorFn f c = c\<lparr>cc_editors := cc_editors c @ [f]\<rparr>"

record ('u, 'w) api_Client =
  ac_api :: "('u, 'w) ClientWithResponses"

text \<open>The client over a generated client \<open>c\<close>.\<close>

abbreviation api_over :: "'u net_url \<Rightarrow> ('u, 'w) Client \<Rightarrow> ('u, 'w) api_Client" where
  "api_over N c \<equiv> \<lparr>ac_api = \<lparr>cwr_ClientInterface = client_methods N c\<rparr>\<rparr>"

definition api_New ::
  "'u net_url \<Rightarrow> ('u, 'w) HttpRequestDoer \<Rightarrow> string \<Rightarrow> (('u, 'w) client_config \<Rightarrow> ('u, 'w) client_config) list
     \<Rightarrow> go_error + ('u, 'w) api_Client" where
  "api_New N dflt baseURL opts =
    (if baseURL = [] then Inl (ErrNew ''apimatchmakingclient: base URL is empty'')
     else
       (let cfg = fold (\<lambda>f c. f c) opts \<lparr>cc_httpClient = None, cc_editors = []\<rparr>;
            apiOpts = (case cc_httpClient cfg of None \<Rightarrow> [] | Some d \<Rightarrow> [openapi_WithHTTPClient d])
                        @ map openapi_WithRequestEditorFn (cc_editors cfg)
        in case NewClientWithResponses N dflt baseURL apiOpts of
             Inl err \<Rightarrow> Inl (Errorf ''apimatchmakingclient: new: %w'' [AErr err])
           | Inr api \<Rightarrow> Inr \<lparr>ac_api = api\<rparr>))"

text \<open>What the three operations do with the answer; \<open>wrap\<close> and \<open>opn\<close> name the operation.\<close>

definition status_result ::
  "string \<Rightarrow> string \<Rightarrow> int \<Rightarrow> ('r \<Rightarrow> int) \<Rightarrow> (go_error + 'r) \<times> 'w \<Rightarrow> go_error option \<times> 'w" where
  "status_result wrap opn expected StatusCode answer =
    (case answer of
       (Inl err, w) \<Rightarrow> (Some (Errorf wrap [AErr err]), w)
     | (Inr resp, w) \<Rightarrow>
         (if StatusCode resp = expected then None else Some (newStatusError opn (StatusCode resp)), w))"

definition api_EnqueuePlayer ::
  "('u, 'w) api_Client \<Rightarrow> go_ctx \<Rightarrow> EnqueueRequest \<Rightarrow> 'w \<Rightarrow> go_error option \<times> 'w" where
  "api_EnqueuePlayer c ctx r w =
     status_result ''apimatchmakingclient: EnqueuePlayer: %w'' ''EnqueuePlayer'' 202 ep_StatusCode
       (EnqueuePlayerWithResponse (ac_api c) ctx r [] w)"

definition api_CancelPlayer :: "('u, 'w) api_Client \<Rightarrow> go_ctx \<Rightarrow> 'w \<Rightarrow> go_error option \<times> 'w" where
  "api_CancelPlayer c ctx w =
     status_result ''apimatchmakingclient: CancelPlayer: %w'' ''CancelPlayer'' 200 cp_StatusCode
       (CancelPlayerWithResponse (ac_api c) ctx [] w)"

definition api_ReportMatchAbandoned ::
  "('u, 'w) api_Client \<Rightarrow> go_ctx \<Rightarrow> MatchAbandonedRequest \<Rightarrow> 'w \<Rightarrow> go_error option \<times> 'w" where
  "api_ReportMatchAbandoned c ctx r w =
     status_result ''apimatchmakingclient: ReportMatchAbandoned: %w'' ''ReportMatchAbandoned'' 204 ra_StatusCode
       (ReportMatchAbandonedWithResponse (ac_api c) ctx r [] w)"

section \<open>Sentinels of the status codes\<close>

text \<open>The sentinel of a status code.\<close>

definition sentinel_of :: "int \<Rightarrow> go_error option" where
  "sentinel_of code =
    (if code = 400 then Some ErrBadRequest else if code = 401 then Some ErrUnauthorized
     else if code = 403 then Some ErrForbidden else if code = 404 then Some ErrNotFound
     else if code = 503 then Some ErrServiceUnavailable
     else if 500 \<le> code then Some ErrInternalServer else None)"

definition sentinels :: "go_error list" where
  "sentinels = [ErrNotFound, ErrUnauthorized, ErrForbidden, ErrBadRequest, ErrServiceUnavailable, ErrInternalServer]"

lemma sentinels_distinct: "distinct sentinels"
  by (simp add: sentinels_def sentinel_defs)

lemma sentinel_is_New: "t \<in> set sentinels \<Longrightarrow> \<exists>m. t = ErrNew m"
  by (auto simp: sentinels_def sentinel_defs)

lemma newStatusError_is:
  assumes "t \<in> set sentinels"
  shows "errors_is t (newStatusError opn code) \<longleftrightarrow> sentinel_of code = Some t"
proof -
  obtain m where m: "t = ErrNew m" using sentinel_is_New [OF assms] by blast
  have wrapped: "errors_is t (Errorf f [AStr opn, AErr s]) \<longleftrightarrow> errors_is t s" for f s
    by (simp add: m)
  have plain: "\<not> errors_is t (Errorf f [AStr opn, AInt code])" for f by (simp add: m)
  have sent: "errors_is t (ErrNew k) \<longleftrightarrow> ErrNew k = t" for k by simp
  show ?thesis
    unfolding newStatusError_def sentinel_of_def Let_def
    by (simp add: wrapped plain del: errors_is.simps) (auto simp: sentinel_defs)
qed

text \<open>
  A caller can tell every answer apart by \<open>errors.Is\<close>: when the service answers an operation
  with an unexpected status, exactly the sentinel of that status (none for a status without one)
  matches the error, whichever of the three operations it is.
\<close>

lemma client_sentinels:
  assumes "status_result wrap opn expected code (Inr resp, w) = (Some err, w')" and "t \<in> set sentinels"
  shows "errors_is t err \<longleftrightarrow> sentinel_of (code resp) = Some t"
  using assms newStatusError_is [OF assms(2)] by (auto simp: status_result_def split: if_splits)

section \<open>Construction\<close>

lemma apply_editor_options:
  "apply_options (map openapi_WithRequestEditorFn fs) c =
     Inr (c\<lparr>cl_RequestEditors := cl_RequestEditors c @ fs\<rparr>)"
  by (induction fs arbitrary: c) (simp_all add: openapi_WithRequestEditorFn_def)

text \<open>
  \<open>New\<close> fails exactly on an empty base URL; the client it makes has a base URL that ends with a
  slash, so that the paths of the operations resolve below it, the chosen (or the default) sender, and
  every editor in the order of the options.
\<close>

lemma client_construction:
  "api_New N dflt baseURL opts =
     (if baseURL = [] then Inl (ErrNew ''apimatchmakingclient: base URL is empty'')
      else let cfg = fold (\<lambda>f c. f c) opts \<lparr>cc_httpClient = None, cc_editors = []\<rparr>
           in Inr (api_over N \<lparr>cl_Server = (if last baseURL = CHR ''/'' then baseURL else baseURL @ ''/''),
                   cl_Client = Some (case cc_httpClient cfg of None \<Rightarrow> dflt | Some d \<Rightarrow> d),
                   cl_RequestEditors = cc_editors cfg\<rparr>))"
proof -
  have slash: "baseURL \<noteq> [] \<Longrightarrow> suffix ''/'' baseURL \<longleftrightarrow> last baseURL = CHR ''/''"
    by (metis append_butlast_last_id last_snoc suffix_def)
  show ?thesis
    by (cases "cc_httpClient (fold (\<lambda>f c. f c) opts \<lparr>cc_httpClient = None, cc_editors = []\<rparr>)")
      (simp_all add: api_New_def NewClientWithResponses_def openapi_NewClient_def apply_editor_options openapi_WithHTTPClient_def
        ensure_slash_def slash Let_def)
qed

section \<open>In front of the service\<close>

text \<open>
  A sender that hands a request to the service's router: \<open>path\<close> is a URL's path, \<open>auth\<close> the token
  verifier on the whole request. A request without a route is answered 404.
\<close>

definition service_request :: "('u \<Rightarrow> string) \<Rightarrow> 'u http_request \<Rightarrow> request" where
  "service_request path r = \<lparr>rq_method = hr_Method r, rq_path = path (hr_URL r),
     rq_body = (case hr_Body r of None \<Rightarrow> [] | Some b \<Rightarrow> b)\<rparr>"

definition service_doer ::
  "gin \<Rightarrow> ('u \<Rightarrow> string) \<Rightarrow> ('u http_request \<Rightarrow> response + string) \<Rightarrow> 'w Handler \<Rightarrow> (body \<Rightarrow> string)
     \<Rightarrow> ('u, 'w) HttpRequestDoer" where
  "service_doer G path auth h render r w =
    (case NewRouter G (\<lambda>_. auth r) h (service_request path r) w of
       None \<Rightarrow> (Inr \<lparr>hp_Status = [], hp_StatusCode = 404, hp_Header = [], hp_Body = Inr []\<rparr>, w)
     | Some (resp, ls, w') \<Rightarrow>
         (Inr \<lparr>hp_Status = [], hp_StatusCode = int (rs_status resp), hp_Header = [],
               hp_Body = Inr (render (rs_body resp))\<rparr>, w'))"

lemma enqueue_nil_request:
  assumes "api_EnqueuePlayer (api_over N c) ctx r w = (None, w')" and "cl_Client c = Some doer"
    and "editors_keep (\<lambda>q. (hr_Method q, hr_URL q, hr_Body q)) (cl_RequestEditors c)"
  obtains q rsp where "hr_Method q = ''POST''" "hr_Body q = Some (marshal_EnqueueRequest r)"
    "\<exists>su qu. nu_Parse N (cl_Server c) = Inr su \<and> nu_Ref N su ''./internal/v1/enqueue'' = Inr qu
       \<and> nu_Parse N (nu_String N qu) = Inr (hr_URL q)"
    "doer q w = (Inr rsp, w')" "hp_StatusCode rsp = 202"
proof -
  obtain rsp where sent: "openapi_EnqueuePlayer N c ctx r [] w = (Inr rsp, w')" "hp_StatusCode rsp = 202"
    using assms(1) by (cases "openapi_EnqueuePlayer N c ctx r [] w"; cases "fst (openapi_EnqueuePlayer N c ctx r [] w)")
      (auto simp: api_EnqueuePlayer_def status_result_def EnqueuePlayerWithResponse_def with_response_def
        ParseEnqueuePlayerResponse_def ep_StatusCode_def rsp_StatusCode_def
        map_sum_id_Inr split: sum.splits if_splits)
  from send_request_ok [OF sent(1) [unfolded openapi_EnqueuePlayer_def]] obtain req q w1
    where b: "NewEnqueuePlayerRequest N (cl_Server c) r = Inr req"
      and e: "run_editors (cl_RequestEditors c @ []) ctx (req\<lparr>hr_ctx := ctx\<rparr>) w = (None, q, w1)"
      and d: "doer q w1 = (Inr rsp, w')" using assms(2) by (metis option.inject)
  from run_editors_keep [OF _ e, of "\<lambda>q. (hr_Method q, hr_URL q, hr_Body q)"] assms(3)
  have keep: "w1 = w" "hr_Method q = hr_Method req" "hr_URL q = hr_URL req" "hr_Body q = hr_Body req" by simp_all
  obtain req0 where "new_request N ''POST'' (cl_Server c) ''/internal/v1/enqueue'' (Some (marshal_EnqueueRequest r)) = Inr req0"
      "req = header_add ''Content-Type'' ''application/json'' req0"
    using b by (auto simp: NewEnqueuePlayerRequest_def NewEnqueuePlayerRequestWithBody_def map_sum_id_Inr)
  with new_request_fields [OF this(1)] keep d sent(2) show thesis
    by (intro that [of q rsp]) (auto simp: header_add_def operationPath_def)
qed

text \<open>
  C17. From the client to the queue: when \<open>EnqueuePlayer\<close> of the client returns nil in front of the
  service, the player of the verified token waits in Redis exactly once, with the deck, name and level
  of the client's request and under its gateway instance. Used of the libraries: the URL has the
  path it was resolved from, a refusing verifier does not answer 202, and the binding decodes this
  request's own encoding.
\<close>

theorem client_enqueue_reaches_queue:
  assumes "redis_server R alpha" and "queue_inv (alpha s)"
    and "cl_Client c = Some (service_doer G path auth (redis_handler R circ) render)"
    and "editors_keep (\<lambda>q. (hr_Method q, hr_URL q, hr_Body q)) (cl_RequestEditors c)"
    and "\<And>su qu u. nu_Ref N su ''./internal/v1/enqueue'' = Inr qu \<Longrightarrow> nu_Parse N (nu_String N qu) = Inr u
           \<Longrightarrow> path u = ''/internal/v1/enqueue''"
    and "\<And>q. case auth q of Inl refused \<Rightarrow> rs_status refused \<noteq> 202 | Inr verified \<Rightarrow> verified = p"
    and "gin_bind_enqueue G (marshal_EnqueueRequest r) = Inr r"
    and "api_EnqueuePlayer (api_over N c) ctx r s = (None, s')"
  shows "stored_instance (alpha s') = Some (er_GatewayInstanceID r)
    \<and> (\<exists>t. {e \<in> set (queue_entries (alpha s')). PlayerID e = p} =
         {\<lparr>PlayerID = p, DeckID = er_DeckID r, Name = er_Name r, Level = er_Level r, JoinedAt = t\<rparr>})"
proof (rule enqueue_nil_request [OF assms(8,3,4)])
  fix q rsp
  assume q: "hr_Method q = ''POST''" "hr_Body q = Some (marshal_EnqueueRequest r)"
    "\<exists>su qu. nu_Parse N (cl_Server c) = Inr su \<and> nu_Ref N su ''./internal/v1/enqueue'' = Inr qu
       \<and> nu_Parse N (nu_String N qu) = Inr (hr_URL q)"
    and d: "service_doer G path auth (redis_handler R circ) render q s = (Inr rsp, s')"
    and ok: "hp_StatusCode rsp = 202"
  have rq: "service_request path q = post ''/internal/v1/enqueue'' (marshal_EnqueueRequest r)"
    using q assms(5) by (auto simp: service_request_def post_def)
  obtain v where v: "auth q = Inr v"
    using d ok assms(6) [of q] by (cases "auth q") (auto simp: service_doer_def rq)
  with assms(6) [of q] have p: "auth q = Inr p" by simp
  obtain resp ls s1 where h: "handle_Enqueue G (redis_handler R circ) p (service_request path q) s = (resp, ls, s1)"
    by (metis prod_cases3)
  then have "s1 = s'" "rs_status resp = 202"
    using d ok p by (auto simp: service_doer_def rq)
  with enqueue_answers [OF assms(1,2) h refl] assms(7) show ?thesis
    by (auto simp: rq)
qed

section \<open>Examples\<close>

text \<open>URLs as their texts; a reference \<open>./x\<close> resolves to the path \<open>/x\<close>.\<close>

definition example_url :: "string net_url" where
  "example_url = \<lparr>nu_Parse = Inr, nu_Ref = \<lambda>u ref. Inr (drop 1 ref), nu_String = \<lambda>u. u\<rparr>"

definition example_request :: EnqueueRequest where
  "example_request = \<lparr>er_DeckID = 1, er_GatewayInstanceID = ''g1'', er_Level = 2, er_Name = ''Ann''\<rparr>"

definition example_client :: "(string, ref_world) Client" where
  "example_client = \<lparr>cl_Server = ''http://m/'',
     cl_Client = Some (service_doer example_gin (\<lambda>u. u) (\<lambda>q. Inr ''a'') (redis_handler ref_redis (\<lambda>w. False)) (\<lambda>b. [])),
     cl_RequestEditors = [\<lambda>ctx q w. (None, header_add ''X-Internal-Auth'' ''token'' q, w)]\<rparr>"

lemma example_client_enqueue:
  "api_EnqueuePlayer (api_over example_url example_client) RequestCtx example_request example_world
     = (None, after_enqueue ''a'' ''g1'' example_world)"
proof -
  note run = example_enqueue [of "marshal_EnqueueRequest example_request"]
  show ?thesis
    using run
    by (simp add: api_EnqueuePlayer_def status_result_def EnqueuePlayerWithResponse_def with_response_def
        openapi_EnqueuePlayer_def send_request_def NewEnqueuePlayerRequest_def NewEnqueuePlayerRequestWithBody_def
        new_request_def http_NewRequest_def example_url_def example_client_def applyEditors_def
        operationPath_def header_add_def service_doer_def service_request_def post_def [symmetric]
        ParseEnqueuePlayerResponse_def ep_StatusCode_def rsp_StatusCode_def)
qed

lemma client_enqueue_reaches_queue_witness:
  "\<exists>t. {e \<in> set (queue_entries (ref_view (after_enqueue ''a'' ''g1'' example_world))). PlayerID e = ''a''} =
     {\<lparr>PlayerID = ''a'', DeckID = 1, Name = ''Ann'', Level = 2, JoinedAt = t\<rparr>}"
proof -
  have "stored_instance (ref_view (after_enqueue ''a'' ''g1'' example_world)) = Some (er_GatewayInstanceID example_request)
    \<and> (\<exists>t. {e \<in> set (queue_entries (ref_view (after_enqueue ''a'' ''g1'' example_world))). PlayerID e = ''a''} =
         {\<lparr>PlayerID = ''a'', DeckID = er_DeckID example_request, Name = er_Name example_request,
           Level = er_Level example_request, JoinedAt = t\<rparr>})"
    by (rule client_enqueue_reaches_queue [OF ref.redis_server_axioms example_inv _ _ _ _ _ example_client_enqueue])
      (auto simp: example_client_def example_url_def editors_keep_def header_add_def example_gin_def example_request_def)
  then show ?thesis by (simp add: example_request_def)
qed

lemma client_sentinels_witness:
  "errors_is ErrNotFound (newStatusError ''CancelPlayer'' 404)
   \<and> \<not> errors_is ErrInternalServer (newStatusError ''CancelPlayer'' 404)"
proof -
  let ?resp = "\<lparr>cp_Body = [], cp_HTTPResponse =
    Some \<lparr>hp_Status = [], hp_StatusCode = 404, hp_Header = [], hp_Body = Inr []\<rparr>\<rparr>"
  have code: "cp_StatusCode ?resp = 404" by (simp add: cp_StatusCode_def rsp_StatusCode_def)
  have r: "status_result ''w'' ''CancelPlayer'' 200 cp_StatusCode (Inr ?resp, ()) = (Some (newStatusError ''CancelPlayer'' 404), ())"
    by (simp add: status_result_def code)
  show ?thesis
    using client_sentinels [OF r, of ErrNotFound] client_sentinels [OF r, of ErrInternalServer]
    by (simp add: code sentinels_def sentinel_of_def sentinel_defs)
qed

end
