(* ===== verification/Retry.thy ===== *)
theory Retry
  imports QueueProps
begin

text \<open>
  A client that repeats a call whose reply it did not get. \<open>redis_server\<close> describes a client that
  sends every call once; the options that main.go hands to \<open>redis.NewClient\<close> leave go-redis's number
  of repetitions (\<open>MaxRetries\<close>, three) as it is. Enqueueing, cancelling and writing back may be
  repeated, popping a pair may not.
\<close>

section \<open>The client\<close>

text \<open>At most \<open>n\<close> repetitions.\<close>

fun eval_retrying :: "nat \<Rightarrow> 's redis \<Rightarrow> go_ctx \<Rightarrow> 's lua \<Rightarrow> 's \<Rightarrow> (go_error + reply) \<times> 's" where
  "eval_retrying 0 R c sc s = rd_eval R c sc s"
| "eval_retrying (Suc n) R c sc s =
     (case rd_eval R c sc s of
        (Inl e, s') \<Rightarrow> eval_retrying n R c sc s'
      | (Inr r, s') \<Rightarrow> (Inr r, s'))"

definition retrying :: "nat \<Rightarrow> 's redis \<Rightarrow> 's redis" where
  "retrying n R = R\<lparr>rd_eval := eval_retrying n R\<rparr>"

lemma retrying_simps [simp]:
  "rd_eval (retrying n R) = eval_retrying n R" "rd_int64 (retrying n R) = rd_int64 R"
  "rd_strings (retrying n R) = rd_strings R" "rd_float_arg (retrying n R) = rd_float_arg R"
  "rd_now (retrying n R) = rd_now R" "rd_zrange (retrying n R) = rd_zrange R"
  "rd_zrem (retrying n R) = rd_zrem R" "rd_zadd (retrying n R) = rd_zadd R"
  "rd_get (retrying n R) = rd_get R" "rd_set (retrying n R) = rd_set R" "rd_del (retrying n R) = rd_del R"
  "rd_zcard (retrying n R) = rd_zcard R" "rd_zpopmin (retrying n R) = rd_zpopmin R"
  by (simp_all add: retrying_def)

text \<open>The scripts run on the server and do not know of it.\<close>

lemma removeLoop_retrying [simp]: "removeLoop (retrying n R) k p ms i s = removeLoop R k p ms i s"
  by (induction ms arbitrary: i s) (simp_all add: case_prod_beta)

lemma reenqueueLoop_retrying [simp]: "reenqueueLoop (retrying n R) k args s = reenqueueLoop R k args s"
  by (induction R k args s rule: reenqueueLoop.induct) (simp_all add: removePlayerEntries_def)

lemma scripts_retrying [simp]:
  "enqueueScript (retrying n R) qk ik p m x g = enqueueScript R qk ik p m x g"
  "popPairScript (retrying n R) qk ik = popPairScript R qk ik"
  "cancelScript (retrying n R) qk p = cancelScript R qk p"
  "reenqueueScript (retrying n R) qk ik g args = reenqueueScript R qk ik g args"
  by (simp_all add: fun_eq_iff enqueueScript_def popPairScript_def cancelScript_def reenqueueScript_def
      removePlayerEntries_def)

lemma script_args_retrying [simp]: "script_args (retrying n R) = script_args R"
  by (simp add: fun_eq_iff script_args_def)

lemma reenqueueArgs_retrying [simp]: "reenqueueArgs (retrying n R) es = reenqueueArgs R es"
  by (induction es) (simp_all split: option.split)

lemma eval_retrying_ok: "rd_eval R c sc s = (Inr r, s') \<Longrightarrow> eval_retrying n R c sc s = (Inr r, s')"
  by (cases n) simp_all

section \<open>Repeating a script whose effect is idempotent\<close>

lemma enqueued_twice:
  assumes "queue_inv st" and "validateMemberPlayerID p = None" and "\<bar>x\<bar> < 2 ^ 53"
  shows "enqueued_store p d n l g x (enqueued_store p d n l g x st) = enqueued_store p d n l g x st"
proof -
  note e = enqueued_entries [OF assms, of d n l g]
  note e2 = enqueued_entries [OF e(1) assms(2,3), of d n l g]
  let ?q = "mq_enqueue p (encodeMember p d l n) x g (mq_of st)"
  have "put_mq (mq_enqueue p (encodeMember p d l n) x g ?q) st = put_mq ?q st"
  proof (rule put_mq_eqI)
    show "set (queue_entries (put_mq (mq_enqueue p (encodeMember p d l n) x g ?q) st))
        = set (queue_entries (put_mq ?q st))"
      using e e2 unfolding enqueued_store_def put_mq_simps by auto
  qed (use e(1) e2(1) in \<open>simp_all add: enqueued_store_def\<close>)
  then show ?thesis by (simp add: enqueued_store_def)
qed

lemma cancelled_twice: "cancelled_store p (cancelled_store p st) = cancelled_store p st"
  by (simp add: cancelled_store_def mq_remove_def)

lemma reenqueued_twice:
  assumes "queue_inv st" and "list_all writable es" and "distinct (map PlayerID es)"
  shows "reenqueued_store es g (reenqueued_store es g st) = reenqueued_store es g st"
proof (cases "g = id_text (stored_instance st)")
  case True
  note e = reenqueued_entries [OF assms(1,2), of g]
  note e2 = reenqueued_entries [OF e(1) assms(2), of g]
  let ?q = "mq_reenqueue (map triple_of es) g (mq_of st)"
  have "put_mq (mq_reenqueue (map triple_of es) g ?q) st = put_mq ?q st"
  proof (rule put_mq_eqI)
    have "set (queue_entries (reenqueued_store es g (reenqueued_store es g st))) =
        set (queue_entries (reenqueued_store es g st))"
      using e e2 True requeue_idem [OF assms(3)] by simp
    then show "set (queue_entries (put_mq (mq_reenqueue (map triple_of es) g ?q) st))
        = set (queue_entries (put_mq ?q st))"
      unfolding reenqueued_store_def put_mq_simps .
  qed (use e(1) e2(1) in \<open>simp_all add: reenqueued_store_def\<close>)
  then show ?thesis by (simp add: reenqueued_store_def)
next
  case False
  then show ?thesis using reenqueued_entries(4) [OF assms(1,2) False] by simp
qed

context redis_server
begin

lemma eval_retrying_cases:
  assumes sc: "\<And>s0. alpha s0 = st \<Longrightarrow> fst (sc s0) = RInt i \<and> alpha (snd (sc s0)) = st'"
    and sc': "\<And>s0. alpha s0 = st' \<Longrightarrow> fst (sc s0) = RInt j \<and> alpha (snd (sc s0)) = st'"
  shows "eval_retrying n R c sc s = (r, s') \<Longrightarrow> alpha s = st \<or> alpha s = st' \<Longrightarrow>
     (case r of Inl e \<Rightarrow> alpha s' = st \<or> alpha s' = st'
      | Inr x \<Rightarrow> alpha s' = st' \<and> (x = RInt j \<or> x = RInt i))"
proof (induction n arbitrary: s)
  case 0
  then show ?case using eval [of sc s c] sc sc' by (auto simp: eval_outcome_def)
next
  case (Suc n)
  obtain r1 s1 where r1: "rd_eval R c sc s = (r1, s1)" by fastforce
  show ?case
  proof (cases r1)
    case (Inl e)
    then have "alpha s1 = st \<or> alpha s1 = st'"
      using eval [of sc s c] sc sc' r1 Suc.prems(2) by (auto simp: eval_outcome_def)
    then show ?thesis using Suc.IH Suc.prems(1) r1 Inl by simp
  next
    case (Inr x)
    then show ?thesis
      using eval [of sc s c] sc sc' r1 Suc.prems by (auto simp: eval_outcome_def)
  qed
qed

lemma run_int64_retrying:
  assumes "\<And>s0. alpha s0 = st \<Longrightarrow> fst (sc s0) = RInt i \<and> alpha (snd (sc s0)) = st'"
    and "\<And>s0. alpha s0 = st' \<Longrightarrow> fst (sc s0) = RInt j \<and> alpha (snd (sc s0)) = st'"
    and "alpha s = st" and "run_int64 (retrying n R) wrap c sc s = (r, s')"
  shows "case r of Inl e \<Rightarrow> alpha s' = st \<or> alpha s' = st' | Inr k \<Rightarrow> alpha s' = st' \<and> (k = j \<or> k = i)"
proof -
  obtain x s1 where x: "eval_retrying n R c sc s = (x, s1)" by fastforce
  have "case x of Inl e \<Rightarrow> alpha s1 = st \<or> alpha s1 = st' | Inr y \<Rightarrow> alpha s1 = st' \<and> (y = RInt j \<or> y = RInt i)"
    using eval_retrying_cases [OF assms(1,2) x] assms(3) by blast
  with x assms(4) show ?thesis
    by (cases x) (auto simp: run_int64_def int64)
qed

lemma enqueue_retrying:
  assumes inv: "queue_inv (alpha s)" and run: "redis_Enqueue (retrying m R) c p d n l g s = (r, s')"
  shows "case r of
      Inl err \<Rightarrow> alpha s' = alpha s
        \<or> alpha s' = enqueued_store p d n l g (unix_milli (rd_now R s)) (alpha s)
    | Inr k \<Rightarrow> alpha s' = enqueued_store p d n l g (unix_milli (rd_now R s)) (alpha s)
        \<and> (k = 0 \<or> k = (if stored_instance (alpha s) = Some g then 0 else int (length (queue_entries (alpha s)))))"
proof (cases "validateMemberPlayerID p = None \<and> g \<noteq> []")
  case False
  then show ?thesis using run by (auto simp: redis_Enqueue_def split: option.splits)
next
  case True
  let ?x = "unix_milli (rd_now R s)"
  let ?sc = "enqueueScript R queueKey gatewayInstanceKey p (encodeMember p d l n) (rd_float_arg R ?x) g"
  let ?st = "enqueued_store p d n l g ?x (alpha s)"
  note x = now_bound [of s] and p = conjunct1 [OF True]
  have sc: "fst (?sc s0) = RInt (if stored_instance st = Some g then 0 else int (length (queue_entries st)))
      \<and> alpha (snd (?sc s0)) = enqueued_store p d n l g ?x st"
    if "alpha s0 = st" "queue_inv st" for s0 st
    using that enqueueScript_refines [of s0 ?x p "encodeMember p d l n" g] queue_invD(1) [OF that(2)] x
    by (simp add: enqueued_store_def stored_instance_def queue_entries_def)
  have run': "run_int64 (retrying m R) ''redis enqueue: %w'' c ?sc s = (r, s')"
    using run True x by (simp add: redis_Enqueue_def)
  have twice: "fst (?sc s0) = RInt 0 \<and> alpha (snd (?sc s0)) = ?st" if "alpha s0 = ?st" for s0
    using sc [OF that enqueued_entries(1) [OF inv p x]] enqueued_twice [OF inv p x, of d n l g]
      enqueued_entries(2) [OF inv p x, of d n l g] by simp
  from run_int64_retrying [OF sc [OF _ inv] twice refl run'] show ?thesis by simp
qed

lemma cancel_retrying:
  assumes inv: "queue_inv (alpha s)" and run: "redis_Cancel (retrying m R) c p s = (r, s')"
  shows "case r of
      Inl err \<Rightarrow> alpha s' = alpha s \<or> alpha s' = cancelled_store p (alpha s)
    | Inr b \<Rightarrow> alpha s' = cancelled_store p (alpha s)
        \<and> (b = False \<or> b = (p \<in> PlayerID ` set (queue_entries (alpha s))))"
proof (cases "p = []")
  case True
  then show ?thesis using run by (auto simp: redis_Cancel_def)
next
  case False
  let ?sc = "cancelScript R queueKey p" and ?st = "cancelled_store p (alpha s)"
  let ?n = "\<lambda>st. int (length (filter (owned_by p) (zset st queueKey)))"
  have sc: "fst (?sc s0) = RInt (?n st) \<and> alpha (snd (?sc s0)) = cancelled_store p st"
    if "alpha s0 = st" "queue_inv st" for s0 st
    using that cancelScript_refines [of s0 p] queue_invD(1) [OF that(2)] by (simp add: cancelled_store_def)
  have n: "?n ?st = 0" by (simp add: cancelled_store_def mq_remove_def filter_empty_conv)
  have pos: "0 < ?n (alpha s) \<longleftrightarrow> p \<in> PlayerID ` set (queue_entries (alpha s))"
    using queue_invD(3) [OF inv]
    by (auto simp: queue_entries_def list_all_iff PlayerID_entry_of owned_by_owner length_greater_0_conv
        filter_empty_conv image_iff)
  have twice: "fst (?sc s0) = RInt 0 \<and> alpha (snd (?sc s0)) = ?st" if "alpha s0 = ?st" for s0
    using sc [OF that cancelled_entries(1) [OF inv]] cancelled_twice [of p "alpha s"] n by simp
  obtain r' where run': "run_int64 (retrying m R) ''redis cancel: %w'' c ?sc s = (r', s')"
    and r: "r = map_sum id (\<lambda>n. 0 < n) r'"
    using run False by (auto simp: redis_Cancel_def split: prod.splits sum.splits)
  from run_int64_retrying [OF sc [OF _ inv] twice refl run'] show ?thesis
    using pos r by (cases r') auto
qed

lemma reenqueue_retrying:
  assumes inv: "queue_inv (alpha s)" and es: "list_all writable es" and d: "distinct (map PlayerID es)"
    and run: "redis_Reenqueue (retrying m R) c es g s = (r, s')"
  shows "case r of
      Inl err \<Rightarrow> alpha s' = alpha s \<or> alpha s' = reenqueued_store es g (alpha s)
    | Inr b \<Rightarrow> alpha s' = reenqueued_store es g (alpha s) \<and> b = (g = id_text (stored_instance (alpha s)))"
proof -
  let ?ts = "map triple_of es" and ?st = "reenqueued_store es g (alpha s)"
  let ?sc = "reenqueueScript R queueKey gatewayInstanceKey g (script_args R ?ts)"
  let ?i = "\<lambda>st. if g = id_text (stored_instance st) then 1 else 0 :: int"
  have sc: "fst (?sc s0) = RInt (?i st) \<and> alpha (snd (?sc s0)) = reenqueued_store es g st"
    if "alpha s0 = st" "queue_inv st" for s0 st
    using that reenqueueScript_refines [of s0 ?ts g] queue_invD(1) [OF that(2)] triples_range [OF es]
    by (auto simp: reenqueued_store_def stored_instance_def id_text_def inst_text_def)
  note e = reenqueued_entries [OF inv es, of g]
  have twice: "fst (?sc s0) = RInt (?i (alpha s)) \<and> alpha (snd (?sc s0)) = ?st" if "alpha s0 = ?st" for s0
    using sc [OF that e(1)] reenqueued_twice [OF inv es d] e(2) by simp
  obtain r' where run': "run_int64 (retrying m R) ''redis reenqueue: %w'' c ?sc s = (r', s')"
    and r: "r = map_sum id (\<lambda>n. 0 < n) r'"
    using run by (auto simp: redis_Reenqueue_def reenqueueArgs_writable [OF es] split: prod.splits sum.splits)
  from run_int64_retrying [OF sc [OF _ inv] twice refl run'] show ?thesis
    using r by (cases r') (auto split: if_splits)
qed

end

section \<open>Properties\<close>


lemma ref_cancel_net: "rw_net (snd (cancelScript ref_redis k p w)) = rw_net w"
  by (simp add: cancelScript_def removePlayerEntries_def case_prod_beta ref_removeLoop_net)


text \<open>
  C5. Popping a pair must not be repeated: when the script ran and its reply was lost, the repetition
  pops the next two players. The call returns them without an error, and the two that joined first are
  gone from the queue; nobody knows of them any more.
\<close>

theorem retried_pop_loses_pair:
  assumes "redis_server R alpha" and "queue_inv (alpha s)" and "4 \<le> length (queue_entries (alpha s))"
    and "rd_eval R c (popPairScript R queueKey gatewayInstanceKey) s = (Inl e, s1)" and "alpha s1 \<noteq> alpha s"
    and "redis_PopPair R c s1 = (Inr (es, g), s2)"
  shows "redis_PopPair (retrying (Suc m) R) c s = (Inr (es, g), s2)
       \<and> es = take 2 (drop 2 (queue_entries (alpha s))) \<and> queue_entries (alpha s2) = drop 4 (queue_entries (alpha s))"
proof -
  let ?E = "queue_entries (alpha s)"
  have r1: "redis_PopPair R c s = (Inl (Errorf ''redis pop pair: %w'' [AErr e]), s1)"
    using assms(4) by (simp add: redis_PopPair_def)
  from redis_server.PopPair_cases [OF assms(1,2) r1] assms(5)
  have s1: "alpha s1 = popped_store (alpha s)" by simp
  have E1: "queue_inv (alpha s1)" "queue_entries (alpha s1) = drop 2 ?E"
    using popped_entries [OF assms(2)] assms(3) by (simp_all add: s1)
  from redis_server.PopPair_cases [OF assms(1) E1(1) assms(6)] E1(2) assms(3)
  have es: "es = take 2 (drop 2 ?E)" "alpha s2 = popped_store (alpha s1)" by (auto split: if_splits)
  have E2: "queue_entries (alpha s2) = drop 4 ?E"
    using popped_entries [OF E1(1)] assms(3) by (simp add: es(2) E1(2))
  obtain x where x: "rd_eval R c (popPairScript R queueKey gatewayInstanceKey) s1 = (Inr x, s2)"
    using assms(6) by (auto simp: redis_PopPair_def split: prod.splits sum.splits list.splits)
  have "redis_PopPair (retrying (Suc m) R) c s = redis_PopPair R c s1"
    using assms(4) x by (simp add: redis_PopPair_def eval_retrying_ok [OF x])
  then show ?thesis using assms(6) es E2 by simp
qed

text \<open>One more player waits.\<close>

lemma another_waiting:
  assumes "rw_net w = []" "queue_inv (ref_view w)" "stored_instance (ref_view w) = Some ''g1''"
    and "validateMemberPlayerID p = None" "p \<notin> PlayerID ` set (queue_entries (ref_view w))"
  shows "rw_net (after_enqueue p ''g1'' w) = []" "queue_inv (ref_view (after_enqueue p ''g1'' w))"
    "stored_instance (ref_view (after_enqueue p ''g1'' w)) = Some ''g1''"
    "PlayerID ` set (queue_entries (ref_view (after_enqueue p ''g1'' w)))
       = insert p (PlayerID ` set (queue_entries (ref_view w)))"
proof -
  obtain k where k: "redis_Enqueue ref_redis RequestCtx p 1 ''Ann'' 2 ''g1'' w = (Inr k, after_enqueue p ''g1'' w)"
    and net: "rw_net (after_enqueue p ''g1'' w) = []"
    using ref_enqueue_runs [OF assms(1,4), of "''g1''"] by auto
  note e = enqueue_effect [OF ref.redis_server_axioms assms(2) k]
  show "rw_net (after_enqueue p ''g1'' w) = []" by (rule net)
  show "queue_inv (ref_view (after_enqueue p ''g1'' w))"
    "stored_instance (ref_view (after_enqueue p ''g1'' w)) = Some ''g1''" using e by simp_all
  have "{e \<in> set (queue_entries (ref_view w)). PlayerID e \<noteq> p} = set (queue_entries (ref_view w))"
    using assms(5) by auto
  then show "PlayerID ` set (queue_entries (ref_view (after_enqueue p ''g1'' w)))
       = insert p (PlayerID ` set (queue_entries (ref_view w)))"
    using e assms(3) by simp
qed

definition four_waiting :: ref_world where
  "four_waiting = after_enqueue ''d'' ''g1'' (after_enqueue ''c'' ''g1'' two_waiting)"

lemma four_waiting:
  "rw_net four_waiting = []" "queue_inv (ref_view four_waiting)" "length (queue_entries (ref_view four_waiting)) = 4"
proof -
  have v: "validateMemberPlayerID ''c'' = None" "validateMemberPlayerID ''d'' = None"
    by (simp_all add: validate_None_iff)
  note c = another_waiting [OF two_waiting(1-3) v(1)]
  have "''c'' \<notin> PlayerID ` set (queue_entries (ref_view two_waiting))" using two_waiting(4) by simp
  note d = another_waiting [OF c(1-3) [OF this] v(2), folded four_waiting_def]
  have "''d'' \<notin> PlayerID ` set (queue_entries (ref_view (after_enqueue ''c'' ''g1'' two_waiting)))"
    using c(4) two_waiting(4) by simp
  note d = d [OF this]
  show "rw_net four_waiting = []" "queue_inv (ref_view four_waiting)" by (rule d)+
  have p: "PlayerID ` set (queue_entries (ref_view four_waiting)) = {''a'', ''b'', ''c'', ''d''}"
    using d(4) c(4) two_waiting(4) by auto
  have "distinct (map PlayerID (queue_entries (ref_view four_waiting)))"
    using queue_contract.unique [OF ref.contract] d(2) by simp
  then have "length (map PlayerID (queue_entries (ref_view four_waiting))) = card {''a'', ''b'', ''c'', ''d''}"
    using p by (metis distinct_card set_map)
  then show "length (queue_entries (ref_view four_waiting)) = 4" by simp
qed

lemma retried_pop_loses_pair_witness:
  "\<exists>es g w'. redis_PopPair (retrying 3 ref_redis) SignalCtx (four_waiting\<lparr>rw_net := [NetReplyLost (ErrOther ''EOF'')]\<rparr>)
       = (Inr (es, g), w')
     \<and> es = drop 2 (queue_entries (ref_view four_waiting)) \<and> queue_entries (ref_view w') = []"
proof -
  let ?w = "four_waiting\<lparr>rw_net := [NetReplyLost (ErrOther ''EOF'')]\<rparr>"
  let ?sc = "popPairScript ref_redis queueKey gatewayInstanceKey"
  let ?v = "snd (?sc (four_waiting\<lparr>rw_net := []\<rparr>))"
  have v: "rd_eval ref_redis SignalCtx ?sc ?w = (Inl (ErrOther ''EOF''), ?v)"
    by (simp add: ref_redis_def ref_eval_def Let_def)
  have net: "rw_net ?v = []" by (simp add: popPairScript_def Let_def case_prod_beta ref_net)
  have inv: "queue_inv (ref_view ?w)" and len: "4 \<le> length (queue_entries (ref_view ?w))"
    using four_waiting by simp_all
  have v': "ref_view ?v = popped_store (ref_view four_waiting)"
    using ref.popPairScript_refines(1) [of "four_waiting\<lparr>rw_net := []\<rparr>"] queue_invD(1) [OF four_waiting(2)]
    by (simp add: popped_store_def)
  then have E: "queue_inv (ref_view ?v)" "length (queue_entries (ref_view ?v)) = 2"
    using popped_entries [OF four_waiting(2)] four_waiting(3) by simp_all
  then have ne: "ref_view ?v \<noteq> ref_view ?w" using four_waiting(3) by auto
  obtain es g w' where r: "redis_PopPair ref_redis SignalCtx ?v = (Inr (es, g), w')"
    using ref_pop_runs [OF net E(1)] by blast
  have three: "Suc 2 = 3" by simp
  note t = retried_pop_loses_pair [OF ref.redis_server_axioms inv len v ne r, of 2, unfolded three ref_view_net]
  have "take 2 (drop 2 (queue_entries (ref_view four_waiting))) = drop 2 (queue_entries (ref_view four_waiting))"
    "drop 4 (queue_entries (ref_view four_waiting)) = []" using four_waiting(3) by simp_all
  with t show ?thesis by (intro exI [of _ es] exI [of _ g] exI [of _ w']) simp
qed

end
