(* ===== verification/Lua.thy ===== *)
theory Lua
  imports RedisQueue
begin

text \<open>
  internal/adapter/redisqueue/lua and lua\_scripts.go: the Lua files as syntax trees, statement by
  statement, the Go concatenation that puts the shared function in front of them, and an
  interpreter of the part of Lua they are written in, over the server's commands. The lemmas show
  that the embedded programs, run on the keys and arguments the Go methods pass, compute what the
  functions \<open>enqueueScript\<close>, \<open>popPairScript\<close>, \<open>cancelScript\<close> and \<open>reenqueueScript\<close> of RedisQueue
  compute: same reply, same server, for every queue content.

  The interpreter's bounds are on the depth of calls and the rounds of a \<open>while\<close>; reaching one is
  the result \<open>Unfinished\<close>. A run-time error of Lua is \<open>Raised\<close>, with the server as the commands
  before it have left it: a script is not rolled back. Tables are sequences (what the files use; to write nil into one is an error here), and
  numbers are whole (counts and indices; a server holds fewer than \<open>2 ^ 53\<close> members).
\<close>

section \<open>Syntax\<close>

datatype lua_op = Ne | Eq | Lt | Le | Add

datatype lua_expr =
    EVar string
  | ENum int
  | EStr string
  | EFalse
  | EIndex lua_expr lua_expr
  | ELen lua_expr
  | EBin lua_op lua_expr lua_expr
  | EOr lua_expr lua_expr
  | ETable "lua_expr list"
  | EBuiltin string "lua_expr list"
  | ECall lua_expr "lua_expr list"

text \<open>\<open>SFor x e b\<close> is \<open>for _, x in ipairs(e) do b end\<close>, \<open>SInsert t e\<close> is \<open>table.insert(t, e)\<close>.\<close>

datatype lua_stmt =
    SFunction string "string list" "lua_stmt list"
  | SLocal string lua_expr
  | SAssign string lua_expr
  | SExpr lua_expr
  | SInsert string lua_expr
  | SIf lua_expr "lua_stmt list"
  | SFor string lua_expr "lua_stmt list"
  | SWhile lua_expr "lua_stmt list"
  | SReturn lua_expr

section \<open>Values and results\<close>

text \<open>
  A function sees its parameters and the globals. \<open>LUnread\<close> is the reply of a command whose reply
  the files never look at; looking at it is an error.
\<close>

datatype lua_value =
    LNil
  | LBool bool
  | LNum int
  | LStr string
  | LTable "lua_value list"
  | LFun "string list" "lua_stmt list"
  | LUnread

datatype ('a, 's) lua_result = Done 'a 's | Raised 's | Unfinished

type_synonym lua_env = "(string \<times> lua_value) list"

text \<open>After a statement the block goes on with its variables, or has returned a value.\<close>

datatype lua_flow = Goes lua_env | Gives lua_value

fun lua_bind ::
  "('a, 's) lua_result \<Rightarrow> ('a \<Rightarrow> 's \<Rightarrow> ('b, 's) lua_result) \<Rightarrow> ('b, 's) lua_result" where
  "lua_bind (Done v s) f = f v s"
| "lua_bind (Raised s) f = Raised s"
| "lua_bind Unfinished f = Unfinished"

fun lua_opt :: "'a option \<Rightarrow> 's \<Rightarrow> ('a, 's) lua_result" where
  "lua_opt None s = Raised s"
| "lua_opt (Some v) s = Done v s"

section \<open>Operators\<close>

fun truthy :: "lua_value \<Rightarrow> bool" where
  "truthy LNil = False"
| "truthy (LBool b) = b"
| "truthy v = True"

text \<open>An unknown name reads as nil.\<close>

definition lua_lookup :: "lua_env \<Rightarrow> string \<Rightarrow> lua_value" where
  "lua_lookup \<rho> x = (case map_of \<rho> x of None \<Rightarrow> LNil | Some v \<Rightarrow> v)"

text \<open>Equality of values that are compared by content; tables and functions are not.\<close>

fun by_content :: "lua_value \<Rightarrow> bool" where
  "by_content (LTable vs) = False"
| "by_content (LFun ps b) = False"
| "by_content LUnread = False"
| "by_content v = True"

fun lua_binop :: "lua_op \<Rightarrow> lua_value \<Rightarrow> lua_value \<Rightarrow> lua_value option" where
  "lua_binop Eq v w = (if by_content v \<and> by_content w then Some (LBool (v = w)) else None)"
| "lua_binop Ne v w = (if by_content v \<and> by_content w then Some (LBool (v \<noteq> w)) else None)"
| "lua_binop Lt (LNum a) (LNum b) = Some (LBool (a < b))"
| "lua_binop Le (LNum a) (LNum b) = Some (LBool (a \<le> b))"
| "lua_binop Add (LNum a) (LNum b) = Some (LNum (a + b))"
| "lua_binop op v w = None"

text \<open>A sequence is indexed from 1; outside it the entry is nil.\<close>

fun lua_index :: "lua_value \<Rightarrow> lua_value \<Rightarrow> lua_value option" where
  "lua_index (LTable vs) (LNum i) =
     Some (if 1 \<le> i \<and> i \<le> int (length vs) then vs ! nat (i - 1) else LNil)"
| "lua_index v w = None"

fun lua_len :: "lua_value \<Rightarrow> lua_value option" where
  "lua_len (LTable vs) = Some (LNum (int (length vs)))"
| "lua_len (LStr t) = Some (LNum (int (length t)))"
| "lua_len v = None"

definition ipairs :: "lua_value list \<Rightarrow> lua_value list" where
  "ipairs vs = takeWhile (\<lambda>v. v \<noteq> LNil) vs"

text \<open>\<open>string.match\<close> for the patterns \<open>^[^c]*\<close>: the text before the first \<open>c\<close>.\<close>

fun lua_match :: "string \<Rightarrow> string \<Rightarrow> string option" where
  "lua_match t [a, b, a', c, b', r] =
     (if [a, b, a', b', r] = ''^[^]*'' then Some (takeWhile (\<lambda>x. x \<noteq> c) t) else None)"
| "lua_match t p = None"

section \<open>Commands\<close>

text \<open>\<open>redis.call\<close>: a missing value of \<open>GET\<close> is false in Lua.\<close>

definition lua_get :: "string option \<Rightarrow> lua_value" where
  "lua_get r = (case r of None \<Rightarrow> LBool False | Some v \<Rightarrow> LStr v)"

definition redis_call ::
  "'s redis \<Rightarrow> lua_value list \<Rightarrow> 's \<Rightarrow> (lua_value, 's) lua_result" where
  "redis_call R vs s =
     (case vs of
        [LStr c, LStr k] \<Rightarrow>
          if c = ''GET'' then Done (lua_get (rd_get R k s)) s
          else if c = ''ZCARD'' then Done (LNum (rd_zcard R k s)) s
          else if c = ''DEL'' then Done LUnread (rd_del R k s)
          else Raised s
      | [LStr c, LStr k, LNum n] \<Rightarrow>
          if c = ''ZPOPMIN'' \<and> 0 \<le> n then (let (ms, s') = rd_zpopmin R k (nat n) s in Done (LTable (map LStr ms)) s')
          else Raised s
      | [LStr c, LStr k, LStr v] \<Rightarrow>
          if c = ''SET'' then Done LUnread (rd_set R k v s)
          else if c = ''ZREM'' then (let (n, s') = rd_zrem R k v s in Done (LNum n) s')
          else Raised s
      | [LStr c, LStr k, LStr x, LStr m] \<Rightarrow>
          if c = ''ZADD'' then Done LUnread (rd_zadd R k x m s) else Raised s
      | [LStr c, LStr k, LNum i, LNum j] \<Rightarrow>
          if c = ''ZRANGE'' \<and> i = 0 \<and> j = - 1 then Done (LTable (map LStr (rd_zrange R k s))) s
          else Raised s
      | _ \<Rightarrow> Raised s)"

definition lua_builtin ::
  "'s redis \<Rightarrow> string \<Rightarrow> lua_value list \<Rightarrow> 's \<Rightarrow> (lua_value, 's) lua_result" where
  "lua_builtin R f vs s =
     (if f = ''redis.call'' then redis_call R vs s
      else if f = ''string.match'' then
        (case vs of [LStr t, LStr p] \<Rightarrow> lua_opt (map_option LStr (lua_match t p)) s | _ \<Rightarrow> Raised s)
      else Raised s)"

section \<open>Expressions\<close>

text \<open>
  \<open>cl\<close> is the call of a function value. Operands and arguments are evaluated from left to right.
\<close>

type_synonym 's lua_call = "lua_value \<Rightarrow> lua_value list \<Rightarrow> 's \<Rightarrow> (lua_value, 's) lua_result"

fun eval :: "'s redis \<Rightarrow> 's lua_call \<Rightarrow> lua_env \<Rightarrow> lua_expr \<Rightarrow> 's \<Rightarrow> (lua_value, 's) lua_result"
  and evals ::
    "'s redis \<Rightarrow> 's lua_call \<Rightarrow> lua_env \<Rightarrow> lua_expr list \<Rightarrow> 's \<Rightarrow> (lua_value list, 's) lua_result"
where
  "eval R cl \<rho> (EVar x) s = Done (lua_lookup \<rho> x) s"
| "eval R cl \<rho> (ENum n) s = Done (LNum n) s"
| "eval R cl \<rho> (EStr t) s = Done (LStr t) s"
| "eval R cl \<rho> EFalse s = Done (LBool False) s"
| "eval R cl \<rho> (EIndex a b) s =
     lua_bind (eval R cl \<rho> a s) (\<lambda>v s. lua_bind (eval R cl \<rho> b s) (\<lambda>w. lua_opt (lua_index v w)))"
| "eval R cl \<rho> (ELen a) s = lua_bind (eval R cl \<rho> a s) (\<lambda>v. lua_opt (lua_len v))"
| "eval R cl \<rho> (EBin op a b) s =
     lua_bind (eval R cl \<rho> a s) (\<lambda>v s. lua_bind (eval R cl \<rho> b s) (\<lambda>w. lua_opt (lua_binop op v w)))"
| "eval R cl \<rho> (EOr a b) s =
     lua_bind (eval R cl \<rho> a s) (\<lambda>v s. if truthy v then Done v s else eval R cl \<rho> b s)"
| "eval R cl \<rho> (ETable es) s =
     lua_bind (evals R cl \<rho> es s) (\<lambda>vs s. if LNil \<in> set vs then Raised s else Done (LTable vs) s)"
| "eval R cl \<rho> (EBuiltin f es) s = lua_bind (evals R cl \<rho> es s) (lua_builtin R f)"
| "eval R cl \<rho> (ECall f es) s =
     lua_bind (eval R cl \<rho> f s) (\<lambda>v s. lua_bind (evals R cl \<rho> es s) (cl v))"
| "evals R cl \<rho> [] s = Done [] s"
| "evals R cl \<rho> (e # es) s =
     lua_bind (eval R cl \<rho> e s) (\<lambda>v s. lua_bind (evals R cl \<rho> es s) (\<lambda>vs. Done (v # vs)))"

section \<open>Statements\<close>

text \<open>
  The variables in scope, innermost first. A block's own variables end with it; an assignment
  reaches the innermost variable of the name, and one to an unknown name is refused (Redis forbids
  new globals).
\<close>

fun assign :: "string \<Rightarrow> lua_value \<Rightarrow> lua_env \<Rightarrow> lua_env option" where
  "assign x v [] = None"
| "assign x v ((y, w) # \<rho>) =
     (if x = y then Some ((y, v) # \<rho>) else map_option ((#) (y, w)) (assign x v \<rho>))"

fun lua_then ::
  "(lua_flow, 's) lua_result \<Rightarrow> (lua_env \<Rightarrow> 's \<Rightarrow> (lua_flow, 's) lua_result) \<Rightarrow> (lua_flow, 's) lua_result"
where
  "lua_then (Done (Goes \<rho>) s) f = f \<rho> s"
| "lua_then r f = r"

definition scope :: "lua_env \<Rightarrow> (lua_flow, 's) lua_result \<Rightarrow> (lua_flow, 's) lua_result" where
  "scope \<rho> r = lua_then r (\<lambda>\<rho>'. Done (Goes (drop (length \<rho>' - length \<rho>) \<rho>')))"

lemma scope_simps [simp]:
  "scope \<rho> (Done (Goes \<rho>') s) = Done (Goes (drop (length \<rho>' - length \<rho>) \<rho>')) s"
  "scope \<rho> (Done (Gives v) s) = Done (Gives v) s"
  "scope \<rho> (Raised s) = Raised s"
  "scope \<rho> Unfinished = Unfinished"
  by (simp_all add: scope_def)

text \<open>The rounds of \<open>for\<close> over a sequence and of \<open>while\<close>, at most \<open>n\<close> of the latter.\<close>

fun each ::
  "(lua_value \<Rightarrow> lua_env \<Rightarrow> 's \<Rightarrow> (lua_flow, 's) lua_result) \<Rightarrow> lua_value list \<Rightarrow> lua_env \<Rightarrow> 's
     \<Rightarrow> (lua_flow, 's) lua_result" where
  "each f [] \<rho> s = Done (Goes \<rho>) s"
| "each f (v # vs) \<rho> s = lua_then (f v \<rho> s) (each f vs)"

fun rounds ::
  "nat \<Rightarrow> (lua_env \<Rightarrow> 's \<Rightarrow> (lua_value, 's) lua_result) \<Rightarrow> (lua_env \<Rightarrow> 's \<Rightarrow> (lua_flow, 's) lua_result)
     \<Rightarrow> lua_env \<Rightarrow> 's \<Rightarrow> (lua_flow, 's) lua_result" where
  "rounds 0 c f \<rho> s = Unfinished"
| "rounds (Suc n) c f \<rho> s =
     lua_bind (c \<rho> s) (\<lambda>v s. if truthy v then lua_then (f \<rho> s) (rounds n c f) else Done (Goes \<rho>) s)"

fun exec ::
  "'s redis \<Rightarrow> 's lua_call \<Rightarrow> nat \<Rightarrow> lua_stmt \<Rightarrow> lua_env \<Rightarrow> 's \<Rightarrow> (lua_flow, 's) lua_result"
  and block ::
  "'s redis \<Rightarrow> 's lua_call \<Rightarrow> nat \<Rightarrow> lua_stmt list \<Rightarrow> lua_env \<Rightarrow> 's \<Rightarrow> (lua_flow, 's) lua_result"
where
  "exec R cl n (SFunction f ps b) \<rho> s = Done (Goes ((f, LFun ps b) # \<rho>)) s"
| "exec R cl n (SLocal x e) \<rho> s = lua_bind (eval R cl \<rho> e s) (\<lambda>v. Done (Goes ((x, v) # \<rho>)))"
| "exec R cl n (SAssign x e) \<rho> s =
     lua_bind (eval R cl \<rho> e s) (\<lambda>v. lua_opt (map_option Goes (assign x v \<rho>)))"
| "exec R cl n (SExpr e) \<rho> s = lua_bind (eval R cl \<rho> e s) (\<lambda>v. Done (Goes \<rho>))"
| "exec R cl n (SInsert t e) \<rho> s =
     lua_bind (eval R cl \<rho> e s) (\<lambda>v s.
       case lua_lookup \<rho> t of
         LTable vs \<Rightarrow>
           if v = LNil then Raised s
           else lua_opt (map_option Goes (assign t (LTable (vs @ [v])) \<rho>)) s
       | _ \<Rightarrow> Raised s)"
| "exec R cl n (SIf e b) \<rho> s =
     lua_bind (eval R cl \<rho> e s) (\<lambda>v s.
       if truthy v then scope \<rho> (block R cl n b \<rho> s) else Done (Goes \<rho>) s)"
| "exec R cl n (SFor x e b) \<rho> s =
     lua_bind (eval R cl \<rho> e s) (\<lambda>v s.
       case v of
         LTable vs \<Rightarrow> each (\<lambda>w \<rho> s. scope \<rho> (block R cl n b ((x, w) # \<rho>) s)) (ipairs vs) \<rho> s
       | _ \<Rightarrow> Raised s)"
| "exec R cl n (SWhile e b) \<rho> s =
     rounds n (\<lambda>\<rho>. eval R cl \<rho> e) (\<lambda>\<rho> s. scope \<rho> (block R cl n b \<rho> s)) \<rho> s"
| "exec R cl n (SReturn e) \<rho> s = lua_bind (eval R cl \<rho> e s) (\<lambda>v. Done (Gives v))"
| "block R cl n [] \<rho> s = Done (Goes \<rho>) s"
| "block R cl n (st # sts) \<rho> s = lua_then (exec R cl n st \<rho> s) (block R cl n sts)"

section \<open>Calls and programs\<close>

text \<open>Missing arguments are nil, extra ones are dropped; a body that ends without a return gives nil.\<close>

definition bind_params :: "string list \<Rightarrow> lua_value list \<Rightarrow> lua_env" where
  "bind_params ps vs = zip ps (vs @ replicate (length ps) LNil)"

fun lua_returned :: "lua_flow \<Rightarrow> lua_value" where
  "lua_returned (Goes \<rho>) = LNil"
| "lua_returned (Gives v) = v"

fun call :: "'s redis \<Rightarrow> lua_env \<Rightarrow> nat \<Rightarrow> nat \<Rightarrow> 's lua_call" where
  "call R G n 0 f vs s = Unfinished"
| "call R G n (Suc d) f vs s =
     (case f of
        LFun ps b \<Rightarrow> lua_bind (block R (call R G n d) n b (bind_params ps vs @ G) s) (\<lambda>r. Done (lua_returned r))
      | _ \<Rightarrow> Raised s)"

text \<open>
  The conversion of a script's value to a Redis reply: only numbers and sequences of strings, which
  are all the replies the record of the server has.
\<close>

fun lua_text :: "lua_value \<Rightarrow> string option" where
  "lua_text (LStr t) = Some t"
| "lua_text v = None"

fun lua_reply :: "lua_value \<Rightarrow> reply option" where
  "lua_reply (LNum i) = Some (RInt i)"
| "lua_reply (LTable vs) = map_option RStrs (those (map lua_text vs))"
| "lua_reply v = None"

definition lua_globals :: "string list \<Rightarrow> string list \<Rightarrow> lua_env" where
  "lua_globals keys argv = [(''KEYS'', LTable (map LStr keys)), (''ARGV'', LTable (map LStr argv))]"

text \<open>\<open>Script.Run\<close> with these keys and arguments: depth \<open>d\<close> of calls, \<open>n\<close> rounds of a \<open>while\<close>.\<close>

definition run_script ::
  "'s redis \<Rightarrow> nat \<Rightarrow> nat \<Rightarrow> lua_stmt list \<Rightarrow> string list \<Rightarrow> string list \<Rightarrow> 's \<Rightarrow> (reply \<times> 's) option"
where
  "run_script R d n prog keys argv s =
     (let G = lua_globals keys argv in
      case block R (call R G n d) n prog G s of
        Done (Gives v) s' \<Rightarrow> map_option (\<lambda>r. (r, s')) (lua_reply v)
      | _ \<Rightarrow> None)"

section \<open>The files\<close>

text \<open>remove\_player\_entries.lua.\<close>

definition remove_round :: "lua_stmt list" where
  "remove_round =
     [SIf (EBin Eq (EBuiltin ''string.match'' [EVar ''member'', EStr ''^[^:]*'']) (EVar ''playerID''))
        [SAssign ''removed'' (EBin Add (EVar ''removed'')
           (EBuiltin ''redis.call'' [EStr ''ZREM'', EVar ''queueKey'', EVar ''member'']))]]"

definition removePlayerEntries_body :: "lua_stmt list" where
  "removePlayerEntries_body =
     [SLocal ''removed'' (ENum 0),
      SFor ''member'' (EBuiltin ''redis.call'' [EStr ''ZRANGE'', EVar ''queueKey'', ENum 0, ENum (- 1)])
        remove_round,
      SReturn (EVar ''removed'')]"

definition removePlayerEntriesFunction :: "lua_stmt list" where
  "removePlayerEntriesFunction =
     [SFunction ''removePlayerEntries'' [''queueKey'', ''playerID''] removePlayerEntries_body]"

text \<open>enqueue.lua.\<close>

definition enqueueBody :: "lua_stmt list" where
  "enqueueBody =
     [SLocal ''queueKey'' (EIndex (EVar ''KEYS'') (ENum 1)),
      SLocal ''instanceKey'' (EIndex (EVar ''KEYS'') (ENum 2)),
      SLocal ''playerID'' (EIndex (EVar ''ARGV'') (ENum 1)),
      SLocal ''member'' (EIndex (EVar ''ARGV'') (ENum 2)),
      SLocal ''score'' (EIndex (EVar ''ARGV'') (ENum 3)),
      SLocal ''instanceID'' (EIndex (EVar ''ARGV'') (ENum 4)),
      SLocal ''storedInstanceID'' (EBuiltin ''redis.call'' [EStr ''GET'', EVar ''instanceKey'']),
      SLocal ''removedCount'' (ENum 0),
      SIf (EBin Ne (EVar ''storedInstanceID'') (EVar ''instanceID''))
        [SAssign ''removedCount'' (EBuiltin ''redis.call'' [EStr ''ZCARD'', EVar ''queueKey'']),
         SExpr (EBuiltin ''redis.call'' [EStr ''DEL'', EVar ''queueKey''])],
      SExpr (EBuiltin ''redis.call'' [EStr ''SET'', EVar ''instanceKey'', EVar ''instanceID'']),
      SExpr (ECall (EVar ''removePlayerEntries'') [EVar ''queueKey'', EVar ''playerID'']),
      SExpr (EBuiltin ''redis.call'' [EStr ''ZADD'', EVar ''queueKey'', EVar ''score'', EVar ''member'']),
      SReturn (EVar ''removedCount'')]"

text \<open>pop\_pair.lua.\<close>

definition insert_round :: "lua_stmt list" where
  "insert_round = [SInsert ''result'' (EVar ''value'')]"

definition popPairProgram :: "lua_stmt list" where
  "popPairProgram =
     [SLocal ''queueKey'' (EIndex (EVar ''KEYS'') (ENum 1)),
      SLocal ''instanceKey'' (EIndex (EVar ''KEYS'') (ENum 2)),
      SLocal ''count'' (EBuiltin ''redis.call'' [EStr ''ZCARD'', EVar ''queueKey'']),
      SIf (EBin Lt (EVar ''count'') (ENum 2)) [SReturn (ETable [])],
      SLocal ''pair'' (EBuiltin ''redis.call'' [EStr ''ZPOPMIN'', EVar ''queueKey'', ENum 2]),
      SLocal ''result'' (ETable [EOr (EBuiltin ''redis.call'' [EStr ''GET'', EVar ''instanceKey'']) (EStr [])]),
      SFor ''value'' (EVar ''pair'') insert_round,
      SReturn (EVar ''result'')]"

text \<open>cancel.lua.\<close>

definition cancelBody :: "lua_stmt list" where
  "cancelBody =
     [SReturn (ECall (EVar ''removePlayerEntries'')
        [EIndex (EVar ''KEYS'') (ENum 1), EIndex (EVar ''ARGV'') (ENum 1)])]"

text \<open>reenqueue.lua.\<close>

definition reenqueue_cond :: lua_expr where
  "reenqueue_cond = EBin Le (EVar ''i'') (ELen (EVar ''ARGV''))"

definition reenqueue_round :: "lua_stmt list" where
  "reenqueue_round =
     [SExpr (ECall (EVar ''removePlayerEntries'') [EVar ''queueKey'', EIndex (EVar ''ARGV'') (EVar ''i'')]),
      SExpr (EBuiltin ''redis.call'' [EStr ''ZADD'', EVar ''queueKey'',
        EIndex (EVar ''ARGV'') (EBin Add (EVar ''i'') (ENum 2)),
        EIndex (EVar ''ARGV'') (EBin Add (EVar ''i'') (ENum 1))]),
      SAssign ''i'' (EBin Add (EVar ''i'') (ENum 3))]"

definition reenqueueBody :: "lua_stmt list" where
  "reenqueueBody =
     [SLocal ''queueKey'' (EIndex (EVar ''KEYS'') (ENum 1)),
      SLocal ''instanceKey'' (EIndex (EVar ''KEYS'') (ENum 2)),
      SLocal ''expectedID'' (EIndex (EVar ''ARGV'') (ENum 1)),
      SLocal ''stored'' (EBuiltin ''redis.call'' [EStr ''GET'', EVar ''instanceKey'']),
      SIf (EBin Eq (EVar ''stored'') EFalse) [SAssign ''stored'' (EStr [])],
      SIf (EBin Ne (EVar ''stored'') (EVar ''expectedID'')) [SReturn (ENum 0)],
      SLocal ''i'' (ENum 2),
      SWhile reenqueue_cond reenqueue_round,
      SReturn (ENum 1)]"

text \<open>
  lua\_scripts.go: the shared function's file, a newline and the script's file. The newline keeps
  the files' lines apart, so the concatenation has the statements of both.
\<close>

definition enqueueProgram :: "lua_stmt list" where
  "enqueueProgram = removePlayerEntriesFunction @ enqueueBody"

definition cancelProgram :: "lua_stmt list" where
  "cancelProgram = removePlayerEntriesFunction @ cancelBody"

definition reenqueueProgram :: "lua_stmt list" where
  "reenqueueProgram = removePlayerEntriesFunction @ reenqueueBody"

section \<open>The programs compute the script functions\<close>

lemma ipairs_texts [simp]: "ipairs (map LStr ts) = map LStr ts"
  by (simp add: ipairs_def)

lemma those_texts [simp]: "those (map (lua_text \<circ> LStr) ts) = Some ts"
  by (induction ts) simp_all

lemma match_first_field [simp]: "lua_match m ''^[^:]*'' = Some (first_field m)"
  by (simp add: first_field_def)

declare lua_match.simps [simp del]

lemmas lua_eval = lua_lookup_def lua_builtin_def redis_call_def

lemma remove_rounds:
  "each (\<lambda>w \<rho> s. scope \<rho> (block R cl n remove_round ((''member'', w) # \<rho>) s)) (map LStr ms)
     ((''removed'', LNum r) # (''queueKey'', LStr k) # (''playerID'', LStr p) # G) s
   = (let (r', s') = removeLoop R k p ms r s in
      Done (Goes ((''removed'', LNum r') # (''queueKey'', LStr k) # (''playerID'', LStr p) # G)) s')"
  by (induction ms arbitrary: r s) (simp_all add: lua_eval remove_round_def split: prod.split)

lemma call_remove:
  "call R G n (Suc d) (LFun [''queueKey'', ''playerID''] removePlayerEntries_body) [LStr k, LStr p] s
   = (let (r, s') = removePlayerEntries R k p s in Done (LNum r) s')"
  by (simp add: removePlayerEntries_body_def bind_params_def lua_eval remove_rounds
      removePlayerEntries_def split: prod.split)

declare call.simps [simp del]

lemma enqueue_program:
  "run_script R (Suc d) n enqueueProgram [qk, ik] [p, m, sc, g] s = Some (enqueueScript R qk ik p m sc g s)"
  by (simp add: run_script_def lua_globals_def enqueueProgram_def removePlayerEntriesFunction_def
      enqueueBody_def lua_eval call_remove enqueueScript_def lua_get_def Let_def
      split: prod.split option.split)

lemma cancel_program:
  "run_script R (Suc d) n cancelProgram [qk] [p] s = Some (cancelScript R qk p s)"
  by (simp add: run_script_def lua_globals_def cancelProgram_def removePlayerEntriesFunction_def
      cancelBody_def lua_eval call_remove cancelScript_def split: prod.split)

lemma insert_rounds:
  "each (\<lambda>w \<rho> s. scope \<rho> (block R cl n insert_round ((''value'', w) # \<rho>) s))
     (map LStr ms) ((''result'', LTable ws) # G) s
   = Done (Goes ((''result'', LTable (ws @ map LStr ms)) # G)) s"
  by (induction ms arbitrary: ws) (simp_all add: lua_eval insert_round_def)

lemma popPair_program:
  "run_script R d n popPairProgram [qk, ik] [] s = Some (popPairScript R qk ik s)"
  by (simp add: run_script_def lua_globals_def popPairProgram_def lua_eval Let_def
      insert_rounds popPairScript_def lua_get_def split: prod.split option.split)

text \<open>The rounds of reenqueue.lua over whole triples, from any position of \<open>ARGV\<close>.\<close>

abbreviation reenqueue_env :: "string \<Rightarrow> string \<Rightarrow> string \<Rightarrow> string \<Rightarrow> int \<Rightarrow> lua_env \<Rightarrow> lua_env" where
  "reenqueue_env qk ik x v i G \<equiv>
     (''i'', LNum i) # (''stored'', LStr v) # (''expectedID'', LStr x) # (''instanceKey'', LStr ik)
     # (''queueKey'', LStr qk)
     # (''removePlayerEntries'', LFun [''queueKey'', ''playerID''] removePlayerEntries_body) # G"

lemma lua_index_at:
  "i = int (length pre) + 1 \<Longrightarrow> lua_index (LTable (map LStr (pre @ x # post))) (LNum i) = Some (LStr x)"
  by (simp add: nth_append)

lemma reenqueue_round_effect:
  assumes argv: "argv = pre @ p # m # sc # post" and i: "i = int (length pre) + 1"
  shows "block R (call R G n (Suc d)) n reenqueue_round (reenqueue_env qk ik x v i (lua_globals keys argv)) s
         = Done (Goes (reenqueue_env qk ik x v (i + 3) (lua_globals keys argv)))
             (rd_zadd R qk sc m (snd (removePlayerEntries R qk p s)))"
proof -
  have "lua_index (LTable (map LStr argv)) (LNum i) = Some (LStr p)"
    using lua_index_at [OF i] argv by metis
  moreover have "lua_index (LTable (map LStr argv)) (LNum (i + 1)) = Some (LStr m)"
    using lua_index_at [of "i + 1" "pre @ [p]" m "sc # post"] argv i by simp
  moreover have "lua_index (LTable (map LStr argv)) (LNum (i + 2)) = Some (LStr sc)"
    using lua_index_at [of "i + 2" "pre @ [p, m]" sc post] argv i by simp
  ultimately show ?thesis
    by (simp add: reenqueue_round_def lua_eval lua_globals_def call_remove del: lua_index.simps
        split: prod.split)
qed

text \<open>\<open>ARGV\<close> as the Go method builds it: whole triples.\<close>

definition triples :: "(string \<times> string \<times> string) list \<Rightarrow> string list" where
  "triples ts = concat (map (\<lambda>(p, m, sc). [p, m, sc]) ts)"

lemma triples_simps [simp]: "triples [] = []" "triples ((p, m, sc) # ts) = p # m # sc # triples ts"
  by (simp_all add: triples_def)

lemma reenqueue_cond_value:
  "eval R cl (reenqueue_env qk ik x v i (lua_globals keys argv)) reenqueue_cond s
   = Done (LBool (i \<le> int (length argv))) s"
  by (simp add: reenqueue_cond_def lua_eval lua_globals_def)

lemma reenqueue_rounds:
  assumes "argv = pre @ triples ts" and "i = int (length pre) + 1" and "length ts < k"
  shows "\<exists>i'. rounds k (\<lambda>\<rho>. eval R (call R G n (Suc d)) \<rho> reenqueue_cond)
             (\<lambda>\<rho> s. scope \<rho> (block R (call R G n (Suc d)) n reenqueue_round \<rho> s))
             (reenqueue_env qk ik x v i (lua_globals keys argv)) s
         = Done (Goes (reenqueue_env qk ik x v i' (lua_globals keys argv))) (reenqueueLoop R qk (triples ts) s)"
  using assms
proof (induction ts arbitrary: pre i k s)
  case Nil
  then obtain k' where "k = Suc k'" by (cases k) auto
  with Nil show ?case by (simp add: reenqueue_cond_value)
next
  case (Cons t ts)
  obtain p m sc where t [simp]: "t = (p, m, sc)" by (cases t)
  from Cons.prems obtain k' where k: "k = Suc k'" "length ts < k'" by (cases k) auto
  have argv: "argv = pre @ p # m # sc # triples ts" using Cons.prems(1) by simp
  have "argv = (pre @ [p, m, sc]) @ triples ts" "i + 3 = int (length (pre @ [p, m, sc])) + 1"
    using Cons.prems by simp_all
  note IH = Cons.IH [OF this k(2)]
  have le: "i \<le> int (length argv)" using argv Cons.prems(2) by simp
  show ?case
    using IH by (simp add: k le reenqueue_cond_value reenqueue_round_effect [OF argv Cons.prems(2)] Let_def)
qed

lemma reenqueue_program:
  assumes "length ts < n"
  shows "run_script R (Suc d) n reenqueueProgram [qk, ik] (g # triples ts) s
         = Some (reenqueueScript R qk ik g (triples ts) s)"
proof -
  let ?argv = "g # triples ts" and ?keys = "[qk, ik]"
  let ?G = "lua_globals ?keys ?argv"
  from reenqueue_rounds [where argv = ?argv and pre = "[g]" and i = 2, OF _ _ assms]
  have loop: "\<exists>i'. rounds n (\<lambda>\<rho>. eval R (call R ?G n (Suc d)) \<rho> reenqueue_cond)
      (\<lambda>\<rho> s. scope \<rho> (block R (call R ?G n (Suc d)) n reenqueue_round \<rho> s)) (reenqueue_env qk ik g g 2 ?G) s
    = Done (Goes (reenqueue_env qk ik g g i' ?G)) (reenqueueLoop R qk (triples ts) s)"
    by simp
  have globals: "map_of ?G ''KEYS'' = Some (LTable [LStr qk, LStr ik])"
    "map_of ?G ''ARGV'' = Some (LTable (LStr g # map LStr (triples ts)))"
    by (simp_all add: lua_globals_def)
  show ?thesis
    using loop by (auto simp: run_script_def reenqueueProgram_def removePlayerEntriesFunction_def
        reenqueueBody_def lua_eval lua_get_def reenqueueScript_def Let_def globals split: option.split)
qed

lemma reenqueueArgs_triples:
  "reenqueueArgs R es = Inr args \<Longrightarrow> \<exists>ts. args = triples ts \<and> length ts = length es"
proof (induction es arbitrary: args)
  case Nil
  then show ?case by (auto intro: exI [of _ "[]"])
next
  case (Cons e es)
  then obtain args' where "reenqueueArgs R es = Inr args'"
    and args: "args = [PlayerID e, encodeMember (PlayerID e) (DeckID e) (Level e) (Name e),
      rd_float_arg R (float64_of_int (unix_milli (JoinedAt e)))] @ args'"
    by (cases "reenqueueArgs R es") (auto split: option.splits)
  then obtain ts where "args' = triples ts" "length ts = length es" using Cons.IH by blast
  with args show ?case
    by (intro exI [of _ "(PlayerID e, encodeMember (PlayerID e) (DeckID e) (Level e) (Name e),
      rd_float_arg R (float64_of_int (unix_milli (JoinedAt e)))) # ts"]) simp
qed

text \<open>
  C16. The Lua programs that lua\_scripts.go embeds compute the script functions: run on the keys and
  the arguments the Go methods pass, over any server and in any state of it, no program raises an
  error or exceeds its bounds (one call deep, one round of \<open>while\<close> more than there are entries to
  write back), and its reply and its effect on the server are those of \<open>enqueueScript\<close>,
  \<open>popPairScript\<close>, \<open>cancelScript\<close> and \<open>reenqueueScript\<close>.
\<close>

theorem lua_programs_compute_scripts:
  assumes args: "reenqueueArgs R es = Inr args" and n: "length es < n"
  shows "run_script R (Suc d) n enqueueProgram [queueKey, gatewayInstanceKey] [playerID, member, score, g] s
           = Some (enqueueScript R queueKey gatewayInstanceKey playerID member score g s)
       \<and> run_script R d n popPairProgram [queueKey, gatewayInstanceKey] [] s
           = Some (popPairScript R queueKey gatewayInstanceKey s)
       \<and> run_script R (Suc d) n cancelProgram [queueKey] [playerID] s
           = Some (cancelScript R queueKey playerID s)
       \<and> run_script R (Suc d) n reenqueueProgram [queueKey, gatewayInstanceKey] (g # args) s
           = Some (reenqueueScript R queueKey gatewayInstanceKey g args s)"
proof -
  obtain ts where "args = triples ts" "length ts = length es"
    using reenqueueArgs_triples [OF args] by blast
  then show ?thesis
    using n by (simp add: enqueue_program popPair_program cancel_program reenqueue_program)
qed

lemma lua_programs_compute_scripts_witness:
  "\<exists>args. reenqueueArgs ref_redis
       [\<lparr>PlayerID = ''p'', DeckID = 3, Name = ''n'', Level = 4, JoinedAt = 0\<rparr>] = Inr args
     \<and> (\<forall>s. run_script ref_redis 1 2 reenqueueProgram [queueKey, gatewayInstanceKey] (''g'' # args) s
          = Some (reenqueueScript ref_redis queueKey gatewayInstanceKey ''g'' args s))"
proof -
  let ?e = "\<lparr>PlayerID = ''p'', DeckID = 3, Name = ''n'', Level = 4, JoinedAt = 0\<rparr>"
  obtain args where "reenqueueArgs ref_redis [?e] = Inr args"
    by (auto simp: validateMemberPlayerID_def memberSeparator_def)
  then show ?thesis
    using lua_programs_compute_scripts [of ref_redis "[?e]" args 2 0] by auto
qed

end
