(* ===== verification/VirtualClock.thy ===== *)
theory VirtualClock
  imports Prelude
begin

text \<open>
  internal/usecase/matcher/matchertest/clock.go: the clock of the matcher's tests, whose time passes
  only by \<open>Advance\<close>. A channel is an address; \<open>vc_chans\<close> holds its buffered notification (the capacity
  is one). The channel \<open>changed\<close>, which only wakes waiting tests, is left out. \<open>Advance\<close> loops until
  nothing is due; it does not return for a ticker whose interval is not positive, so it is a partial
  function, and the first property says when it returns and with what.
\<close>

section \<open>State\<close>

record timer =
  tm_at :: instant
  tm_ch :: nat

record ticker =
  tk_interval :: int
  tk_next :: instant
  tk_ch :: nat
  tk_isActive :: bool

record vclock =
  vc_now :: instant
  vc_timers :: "timer list"
  vc_tickers :: "ticker list"
  vc_chans :: "nat \<Rightarrow> instant option"
  vc_fresh :: nat

definition NewClock :: "instant \<Rightarrow> vclock" where
  "NewClock start = \<lparr>vc_now = start, vc_timers = [], vc_tickers = [], vc_chans = (\<lambda>ch. None), vc_fresh = 0\<rparr>"

definition vc_Now :: "vclock \<Rightarrow> instant" where
  "vc_Now c = vc_now c"

definition vc_After :: "int \<Rightarrow> vclock \<Rightarrow> nat \<times> vclock" where
  "vc_After d c =
    (let ch = vc_fresh c
     in (ch, c\<lparr>vc_timers := vc_timers c @ [\<lparr>tm_at = vc_now c + d, tm_ch = ch\<rparr>], vc_fresh := ch + 1\<rparr>))"

definition vc_NewTicker :: "int \<Rightarrow> vclock \<Rightarrow> nat \<times> vclock" where
  "vc_NewTicker d c =
    (let ch = vc_fresh c
     in (ch, c\<lparr>vc_tickers := vc_tickers c @
               [\<lparr>tk_interval = d, tk_next = vc_now c + d, tk_ch = ch, tk_isActive = True\<rparr>],
             vc_fresh := ch + 1\<rparr>))"

definition vc_Stop :: "nat \<Rightarrow> vclock \<Rightarrow> vclock" where
  "vc_Stop ch c = c\<lparr>vc_tickers :=
     map (\<lambda>t. if tk_ch t = ch then t\<lparr>tk_isActive := False\<rparr> else t) (vc_tickers c)\<rparr>"

text \<open>Receiving from a channel that holds a notification.\<close>

definition vc_receive :: "nat \<Rightarrow> vclock \<Rightarrow> instant option \<times> vclock" where
  "vc_receive ch c = (vc_chans c ch, c\<lparr>vc_chans := (vc_chans c)(ch := None)\<rparr>)"

text \<open>What \<open>WaitForTickers\<close> and \<open>WaitForTicksConsumed\<close> wait for.\<close>

definition countActiveTickers :: "vclock \<Rightarrow> nat" where
  "countActiveTickers c = length (filter tk_isActive (vc_tickers c))"

definition hasUnreadTick :: "vclock \<Rightarrow> bool" where
  "hasUnreadTick c = list_ex (\<lambda>t. tk_isActive t \<and> vc_chans c (tk_ch t) \<noteq> None) (vc_tickers c)"

section \<open>Advance\<close>

definition sendWithoutWaiting :: "nat \<Rightarrow> instant \<Rightarrow> (nat \<Rightarrow> instant option) \<Rightarrow> nat \<Rightarrow> instant option" where
  "sendWithoutWaiting ch at chans = (if chans ch = None then chans(ch := Some at) else chans)"

definition fireTimer :: "timer \<Rightarrow> vclock \<Rightarrow> vclock" where
  "fireTimer t c = c\<lparr>vc_chans := sendWithoutWaiting (tm_ch t) (vc_now c) (vc_chans c),
     vc_timers := filter (\<lambda>u. tm_ch u \<noteq> tm_ch t) (vc_timers c)\<rparr>"

definition fireTicker :: "ticker \<Rightarrow> vclock \<Rightarrow> vclock" where
  "fireTicker t c = c\<lparr>vc_chans := sendWithoutWaiting (tk_ch t) (vc_now c) (vc_chans c),
     vc_tickers := map (\<lambda>u. if tk_ch u = tk_ch t then u\<lparr>tk_next := tk_next u + tk_interval u\<rparr> else u)
       (vc_tickers c)\<rparr>"

datatype due = DueTimer timer | DueTicker ticker

definition due_at :: "due \<Rightarrow> instant" where
  "due_at d = (case d of DueTimer t \<Rightarrow> tm_at t | DueTicker t \<Rightarrow> tk_next t)"

definition due_ch :: "due \<Rightarrow> nat" where
  "due_ch d = (case d of DueTimer t \<Rightarrow> tm_ch t | DueTicker t \<Rightarrow> tk_ch t)"

definition due_fire :: "due \<Rightarrow> vclock \<Rightarrow> vclock" where
  "due_fire d = (case d of DueTimer t \<Rightarrow> fireTimer t | DueTicker t \<Rightarrow> fireTicker t)"

text \<open>What \<open>earliestDue\<close> collects, and the first of it by a stable sort on the times.\<close>

definition dues :: "instant \<Rightarrow> vclock \<Rightarrow> due list" where
  "dues target c =
     map DueTimer (filter (\<lambda>t. tm_at t \<le> target) (vc_timers c))
     @ map DueTicker (filter (\<lambda>t. tk_isActive t \<and> tk_next t \<le> target) (vc_tickers c))"

definition earliestDue :: "instant \<Rightarrow> vclock \<Rightarrow> due option" where
  "earliestDue target c =
    (case sort_key due_at (dues target c) of [] \<Rightarrow> None | d # _ \<Rightarrow> Some d)"

partial_function (option) advance_loop :: "instant \<Rightarrow> vclock \<Rightarrow> vclock option" where
  "advance_loop target c =
    (case earliestDue target c of
       None \<Rightarrow> Some c
     | Some d \<Rightarrow> advance_loop target (due_fire d (c\<lparr>vc_now := due_at d\<rparr>)))"

definition vc_Advance :: "int \<Rightarrow> vclock \<Rightarrow> vclock option" where
  "vc_Advance d c =
    (let target = vc_now c + d
     in map_option (\<lambda>c. c\<lparr>vc_now := target\<rparr>) (advance_loop target c))"

section \<open>One notification\<close>

lemma earliestDue_None: "earliestDue target c = None \<longleftrightarrow> dues target c = []"
  unfolding earliestDue_def by (auto split: list.split dest: arg_cong [where f = set])

lemma earliestDue_Some:
  assumes "earliestDue target c = Some d"
  shows "d \<in> set (dues target c)" "e \<in> set (dues target c) \<Longrightarrow> due_at d \<le> due_at e"
proof -
  obtain ds where s: "sort_key due_at (dues target c) = d # ds"
    using assms by (auto simp: earliestDue_def split: list.splits)
  have set: "set (dues target c) = set (d # ds)" by (metis s set_sort)
  then show "d \<in> set (dues target c)" by simp
  have "sorted (map due_at (d # ds))" by (metis s sorted_sort_key)
  then show "due_at d \<le> due_at e" if "e \<in> set (dues target c)"
    using that set by auto
qed

text \<open>Each timer and ticker has a channel of its own, made before.\<close>

definition vc_wf :: "vclock \<Rightarrow> bool" where
  "vc_wf c \<longleftrightarrow> distinct (map tm_ch (vc_timers c) @ map tk_ch (vc_tickers c))
     \<and> list_all (\<lambda>ch. ch < vc_fresh c) (map tm_ch (vc_timers c) @ map tk_ch (vc_tickers c))"

definition intervals_positive :: "vclock \<Rightarrow> bool" where
  "intervals_positive c \<longleftrightarrow> list_all (\<lambda>t. tk_isActive t \<longrightarrow> 0 < tk_interval t) (vc_tickers c)"

lemma vc_wf_ops:
  "vc_wf (NewClock t)" "vc_wf c \<Longrightarrow> vc_wf (snd (vc_After d c))" "vc_wf c \<Longrightarrow> vc_wf (snd (vc_NewTicker d c))"
  "vc_wf c \<Longrightarrow> vc_wf (vc_Stop ch c)" "vc_wf c \<Longrightarrow> vc_wf (snd (vc_receive ch c))"
  by (auto simp: vc_wf_def NewClock_def vc_After_def vc_NewTicker_def vc_Stop_def vc_receive_def
      list_all_iff o_def if_distrib Let_def intro: less_SucI cong: if_cong)

text \<open>How many notifications are still to come.\<close>

definition ticker_todo :: "instant \<Rightarrow> ticker \<Rightarrow> nat" where
  "ticker_todo target t =
     (if tk_isActive t then nat ((target - tk_next t) div tk_interval t + 1) else 0)"

definition todo :: "instant \<Rightarrow> vclock \<Rightarrow> nat" where
  "todo target c = length (filter (\<lambda>t. tm_at t \<le> target) (vc_timers c))
     + sum_list (map (ticker_todo target) (vc_tickers c))"

text \<open>The ticker after all its notifications up to \<open>target\<close>, and a channel's content then.\<close>

definition advance_ticker :: "instant \<Rightarrow> ticker \<Rightarrow> ticker" where
  "advance_ticker target t =
    (if tk_isActive t \<and> tk_next t \<le> target
     then t\<lparr>tk_next := tk_next t + ((target - tk_next t) div tk_interval t + 1) * tk_interval t\<rparr> else t)"

definition chan_after :: "instant \<Rightarrow> vclock \<Rightarrow> nat \<Rightarrow> instant option" where
  "chan_after target c ch =
    (case vc_chans c ch of
       Some v \<Rightarrow> Some v
     | None \<Rightarrow> map_of (map (\<lambda>d. (due_ch d, due_at d)) (dues target c)) ch)"

lemma ticker_todo_step:
  assumes "tk_isActive t" and "tk_next t \<le> target" and "0 < tk_interval t"
  shows "ticker_todo target (t\<lparr>tk_next := tk_next t + tk_interval t\<rparr>) < ticker_todo target t"
    and "advance_ticker target (t\<lparr>tk_next := tk_next t + tk_interval t\<rparr>) = advance_ticker target t"
proof -
  let ?i = "tk_interval t" and ?x = "target - tk_next t"
  have div: "(?x - ?i) div ?i = ?x div ?i - 1"
    using div_add_self2 [of ?i "?x - ?i"] assms(3) by simp
  have pos: "0 \<le> ?x div ?i" using assms(2,3) by (simp add: pos_imp_zdiv_nonneg_iff)
  have eq: "target - (tk_next t + ?i) = ?x - ?i" by simp
  show "ticker_todo target (t\<lparr>tk_next := tk_next t + ?i\<rparr>) < ticker_todo target t"
    using assms(1) pos by (simp add: ticker_todo_def eq div)
  show "advance_ticker target (t\<lparr>tk_next := tk_next t + ?i\<rparr>) = advance_ticker target t"
  proof (cases "tk_next t + ?i \<le> target")
    case True
    have "tk_next t + ?i + ((?x - ?i) div ?i + 1) * ?i = tk_next t + (?x div ?i + 1) * ?i"
      unfolding div by (simp add: algebra_simps)
    with True show ?thesis using assms(1,2) by (simp add: advance_ticker_def eq del: div_add_self2)
  next
    case False
    then have "?x div ?i = 0" using assms(2,3) by (simp add: div_pos_pos_trivial)
    then show ?thesis using False assms(1,2) by (simp add: advance_ticker_def)
  qed
qed

lemma sum_list_map_less:
  assumes "\<And>x. x \<in> set xs \<Longrightarrow> f x \<le> (g x :: nat)" and "y \<in> set xs" and "f y < g y"
  shows "sum_list (map f xs) < sum_list (map g xs)"
  using assms
proof (induction xs)
  case (Cons a xs)
  have le: "sum_list (map f xs) \<le> sum_list (map g xs)"
    using Cons.prems(1) by (intro sum_list_mono) simp
  show ?case
  proof (cases "y = a")
    case True
    then show ?thesis using Cons.prems(3) le by simp
  next
    case False
    then have "sum_list (map f xs) < sum_list (map g xs)" using Cons by simp
    moreover have "f a \<le> g a" using Cons.prems(1) by simp
    ultimately show ?thesis by simp
  qed
qed simp

lemma filter_both_le: "length (filter P (filter Q xs)) \<le> length (filter P xs)"
  by (induction xs) auto

lemma filter_length_less: "x \<in> set xs \<Longrightarrow> P x \<Longrightarrow> \<not> Q x \<Longrightarrow> length (filter P (filter Q xs)) < length (filter P xs)"
proof (induction xs)
  case (Cons a xs)
  then show ?case using filter_both_le [of P Q xs] by (cases "x = a") auto
qed simp

text \<open>The content of a channel after the advance, by what is due.\<close>

lemma in_dues:
  "DueTimer t \<in> set (dues target c) \<longleftrightarrow> t \<in> set (vc_timers c) \<and> tm_at t \<le> target"
  "DueTicker k \<in> set (dues target c) \<longleftrightarrow> k \<in> set (vc_tickers c) \<and> tk_isActive k \<and> tk_next k \<le> target"
  by (auto simp: dues_def)

lemma vc_wf_inj:
  assumes "vc_wf c"
  shows "inj_on tm_ch (set (vc_timers c))" "inj_on tk_ch (set (vc_tickers c))"
  using assms by (simp_all add: vc_wf_def distinct_map)

lemmas same_timer = inj_onD [OF vc_wf_inj(1)] and same_ticker = inj_onD [OF vc_wf_inj(2)]

lemma distinct_map_filter_of: "distinct (map f xs) \<Longrightarrow> distinct (map f (filter P xs))"
  by (induction xs) auto

lemma dues_distinct: "vc_wf c \<Longrightarrow> distinct (map due_ch (dues target c))"
proof -
  assume "vc_wf c"
  then have d: "distinct (map tm_ch (vc_timers c))" "distinct (map tk_ch (vc_tickers c))"
    "tm_ch ` set (vc_timers c) \<inter> tk_ch ` set (vc_tickers c) = {}"
    by (simp_all add: vc_wf_def)
  have eq: "map due_ch (dues target c) = map tm_ch (filter (\<lambda>t. tm_at t \<le> target) (vc_timers c))
      @ map tk_ch (filter (\<lambda>t. tk_isActive t \<and> tk_next t \<le> target) (vc_tickers c))"
    by (simp add: dues_def due_ch_def)
  show ?thesis
    unfolding eq distinct_append using d(3) by (auto intro!: distinct_map_filter_of d(1,2))
qed

lemma due_time_Some:
  assumes "vc_wf c"
  shows "map_of (map (\<lambda>d. (due_ch d, due_at d)) (dues target c)) ch = Some v
     \<longleftrightarrow> (\<exists>d \<in> set (dues target c). due_ch d = ch \<and> due_at d = v)"
proof -
  have "distinct (map fst (map (\<lambda>d. (due_ch d, due_at d)) (dues target c)))"
    using dues_distinct [OF assms] by (simp add: o_def)
  then show ?thesis by (simp only: map_of_eq_Some_iff) force
qed

lemma option_eqI: "(\<And>v. a = Some v \<longleftrightarrow> b = Some v) \<Longrightarrow> a = b"
  by (cases a; cases b) auto

lemma chan_after_eqI:
  assumes "vc_wf c" and "vc_wf c'" and fired: "d \<in> set (dues target c)"
    and chans: "vc_chans c' = sendWithoutWaiting (due_ch d) (due_at d) (vc_chans c)"
    and dues: "\<And>e. due_ch e \<noteq> due_ch d \<Longrightarrow> e \<in> set (dues target c') \<longleftrightarrow> e \<in> set (dues target c)"
  shows "chan_after target c' = chan_after target c"
proof
  fix ch
  have "map_of (map (\<lambda>e. (due_ch e, due_at e)) (dues target c)) (due_ch d) = Some (due_at d)"
    using fired due_time_Some [OF assms(1)] by blast
  moreover have "map_of (map (\<lambda>e. (due_ch e, due_at e)) (dues target c')) ch
      = map_of (map (\<lambda>e. (due_ch e, due_at e)) (dues target c)) ch" if "ch \<noteq> due_ch d"
    by (rule option_eqI) (use that dues due_time_Some [OF assms(1)] due_time_Some [OF assms(2)] in auto)
  ultimately show "chan_after target c' ch = chan_after target c ch"
    by (cases "ch = due_ch d") (auto simp: chan_after_def chans sendWithoutWaiting_def split: option.split)
qed

text \<open>Firing a timer or a ticker that is due.\<close>

lemma fire_timer_step:
  assumes wf: "vc_wf c" and t: "t \<in> set (vc_timers c)" "tm_at t \<le> target"
  shows "vc_wf (fireTimer t (c\<lparr>vc_now := n\<rparr>))"
    and "todo target (fireTimer t (c\<lparr>vc_now := n\<rparr>)) < todo target c"
    and "filter (\<lambda>t. target < tm_at t) (vc_timers (fireTimer t (c\<lparr>vc_now := n\<rparr>)))
           = filter (\<lambda>t. target < tm_at t) (vc_timers c)"
    and "chan_after target (fireTimer t (c\<lparr>vc_now := tm_at t\<rparr>)) = chan_after target c"
proof -
  show wf': "vc_wf (fireTimer t (c\<lparr>vc_now := n\<rparr>))" for n
    using wf by (auto simp: vc_wf_def fireTimer_def list_all_iff intro!: distinct_map_filter_of)
  show "todo target (fireTimer t (c\<lparr>vc_now := n\<rparr>)) < todo target c"
    using filter_length_less [OF t(1), of "\<lambda>u. tm_at u \<le> target" "\<lambda>u. tm_ch u \<noteq> tm_ch t"] t(2)
    by (simp add: todo_def fireTimer_def)
  show "filter (\<lambda>t. target < tm_at t) (vc_timers (fireTimer t (c\<lparr>vc_now := n\<rparr>)))
           = filter (\<lambda>t. target < tm_at t) (vc_timers c)"
  proof -
    have "u \<in> set (vc_timers c) \<Longrightarrow> target < tm_at u \<Longrightarrow> tm_ch u \<noteq> tm_ch t" for u
      using same_timer [OF wf _ _ t(1), of u] t(2) by fastforce
    then show ?thesis by (auto simp: fireTimer_def intro!: filter_cong)
  qed
  show "chan_after target (fireTimer t (c\<lparr>vc_now := tm_at t\<rparr>)) = chan_after target c"
  proof (rule chan_after_eqI [OF wf wf'])
    show "DueTimer t \<in> set (dues target c)" using t by (simp add: in_dues)
    show "e \<in> set (dues target (fireTimer t (c\<lparr>vc_now := tm_at t\<rparr>))) \<longleftrightarrow> e \<in> set (dues target c)"
      if "due_ch e \<noteq> due_ch (DueTimer t)" for e
      using that by (cases e) (auto simp: in_dues fireTimer_def due_ch_def)
  qed (simp add: fireTimer_def due_ch_def due_at_def)
qed

lemma fire_ticker_step:
  assumes wf: "vc_wf c" and k: "k \<in> set (vc_tickers c)" "tk_isActive k" "tk_next k \<le> target"
    and pos: "0 < tk_interval k"
  shows "vc_wf (fireTicker k (c\<lparr>vc_now := n\<rparr>))"
    and "todo target (fireTicker k (c\<lparr>vc_now := n\<rparr>)) < todo target c"
    and "map (advance_ticker target) (vc_tickers (fireTicker k (c\<lparr>vc_now := n\<rparr>)))
           = map (advance_ticker target) (vc_tickers c)"
    and "chan_after target (fireTicker k (c\<lparr>vc_now := tk_next k\<rparr>)) = chan_after target c"
proof -
  let ?f = "\<lambda>u. if tk_ch u = tk_ch k then u\<lparr>tk_next := tk_next u + tk_interval u\<rparr> else u"
  note step = ticker_todo_step [OF k(2,3) pos]
  have same: "u = k" if "u \<in> set (vc_tickers c)" "tk_ch u = tk_ch k" for u
    using same_ticker [OF wf that(2) that(1) k(1)] .
  have tickers: "vc_tickers (fireTicker k (c\<lparr>vc_now := n\<rparr>)) = map ?f (vc_tickers c)" for n
    by (simp add: fireTicker_def)
  have ch: "tk_ch (?f u) = tk_ch u" for u by simp
  show wf': "vc_wf (fireTicker k (c\<lparr>vc_now := n\<rparr>))" for n
    using wf by (simp add: vc_wf_def fireTicker_def list_all_iff o_def ch cong: map_cong)
  have "sum_list (map (\<lambda>u. ticker_todo target (?f u)) (vc_tickers c)) < sum_list (map (ticker_todo target) (vc_tickers c))"
  proof (rule sum_list_map_less [OF _ k(1)])
    show "ticker_todo target (?f u) \<le> ticker_todo target u" if "u \<in> set (vc_tickers c)" for u
      using same [OF that] step(1) by (cases "tk_ch u = tk_ch k") simp_all
    show "ticker_todo target (?f k) < ticker_todo target k" using step(1) by simp
  qed
  then show "todo target (fireTicker k (c\<lparr>vc_now := n\<rparr>)) < todo target c"
    by (simp add: todo_def fireTicker_def o_def)
  show "map (advance_ticker target) (vc_tickers (fireTicker k (c\<lparr>vc_now := n\<rparr>)))
           = map (advance_ticker target) (vc_tickers c)"
    using same step(2) by (auto simp: tickers)
  show "chan_after target (fireTicker k (c\<lparr>vc_now := tk_next k\<rparr>)) = chan_after target c"
  proof (rule chan_after_eqI [OF wf wf'])
    show "DueTicker k \<in> set (dues target c)" using k by (simp add: in_dues)
    show "e \<in> set (dues target (fireTicker k (c\<lparr>vc_now := tk_next k\<rparr>))) \<longleftrightarrow> e \<in> set (dues target c)"
      if "due_ch e \<noteq> due_ch (DueTicker k)" for e
    proof (cases e)
      case (DueTimer u)
      then show ?thesis by (simp add: in_dues fireTicker_def)
    next
      case (DueTicker l)
      with that have "tk_ch l \<noteq> tk_ch k" by (simp add: due_ch_def)
      then have "l \<in> ?f ` set (vc_tickers c) \<longleftrightarrow> l \<in> set (vc_tickers c)" by (force split: if_splits)
      then show ?thesis by (simp add: DueTicker in_dues tickers)
    qed
  qed (simp add: fireTicker_def due_ch_def due_at_def)
qed

section \<open>The whole advance\<close>

text \<open>What one notification of the loop keeps, for the loop's target.\<close>

definition fire_keeps :: "instant \<Rightarrow> vclock \<Rightarrow> vclock \<Rightarrow> bool" where
  "fire_keeps target c c' \<longleftrightarrow> vc_wf c' \<and> intervals_positive c'
     \<and> filter (\<lambda>t. target < tm_at t) (vc_timers c') = filter (\<lambda>t. target < tm_at t) (vc_timers c)
     \<and> map (advance_ticker target) (vc_tickers c') = map (advance_ticker target) (vc_tickers c)
     \<and> chan_after target c' = chan_after target c \<and> vc_fresh c' = vc_fresh c"

lemma fire_step:
  assumes wf: "vc_wf c" and pos: "intervals_positive c" and d: "d \<in> set (dues target c)"
    and c': "c' = due_fire d (c\<lparr>vc_now := due_at d\<rparr>)"
  shows "fire_keeps target c c' \<and> todo target c' < todo target c"
proof (cases d)
  case (DueTimer t)
  with d have t: "t \<in> set (vc_timers c)" "tm_at t \<le> target" by (simp_all add: in_dues)
  have "c' = fireTimer t (c\<lparr>vc_now := tm_at t\<rparr>)" by (simp add: c' DueTimer due_fire_def due_at_def)
  then show ?thesis
    using fire_timer_step [OF wf t] pos
    by (simp add: fire_keeps_def) (simp add: fireTimer_def intervals_positive_def)
next
  case (DueTicker k)
  with d have k: "k \<in> set (vc_tickers c)" "tk_isActive k" "tk_next k \<le> target" by (simp_all add: in_dues)
  then have k': "0 < tk_interval k" using pos by (auto simp: intervals_positive_def list_all_iff)
  have c'': "c' = fireTicker k (c\<lparr>vc_now := tk_next k\<rparr>)" by (simp add: c' DueTicker due_fire_def due_at_def)
  then have "vc_timers c' = vc_timers c" "vc_fresh c' = vc_fresh c" "intervals_positive c'"
    using pos by (auto simp: fireTicker_def intervals_positive_def list_all_iff)
  then show ?thesis
    using fire_ticker_step [OF wf k k'] c'' by (simp add: fire_keeps_def)
qed

text \<open>When nothing is due any more, the clock is as the specification says.\<close>

lemma nothing_due:
  assumes "dues target c = []"
  shows "filter (\<lambda>t. target < tm_at t) (vc_timers c) = vc_timers c"
    and "map (advance_ticker target) (vc_tickers c) = vc_tickers c" and "chan_after target c = vc_chans c"
proof -
  have none: "\<not> tm_at t \<le> target" if "t \<in> set (vc_timers c)" for t
    using assms that in_dues(1) [of t target c] by simp
  then show "filter (\<lambda>t. target < tm_at t) (vc_timers c) = vc_timers c"
    by (auto simp: filter_id_conv not_le)
  have "advance_ticker target k = k" if "k \<in> set (vc_tickers c)" for k
    using assms that in_dues(2) [of k target c] by (auto simp: advance_ticker_def)
  then show "map (advance_ticker target) (vc_tickers c) = vc_tickers c" by (simp add: map_idI)
  show "chan_after target c = vc_chans c"
    by (rule ext) (simp add: chan_after_def assms split: option.split)
qed

lemma loop_result:
  "vc_wf c \<Longrightarrow> intervals_positive c \<Longrightarrow>
     \<exists>c'. advance_loop target c = Some c' \<and> fire_keeps target c c' \<and> dues target c' = []"
proof (induction "todo target c" arbitrary: c rule: less_induct)
  case less
  show ?case
  proof (cases "earliestDue target c")
    case None
    then show ?thesis
      using less.prems earliestDue_None [of target c]
      by (intro exI [of _ c]) (simp add: advance_loop.simps [of target c] fire_keeps_def)
  next
    case (Some d)
    let ?c = "due_fire d (c\<lparr>vc_now := due_at d\<rparr>)"
    have s: "fire_keeps target c ?c" "todo target ?c < todo target c"
      using fire_step [OF less.prems earliestDue_Some(1) [OF Some] refl] by simp_all
    obtain c' where r: "advance_loop target ?c = Some c'" "fire_keeps target ?c c'" "dues target c' = []"
      using less.hyps [OF s(2)] s(1) by (auto simp: fire_keeps_def)
    then have "advance_loop target c = Some c'"
      by (simp add: advance_loop.simps [of target c] Some)
    with r s(1) show ?thesis by (simp add: fire_keeps_def)
  qed
qed

text \<open>A ticker that is due after every notification to it keeps the loop from ending.\<close>

definition always_due :: "instant \<Rightarrow> vclock \<Rightarrow> bool" where
  "always_due target c \<longleftrightarrow>
     (\<exists>t \<in> set (vc_tickers c). tk_isActive t \<and> tk_interval t \<le> 0 \<and> tk_next t \<le> target)"

lemma due_fire_always: "always_due target c \<Longrightarrow> always_due target (due_fire d (c\<lparr>vc_now := n\<rparr>))"
proof (cases d)
  case (DueTicker k)
  assume "always_due target c"
  then obtain t where "t \<in> set (vc_tickers c)" "tk_isActive t" "tk_interval t \<le> 0" "tk_next t \<le> target"
    by (auto simp: always_due_def)
  moreover define t' where "t' = (if tk_ch t = tk_ch k then t\<lparr>tk_next := tk_next t + tk_interval t\<rparr> else t)"
  ultimately have "t' \<in> set (vc_tickers (due_fire d (c\<lparr>vc_now := n\<rparr>)))"
    "tk_isActive t'" "tk_interval t' \<le> 0" "tk_next t' \<le> target"
    by (auto simp: DueTicker due_fire_def fireTicker_def)
  then show ?thesis by (auto simp: always_due_def)
qed (auto simp: always_due_def due_fire_def fireTimer_def)

lemma returned_not_always_due:
  assumes "advance_loop target c = Some c'"
  shows "\<not> always_due target c"
proof (rule advance_loop.raw_induct [OF _ assms, of "\<lambda>target c _. \<not> always_due target c"])
  fix loop target c r
  assume IH: "\<And>target c r. loop target c = Some r \<Longrightarrow> \<not> always_due target c"
    and run: "(case earliestDue target c of None \<Rightarrow> Some c
      | Some d \<Rightarrow> loop target (due_fire d (c\<lparr>vc_now := due_at d\<rparr>))) = Some r"
  show "\<not> always_due target c"
  proof (cases "earliestDue target c")
    case None
    then have "dues target c = []" by (simp add: earliestDue_None)
    then have "\<not> (tk_isActive k \<and> tk_next k \<le> target)" if "k \<in> set (vc_tickers c)" for k
      using that in_dues(2) [of k target c] by simp
    then show ?thesis by (auto simp: always_due_def)
  next
    case (Some d)
    then have "\<not> always_due target (due_fire d (c\<lparr>vc_now := due_at d\<rparr>))"
      using IH run by simp
    then show ?thesis using due_fire_always by blast
  qed
qed

section \<open>Properties\<close>

text \<open>
  C39. \<open>Advance\<close> returns when every active ticker has a positive interval, and then exactly the
  notifications that fell due were made: the due timers are gone, each ticker is set to its first
  time after the target, a channel that was empty holds the earliest notification made to it, and a
  channel whose notification nobody had read keeps that one.
\<close>

theorem clock_advance_returns:
  assumes "vc_wf c" and "intervals_positive c"
  shows "vc_Advance d c = Some \<lparr>vc_now = vc_now c + d,
     vc_timers = filter (\<lambda>t. vc_now c + d < tm_at t) (vc_timers c),
     vc_tickers = map (advance_ticker (vc_now c + d)) (vc_tickers c),
     vc_chans = chan_after (vc_now c + d) c, vc_fresh = vc_fresh c\<rparr>"
proof -
  let ?t = "vc_now c + d"
  obtain c' where r: "advance_loop ?t c = Some c'" "fire_keeps ?t c c'" "dues ?t c' = []"
    using loop_result [OF assms] by blast
  then show ?thesis
    using nothing_due [OF r(3)] by (cases c') (simp add: vc_Advance_def fire_keeps_def)
qed

lemma clock_advance_returns_witness:
  "\<exists>c'. vc_Advance 7 (snd (vc_NewTicker 2 (snd (vc_After 3 (NewClock 0))))) = Some c'
     \<and> vc_timers c' = [] \<and> map tk_next (vc_tickers c') = [8] \<and> vc_chans c' 0 = Some 3 \<and> vc_chans c' 1 = Some 2"
proof -
  let ?c = "snd (vc_NewTicker 2 (snd (vc_After 3 (NewClock 0))))"
  have "vc_wf ?c" by (intro vc_wf_ops)
  moreover have "intervals_positive ?c"
    by (simp add: intervals_positive_def vc_NewTicker_def vc_After_def NewClock_def)
  ultimately show ?thesis
    by (subst clock_advance_returns)
      (simp_all add: vc_NewTicker_def vc_After_def NewClock_def advance_ticker_def chan_after_def
        dues_def due_ch_def due_at_def)
qed

text \<open>An advance stops no ticker, and leaves a tick to be read when an active one fell due.\<close>

lemma advance_active: "countActiveTickers (c\<lparr>vc_tickers := map (advance_ticker target) ts\<rparr>)
    = countActiveTickers (c\<lparr>vc_tickers := ts\<rparr>)"
  by (induction ts) (auto simp: countActiveTickers_def advance_ticker_def)

lemma advance_unread:
  assumes "vc_wf c" and "t \<in> set (vc_tickers c)" "tk_isActive t" "tk_next t \<le> target"
  shows "hasUnreadTick (c\<lparr>vc_tickers := map (advance_ticker target) (vc_tickers c), vc_chans := chan_after target c\<rparr>)"
proof -
  have "DueTicker t \<in> set (dues target c)" using assms by (simp add: in_dues)
  then have "map_of (map (\<lambda>d. (due_ch d, due_at d)) (dues target c)) (tk_ch t) = Some (tk_next t)"
    using due_time_Some [OF assms(1)] by (force simp: due_ch_def due_at_def)
  then have "chan_after target c (tk_ch t) \<noteq> None" by (simp add: chan_after_def split: option.split)
  moreover have "tk_isActive (advance_ticker target t) \<and> tk_ch (advance_ticker target t) = tk_ch t"
    using assms(3) by (simp add: advance_ticker_def)
  ultimately show ?thesis using assms(2) by (auto simp: hasUnreadTick_def list_ex_iff)
qed

text \<open>
  \<open>Advance\<close> does not return when an active ticker that is due has an interval that is not
  positive: it notifies that ticker for ever, since its next time never passes the target.
\<close>

lemma clock_advance_diverges:
  assumes "t \<in> set (vc_tickers c)" and "tk_isActive t" and "tk_interval t \<le> 0"
    and "tk_next t \<le> vc_now c + d"
  shows "vc_Advance d c = None"
proof (cases "advance_loop (vc_now c + d) c")
  case None
  then show ?thesis by (simp add: vc_Advance_def)
next
  case (Some c')
  have "\<not> always_due (vc_now c + d) c" by (rule returned_not_always_due [OF Some])
  with assms show ?thesis by (auto simp: always_due_def)
qed

lemma clock_advance_diverges_witness:
  "vc_Advance 1 (snd (vc_NewTicker 0 (NewClock 0))) = None"
  by (rule clock_advance_diverges
      [of "\<lparr>tk_interval = 0, tk_next = 0, tk_ch = 0, tk_isActive = True\<rparr>"])
    (simp_all add: vc_NewTicker_def NewClock_def)

end
