(* ===== verification/TestPorts.thy ===== *)
theory TestPorts
  imports MatcherQueue Abandon
begin

text \<open>
  The doubles of the ports in the tests of the use cases: the queue, the publisher and the identifiers
  of internal/usecase/matcher/matchertest, and the queue of internal/usecase/abandon/abandontest. They
  answer by prepared steps and record the requests. A step runs on the rest \<open>'e\<close> of the test's world
  (gates, the shutdown); a step that waits for a gate is a step with the gate's opening as its effect
  there. Each method locks its mutex around its changes, so it is one step here, except for \<open>inFlight\<close>,
  which is counted around the prepared step.
\<close>

section \<open>The doubles\<close>

record 'e PopStep =
  isPair :: bool
  pop_run :: "'e \<Rightarrow> (go_error + QueueEntry list \<times> string) \<times> 'e"

type_synonym 'e ReenqueueStep = "'e \<Rightarrow> (go_error + bool) \<times> 'e"

type_synonym 'e PublishStep = "go_ctx \<Rightarrow> 'e \<Rightarrow> go_error option \<times> 'e"

record ReenqueueRequest =
  rr_Entries :: "QueueEntry list"
  rr_GatewayInstanceID :: string

record Publication =
  pn_EventType :: string
  pn_Payload :: string

record 'e mt_Queue =
  mq_pops :: "'e PopStep list"
  mq_popCalls :: nat
  mq_reenqueues :: "'e ReenqueueStep list"
  mq_reenqueueRequests :: "ReenqueueRequest list"
  mq_inFlight :: int

record 'e mt_Publisher =
  mp_steps :: "'e PublishStep list"
  mp_publications :: "Publication list"
  mp_inFlight :: int

record 'e doubles =
  d_queue :: "'e mt_Queue"
  d_publisher :: "'e mt_Publisher"
  d_env :: 'e

definition NewQueue :: "'e mt_Queue" where
  "NewQueue = \<lparr>mq_pops = [], mq_popCalls = 0, mq_reenqueues = [], mq_reenqueueRequests = [], mq_inFlight = 0\<rparr>"

definition NewPublisher :: "'e mt_Publisher" where
  "NewPublisher = \<lparr>mp_steps = [], mp_publications = [], mp_inFlight = 0\<rparr>"

section \<open>Prepared steps\<close>

definition PairPopped :: "string \<Rightarrow> QueueEntry list \<Rightarrow> 'e PopStep" where
  "PairPopped gatewayInstanceID es = \<lparr>isPair = True, pop_run = (\<lambda>e. (Inr (es, gatewayInstanceID), e))\<rparr>"

definition NothingPopped :: "'e PopStep" where
  "NothingPopped = \<lparr>isPair = False, pop_run = (\<lambda>e. (Inr ([], ''''), e))\<rparr>"

definition PopFails :: "go_error \<Rightarrow> 'e PopStep" where
  "PopFails err = \<lparr>isPair = False, pop_run = (\<lambda>e. (Inl err, e))\<rparr>"

text \<open>\<open>wait\<close> is what happens until the gate is open.\<close>

definition PopBlockedUntil :: "('e \<Rightarrow> 'e) \<Rightarrow> 'e PopStep" where
  "PopBlockedUntil wait = \<lparr>isPair = False, pop_run = (\<lambda>e. (Inr ([], ''''), wait e))\<rparr>"

definition ReenqueueSucceeds :: "'e ReenqueueStep" where
  "ReenqueueSucceeds e = (Inr True, e)"

definition ReenqueueSkipped :: "'e ReenqueueStep" where
  "ReenqueueSkipped e = (Inr False, e)"

definition ReenqueueFails :: "go_error \<Rightarrow> 'e ReenqueueStep" where
  "ReenqueueFails err e = (Inl err, e)"

definition ReenqueueFailsAfterShutdown :: "('e \<Rightarrow> 'e) \<Rightarrow> go_error \<Rightarrow> 'e ReenqueueStep" where
  "ReenqueueFailsAfterShutdown shutdown err e = (Inl err, shutdown e)"

definition PublishSucceeds :: "'e PublishStep" where
  "PublishSucceeds ctx e = (None, e)"

definition PublishFails :: "go_error \<Rightarrow> 'e PublishStep" where
  "PublishFails err ctx e = (Some err, e)"

definition PublishBlockedUntil :: "('e \<Rightarrow> 'e) \<Rightarrow> 'e PublishStep" where
  "PublishBlockedUntil wait ctx e = (None, wait e)"

text \<open>\<open>ctx_err\<close> is \<open>ctx.Err()\<close>, \<open>wait_done\<close> what happens until the context is done.\<close>

definition PublishInterruptedByShutdown ::
  "(go_ctx \<Rightarrow> 'e \<Rightarrow> go_error option) \<Rightarrow> (go_ctx \<Rightarrow> 'e \<Rightarrow> 'e) \<Rightarrow> 'e PublishStep" where
  "PublishInterruptedByShutdown ctx_err wait_done ctx e =
    (let e = wait_done ctx e in (ctx_err ctx e, e))"

definition AddPops :: "'e PopStep list \<Rightarrow> 'e mt_Queue \<Rightarrow> 'e mt_Queue" where
  "AddPops steps q = q\<lparr>mq_pops := mq_pops q @ steps\<rparr>"

definition AddReenqueues :: "'e ReenqueueStep list \<Rightarrow> 'e mt_Queue \<Rightarrow> 'e mt_Queue" where
  "AddReenqueues steps q = q\<lparr>mq_reenqueues := mq_reenqueues q @ steps\<rparr>"

definition AddSteps :: "'e PublishStep list \<Rightarrow> 'e mt_Publisher \<Rightarrow> 'e mt_Publisher" where
  "AddSteps steps p = p\<lparr>mp_steps := mp_steps p @ steps\<rparr>"

section \<open>The calls of the matcher\<close>

definition mq_finishCall :: "'e mt_Queue \<Rightarrow> 'e mt_Queue" where
  "mq_finishCall q = q\<lparr>mq_inFlight := mq_inFlight q - 1\<rparr>"

definition mt_PopPair :: "go_ctx \<Rightarrow> 'e doubles \<Rightarrow> (go_error + QueueEntry list \<times> string) \<times> 'e doubles" where
  "mt_PopPair ctx w =
    (let q = d_queue w;
         q = q\<lparr>mq_popCalls := mq_popCalls q + 1, mq_inFlight := mq_inFlight q + 1\<rparr>;
         (step, q) = (case mq_pops q of
             [] \<Rightarrow> (NothingPopped, q)
           | s # ss \<Rightarrow> (s, q\<lparr>mq_pops := ss\<rparr>));
         (r, e) = pop_run step (d_env w)
     in (r, w\<lparr>d_queue := mq_finishCall q, d_env := e\<rparr>))"

definition mt_Reenqueue ::
  "(go_ctx \<Rightarrow> 'e \<Rightarrow> go_error option) \<Rightarrow> go_ctx \<Rightarrow> QueueEntry list \<Rightarrow> string \<Rightarrow> 'e doubles
     \<Rightarrow> (go_error + bool) \<times> 'e doubles" where
  "mt_Reenqueue ctx_err ctx es gatewayInstanceID w =
    (let q = d_queue w;
         q = q\<lparr>mq_inFlight := mq_inFlight q + 1,
               mq_reenqueueRequests := mq_reenqueueRequests q @
                 [\<lparr>rr_Entries = es, rr_GatewayInstanceID = gatewayInstanceID\<rparr>]\<rparr>;
         (step, q) = (case mq_reenqueues q of
             [] \<Rightarrow> (ReenqueueSucceeds, q)
           | s # ss \<Rightarrow> (s, q\<lparr>mq_reenqueues := ss\<rparr>));
         interruption = ctx_err ctx (d_env w);
         (r, e) = step (d_env w);
         w = w\<lparr>d_queue := mq_finishCall q, d_env := e\<rparr>
     in case interruption of Some err \<Rightarrow> (Inl err, w) | None \<Rightarrow> (r, w))"

definition mp_finishCall :: "'e mt_Publisher \<Rightarrow> 'e mt_Publisher" where
  "mp_finishCall p = p\<lparr>mp_inFlight := mp_inFlight p - 1\<rparr>"

definition mt_Publish :: "go_ctx \<Rightarrow> string \<Rightarrow> string \<Rightarrow> 'e doubles \<Rightarrow> go_error option \<times> 'e doubles" where
  "mt_Publish ctx eventType payload w =
    (let p = d_publisher w;
         p = p\<lparr>mp_inFlight := mp_inFlight p + 1,
               mp_publications := mp_publications p @ [\<lparr>pn_EventType = eventType, pn_Payload = payload\<rparr>]\<rparr>;
         (step, p) = (case mp_steps p of
             [] \<Rightarrow> (PublishSucceeds, p)
           | s # ss \<Rightarrow> (s, p\<lparr>mp_steps := ss\<rparr>));
         (r, e) = step ctx (d_env w)
     in (r, w\<lparr>d_publisher := mp_finishCall p, d_env := e\<rparr>))"

text \<open>\<open>FixedMatchIDGenerator\<close>.\<close>

definition NewFixedMatchIDGenerator :: "string \<Rightarrow> 'w MatchIDGenerator" where
  "NewFixedMatchIDGenerator i = \<lparr>NewMatchID = (\<lambda>w. (i, w))\<rparr>"

text \<open>The records.\<close>

definition PopCalls :: "'e mt_Queue \<Rightarrow> nat" where
  "PopCalls q = mq_popCalls q"

definition RemainingPairs :: "'e mt_Queue \<Rightarrow> nat" where
  "RemainingPairs q = length (filter isPair (mq_pops q))"

definition ReenqueueRequests :: "'e mt_Queue \<Rightarrow> ReenqueueRequest list" where
  "ReenqueueRequests q = mq_reenqueueRequests q"

definition CallCount :: "'e mt_Queue \<Rightarrow> nat" where
  "CallCount q = mq_popCalls q + length (mq_reenqueueRequests q)"

definition mq_HasCallsInFlight :: "'e mt_Queue \<Rightarrow> bool" where
  "mq_HasCallsInFlight q \<longleftrightarrow> 0 < mq_inFlight q"

definition Publications :: "'e mt_Publisher \<Rightarrow> Publication list" where
  "Publications p = mp_publications p"

definition mp_HasCallsInFlight :: "'e mt_Publisher \<Rightarrow> bool" where
  "mp_HasCallsInFlight p \<longleftrightarrow> 0 < mp_inFlight p"

section \<open>A matcher on the doubles\<close>

text \<open>
  \<open>embedded\<close> is the nil \<open>port.Queue\<close> that the struct embeds; the matcher calls none of its methods.
  The clock is any clock of the rest of the world.
\<close>

definition mt_as_queue ::
  "'e doubles Queue \<Rightarrow> (go_ctx \<Rightarrow> 'e \<Rightarrow> go_error option) \<Rightarrow> 'e doubles Queue" where
  "mt_as_queue embedded ctx_err = embedded\<lparr>PopPair := mt_PopPair, Reenqueue := mt_Reenqueue ctx_err\<rparr>"

definition mt_as_publisher :: "'e doubles RawEventPublisher" where
  "mt_as_publisher = \<lparr>Publish = mt_Publish\<rparr>"

definition on_env :: "('e \<Rightarrow> 'a \<times> 'e) \<Rightarrow> 'e doubles \<Rightarrow> 'a \<times> 'e doubles" where
  "on_env f w = (case f (d_env w) of (a, e) \<Rightarrow> (a, w\<lparr>d_env := e\<rparr>))"

definition clock_on_env :: "'e Clock \<Rightarrow> 'e doubles Clock" where
  "clock_on_env k = \<lparr>Now = on_env (Now k), WaitOrDone = (\<lambda>c d. on_env (WaitOrDone k c d)),
     CtxErr = (\<lambda>c. on_env (CtxErr k c))\<rparr>"

definition uses_doubles ::
  "'e doubles Queue \<Rightarrow> (go_ctx \<Rightarrow> 'e \<Rightarrow> go_error option) \<Rightarrow> 'e Clock \<Rightarrow> string \<Rightarrow> 'e doubles Matcher \<Rightarrow> bool" where
  "uses_doubles embedded ctx_err k i m \<longleftrightarrow> queue m = mt_as_queue embedded ctx_err \<and> publisher m = mt_as_publisher
     \<and> clock m = clock_on_env k \<and> matchIDs m = NewFixedMatchIDGenerator i"

text \<open>What the doubles have recorded since \<open>w0\<close> is what the notes \<open>t\<close> say.\<close>

definition recorded_since :: "'e doubles \<Rightarrow> 'e doubles \<Rightarrow> call list \<Rightarrow> bool" where
  "recorded_since w0 w t \<longleftrightarrow>
     PopCalls (d_queue w) = PopCalls (d_queue w0) + length (pops t)
     \<and> ReenqueueRequests (d_queue w) = ReenqueueRequests (d_queue w0)
         @ map (\<lambda>(c, es, g, r). \<lparr>rr_Entries = es, rr_GatewayInstanceID = g\<rparr>) (attempts t)
     \<and> Publications (d_publisher w) = Publications (d_publisher w0)
         @ map (\<lambda>(c, ty, p, r). \<lparr>pn_EventType = ty, pn_Payload = p\<rparr>) (publications t)
     \<and> mq_pops (d_queue w) = drop (length (pops t)) (mq_pops (d_queue w0))
     \<and> mq_reenqueues (d_queue w) = drop (length (attempts t)) (mq_reenqueues (d_queue w0))
     \<and> mp_steps (d_publisher w) = drop (length (publications t)) (mp_steps (d_publisher w0))
     \<and> mq_inFlight (d_queue w) = mq_inFlight (d_queue w0)
     \<and> mp_inFlight (d_publisher w) = mp_inFlight (d_publisher w0)"

text \<open>What a call changes in the doubles; the step that is used up is the first, if there is one.\<close>

lemma mt_PopPair_effect:
  "d_queue (snd (mt_PopPair c w)) =
     (d_queue w)\<lparr>mq_popCalls := mq_popCalls (d_queue w) + 1, mq_pops := tl (mq_pops (d_queue w))\<rparr>"
  "d_publisher (snd (mt_PopPair c w)) = d_publisher w"
  by (cases "mq_pops (d_queue w)"; cases "d_queue w"; simp add: mt_PopPair_def mq_finishCall_def case_prod_beta)+

lemma mt_Reenqueue_effect:
  "d_queue (snd (mt_Reenqueue ce c es g w)) =
     (d_queue w)\<lparr>mq_reenqueueRequests := mq_reenqueueRequests (d_queue w) @
         [\<lparr>rr_Entries = es, rr_GatewayInstanceID = g\<rparr>], mq_reenqueues := tl (mq_reenqueues (d_queue w))\<rparr>"
  "d_publisher (snd (mt_Reenqueue ce c es g w)) = d_publisher w"
  by (cases "mq_reenqueues (d_queue w)"; cases "d_queue w";
      simp add: mt_Reenqueue_def mq_finishCall_def case_prod_beta Let_def split: option.split)+

lemma mt_Publish_effect:
  "d_publisher (snd (mt_Publish c ty p w)) =
     (d_publisher w)\<lparr>mp_publications := mp_publications (d_publisher w) @
         [\<lparr>pn_EventType = ty, pn_Payload = p\<rparr>], mp_steps := tl (mp_steps (d_publisher w))\<rparr>"
  "d_queue (snd (mt_Publish c ty p w)) = d_queue w"
  by (cases "mp_steps (d_publisher w)"; cases "d_publisher w";
      simp add: mt_Publish_def mp_finishCall_def case_prod_beta)+

lemma notes_snoc:
  "pops (t @ [x]) = pops t @ (case x of CPop c r \<Rightarrow> [(c, r)] | _ \<Rightarrow> [])"
  "attempts (t @ [x]) = attempts t @ (case x of CReenqueue c es g r \<Rightarrow> [(c, es, g, r)] | _ \<Rightarrow> [])"
  "publications (t @ [x]) = publications t @ (case x of CPublish c ty p r \<Rightarrow> [(c, ty, p, r)] | _ \<Rightarrow> [])"
  by (simp_all add: note_defs)

lemmas record_simps = recorded_since_def notes_snoc PopCalls_def ReenqueueRequests_def Publications_def
  mt_PopPair_effect mt_Reenqueue_effect mt_Publish_effect drop_Suc tl_drop

lemma pop_records:
  "recorded_since w0 w t \<Longrightarrow> recorded_since w0 (snd (mt_PopPair c w)) (t @ [CPop c (fst (mt_PopPair c w))])"
  by (simp add: record_simps)

lemma reenqueue_records:
  "recorded_since w0 w t \<Longrightarrow> recorded_since w0 (snd (mt_Reenqueue ce c es g w))
     (t @ [CReenqueue c es g (fst (mt_Reenqueue ce c es g w))])"
  by (simp add: record_simps)

lemma publish_records:
  "recorded_since w0 w t \<Longrightarrow> recorded_since w0 (snd (mt_Publish c ty p w))
     (t @ [CPublish c ty p (fst (mt_Publish c ty p w))])"
  by (simp add: record_simps)

lemma env_records:
  "recorded_since w0 w t \<Longrightarrow> recorded_since w0 (snd (on_env f w)) (t @ [CNow n])"
  "recorded_since w0 w t \<Longrightarrow> recorded_since w0 (snd (on_env f w)) (t @ [CCtxErr c b])"
  "recorded_since w0 w t \<Longrightarrow> recorded_since w0 (snd (on_env f w)) (t @ [CWait c d b])"
  "recorded_since w0 w t \<Longrightarrow> recorded_since w0 w (t @ [CMatchID i])"
  by (simp_all add: on_env_def record_simps split: prod.split)

text \<open>
  What the doubles of the matcher's tests record is what the matcher did: after a tick, the counted
  pops, the recorded write-backs and the recorded publications are those of the tick, in order and with
  their arguments; one prepared step was used per call, the rest is left, and no call is in flight.
\<close>

lemma doubles_record_calls:
  assumes "uses_doubles embedded ctx_err k i m"
  shows "recorded_since w (snd (snd (tick m c w))) (tick_notes m c w)"
proof -
  let ?P = "\<lambda>(w1, t). recorded_since w w1 t"
  obtain m' w' where run: "tick (recording m) c (w, []) = (fst (tick m c w), m', (w', tick_notes m c w))"
    by (rule tick_recorded)
  then have w': "w' = snd (snd (tick m c w))" using tick_recording_run(3) [of m c w "[]"] by simp
  note ports = assms [unfolded uses_doubles_def mt_as_queue_def mt_as_publisher_def clock_on_env_def
      NewFixedMatchIDGenerator_def]
  have env: "env_keeps ?P (recording m)"
    using ports by (auto simp: env_keeps_def Let_def case_prod_beta env_records publish_records)
  have pop: "?P (snd (PopPair (queue (recording m)) c v))" if "?P v" for v
    using ports that by (cases v) (simp add: case_prod_beta pop_records)
  have re: "?P (snd (Reenqueue (queue (recording m)) c es g v))" if "?P v" for v c es g
    using ports that by (cases v) (simp add: case_prod_beta reenqueue_records)
  have start: "?P (w, [])" by (simp add: record_simps note_defs)
  have "?P (snd (snd (tick (recording m) c (w, [])))) \<or> ?P (snd (snd (tick (recording m) c (w, []))))"
    by (rule tick_keeps [OF env env pop _ re start, where L = "\<lambda>es g. True"]) simp_all
  then show ?thesis using run w' by simp
qed

definition example_doubles :: "unit doubles" where
  "example_doubles = \<lparr>d_queue = AddPops [PairPopped ''g1'' two_players, NothingPopped] NewQueue,
     d_publisher = AddSteps [PublishFails (ErrOther ''down'')] NewPublisher, d_env = ()\<rparr>"

definition example_test_matcher :: "unit doubles Matcher" where
  "example_test_matcher =
    \<lparr>queue = mt_as_queue \<lparr>Enqueue = (\<lambda>c p d n l g w. (Inr 0, w)), Cancel = (\<lambda>c p w. (Inr False, w)),
       Size = (\<lambda>c w. (Inr 0, w)), PopPair = mt_PopPair, Reenqueue = mt_Reenqueue (\<lambda>c e. None)\<rparr> (\<lambda>c e. None),
     publisher = mt_as_publisher,
     clock = clock_on_env \<lparr>Now = (\<lambda>w. (0, w)), WaitOrDone = (\<lambda>c d w. (False, w)), CtxErr = (\<lambda>c w. (False, w))\<rparr>,
     matchIDs = NewFixedMatchIDGenerator ''m1'',
     interval = second, circuit = newCircuitBreaker 3 second, drainTimeout = second\<rparr>"

lemma doubles_record_calls_witness:
  "ReenqueueRequests (d_queue (snd (snd (tick example_test_matcher SignalCtx example_doubles)))) =
     [\<lparr>rr_Entries = two_players, rr_GatewayInstanceID = ''g1''\<rparr>]
   \<and> RemainingPairs (d_queue (snd (snd (tick example_test_matcher SignalCtx example_doubles)))) = 0"
proof -
  have "uses_doubles (queue example_test_matcher) (\<lambda>c e. None)
      \<lparr>Now = (\<lambda>w. (0, w)), WaitOrDone = (\<lambda>c d w. (False, w)), CtxErr = (\<lambda>c w. (False, w))\<rparr> ''m1'' example_test_matcher"
    by (simp add: uses_doubles_def example_test_matcher_def mt_as_queue_def)
  note claim = doubles_record_calls [OF this, of example_doubles SignalCtx]
  have noted: "attempts (tick_notes example_test_matcher SignalCtx example_doubles) = [(SignalCtx, two_players, ''g1'', Inr True)]"
    "pops (tick_notes example_test_matcher SignalCtx example_doubles) = [(SignalCtx, Inr (two_players, ''g1''))]"
    by (simp_all add: example_simps example_test_matcher_def mt_as_queue_def mt_as_publisher_def clock_on_env_def
        on_env_def NewFixedMatchIDGenerator_def example_doubles_def AddPops_def AddSteps_def NewQueue_def NewPublisher_def
        PairPopped_def PublishFails_def ReenqueueSucceeds_def mt_PopPair_def mt_Publish_def mt_Reenqueue_def
        mq_finishCall_def mp_finishCall_def)
  then show ?thesis
    using claim by (simp add: recorded_since_def example_doubles_def AddPops_def NewQueue_def NothingPopped_def
        PairPopped_def ReenqueueRequests_def RemainingPairs_def)
qed

section \<open>The queue of the abandonment's tests\<close>

type_synonym CancelStep = "go_error + bool"

record ab_test_Queue =
  aq_steps :: "string \<Rightarrow> CancelStep list"
  aq_requests :: "string list"

definition ab_NewQueue :: ab_test_Queue where
  "ab_NewQueue = \<lparr>aq_steps = (\<lambda>p. []), aq_requests = []\<rparr>"

definition PlayerWaiting :: CancelStep where "PlayerWaiting = Inr True"
definition PlayerNotWaiting :: CancelStep where "PlayerNotWaiting = Inr False"
definition CancelFails :: "go_error \<Rightarrow> CancelStep" where "CancelFails err = Inl err"

definition AddCancels :: "string \<Rightarrow> CancelStep list \<Rightarrow> ab_test_Queue \<Rightarrow> ab_test_Queue" where
  "AddCancels p steps q = q\<lparr>aq_steps := (aq_steps q)(p := aq_steps q p @ steps)\<rparr>"

definition ab_Cancel :: "go_ctx \<Rightarrow> string \<Rightarrow> ab_test_Queue \<Rightarrow> (go_error + bool) \<times> ab_test_Queue" where
  "ab_Cancel ctx p q =
    (let q = q\<lparr>aq_requests := aq_requests q @ [p]\<rparr>
     in case aq_steps q p of
          [] \<Rightarrow> (PlayerNotWaiting, q)
        | s # ss \<Rightarrow> (s, q\<lparr>aq_steps := (aq_steps q)(p := ss)\<rparr>))"

definition CancelRequests :: "ab_test_Queue \<Rightarrow> string list" where
  "CancelRequests q = aq_requests q"

definition ab_as_queue :: "ab_test_Queue Queue \<Rightarrow> ab_test_Queue Queue" where
  "ab_as_queue embedded = embedded\<lparr>Cancel := ab_Cancel\<rparr>"

text \<open>\<open>Abandon\<close> asks for every listed player, in order, also after a failure.\<close>

lemma ab_Cancel_requests: "CancelRequests (snd (ab_Cancel c p q)) = CancelRequests q @ [p]"
  by (simp add: ab_Cancel_def CancelRequests_def Let_def split: list.split)

lemma cancel_all_requests:
  "CancelRequests (snd (cancel_all (ab_as_queue em) c i ids q)) = CancelRequests q @ ids"
  by (induction ids arbitrary: q)
    (simp_all add: ab_as_queue_def ab_Cancel_requests case_prod_beta Let_def split: sum.split)

lemma abandon_asks_everyone:
  "CancelRequests (snd (snd (Abandon (abandon_New (ab_as_queue em)) c i ids reason q))) = CancelRequests q @ ids"
  using cancel_all_requests [of em c i ids q]
  by (simp add: Abandon_def abandon_New_def case_prod_beta Let_def)

end
