(* ===== verification/TestHttp.thy ===== *)
theory TestHttp
  imports ApiClient
begin

text \<open>
  The HTTP doubles: the queue, breaker and use case of the handlers' tests with the router they build
  (internal/adapter/httphandler/httphandlertest), and the fake of this service for the tests of other
  services (packages/api-matchmaking/apimatchmakingserverfake) with the API client in front of it.
\<close>

section \<open>Doubles of the handlers' tests\<close>

definition errUnsupported :: go_error where
  "errUnsupported = ErrNew ''TST-unsupported-operation''"

record FakeQueue =
  EnqueueRemovedCount :: int
  EnqueueErr :: "go_error option"
  CancelRemoved :: bool
  CancelErr :: "go_error option"
  QueueSize :: int
  SizeErr :: "go_error option"

text \<open>\<open>&FakeQueue{}\<close>.\<close>

definition zero_FakeQueue :: FakeQueue where
  "zero_FakeQueue = \<lparr>EnqueueRemovedCount = 0, EnqueueErr = None, CancelRemoved = False, CancelErr = None,
     QueueSize = 0, SizeErr = None\<rparr>"

definition NewFailingQueue :: "string \<Rightarrow> FakeQueue" where
  "NewFailingQueue message =
    (let err = ErrNew message
     in zero_FakeQueue\<lparr>EnqueueErr := Some err, CancelErr := Some err, SizeErr := Some err\<rparr>)"

definition with_err :: "go_error option \<Rightarrow> 'a \<Rightarrow> go_error + 'a" where
  "with_err e a = (case e of Some err \<Rightarrow> Inl err | None \<Rightarrow> Inr a)"

definition fq_Enqueue ::
  "FakeQueue \<Rightarrow> go_ctx \<Rightarrow> string \<Rightarrow> int64 \<Rightarrow> string \<Rightarrow> int64 \<Rightarrow> string \<Rightarrow> 'w \<Rightarrow> (go_error + int) \<times> 'w" where
  "fq_Enqueue q c p d n l g w = (with_err (EnqueueErr q) (EnqueueRemovedCount q), w)"

definition fq_Cancel :: "FakeQueue \<Rightarrow> go_ctx \<Rightarrow> string \<Rightarrow> 'w \<Rightarrow> (go_error + bool) \<times> 'w" where
  "fq_Cancel q c p w = (with_err (CancelErr q) (CancelRemoved q), w)"

definition fq_Size :: "FakeQueue \<Rightarrow> go_ctx \<Rightarrow> 'w \<Rightarrow> (go_error + int) \<times> 'w" where
  "fq_Size q c w = (with_err (SizeErr q) (QueueSize q), w)"

definition fq_PopPair :: "FakeQueue \<Rightarrow> go_ctx \<Rightarrow> 'w \<Rightarrow> (go_error + QueueEntry list \<times> string) \<times> 'w" where
  "fq_PopPair q c w = (Inl errUnsupported, w)"

definition fq_Reenqueue :: "FakeQueue \<Rightarrow> go_ctx \<Rightarrow> QueueEntry list \<Rightarrow> string \<Rightarrow> 'w \<Rightarrow> (go_error + bool) \<times> 'w" where
  "fq_Reenqueue q c es g w = (Inl errUnsupported, w)"

definition fake_as_queue :: "FakeQueue \<Rightarrow> 'w Queue" where
  "fake_as_queue q = \<lparr>Enqueue = fq_Enqueue q, Cancel = fq_Cancel q, Size = fq_Size q,
     PopPair = fq_PopPair q, Reenqueue = fq_Reenqueue q\<rparr>"

text \<open>A \<open>FakeAbandoner\<close> is its error, a \<open>FakeCircuit\<close> its state.\<close>

definition fa_Abandon ::
  "go_error option \<Rightarrow> go_ctx \<Rightarrow> string \<Rightarrow> string list \<Rightarrow> string \<Rightarrow> 'w \<Rightarrow> go_error option \<times> log list \<times> 'w" where
  "fa_Abandon err c i ids reason w = (err, [], w)"

definition fc_IsCircuitOpen :: "bool \<Rightarrow> 'w \<Rightarrow> bool" where
  "fc_IsCircuitOpen isopen w = isopen"

section \<open>The tests' verifier, servers and requests\<close>

definition PathEnqueue :: string where [simp]: "PathEnqueue = ''/internal/v1/enqueue''"
definition PathCancel :: string where [simp]: "PathCancel = ''/internal/v1/cancel''"
definition PathQueueSize :: string where [simp]: "PathQueueSize = ''/internal/v1/queue-size''"
definition PathMatchAbandoned :: string where [simp]: "PathMatchAbandoned = ''/internal/v1/match-abandoned''"
definition PathHealth :: string where [simp]: "PathHealth = ''/internal/v1/health''"

definition tokenPlayer1 :: string where "tokenPlayer1 = ''TST-TOKEN-1''"
definition tokenPlayer2 :: string where "tokenPlayer2 = ''TST-TOKEN-2''"
definition tokenPlayer3 :: string where "tokenPlayer3 = ''TST-TOKEN-3''"
definition tokenInvalid :: string where "tokenInvalid = ''TST-TOKEN-INVALID''"
definition PlayerID1 :: string where "PlayerID1 = ''TST-PLAYER-1''"
definition PlayerID2 :: string where "PlayerID2 = ''TST-PLAYER-2''"
definition PlayerID3 :: string where "PlayerID3 = ''TST-PLAYER-3''"
definition GatewayID1 :: string where "GatewayID1 = ''TST-GATEWAY-1''"
definition GatewayID2 :: string where "GatewayID2 = ''TST-GATEWAY-2''"

lemmas token_defs = tokenPlayer1_def tokenPlayer2_def tokenPlayer3_def tokenInvalid_def

text \<open>\<open>verificationByToken\<close>; calling the missing function of an unknown token panics (\<open>None\<close>).\<close>

definition verificationByToken :: "string \<Rightarrow> (go_error + string) option" where
  "verificationByToken = map_of
     [(tokenPlayer1, Inr PlayerID1), (tokenPlayer2, Inr PlayerID2), (tokenPlayer3, Inr PlayerID3),
      (tokenInvalid, Inl (ErrNew ''TST-invalid-token''))]"

definition NewVerifier :: "string \<Rightarrow> (go_error + string) option" where
  "NewVerifier token = verificationByToken token"

text \<open>An \<open>Auth\<close> sets the header \<open>X-Internal-Auth\<close> or leaves it out.\<close>

definition WithToken :: "string \<Rightarrow> string option" where
  "WithToken token = Some token"

definition NoAuth :: "string option" where
  "NoAuth = None"

text \<open>
  A router as its tests see it: from the header and the request. \<open>mw\<close> is the middleware of the
  authentication library around a verifier.
\<close>

type_synonym 'w test_router = "string option \<Rightarrow> request \<Rightarrow> 'w \<Rightarrow> (response \<times> log list \<times> 'w) option"

type_synonym auth_middleware =
  "(string \<Rightarrow> (go_error + string) option) \<Rightarrow> string option \<Rightarrow> request \<Rightarrow> response + string"

definition test_NewServer ::
  "gin \<Rightarrow> auth_middleware \<Rightarrow> 'w Queue \<Rightarrow> ('w \<Rightarrow> bool)
     \<Rightarrow> (go_ctx \<Rightarrow> string \<Rightarrow> string list \<Rightarrow> string \<Rightarrow> 'w \<Rightarrow> go_error option \<times> log list \<times> 'w) \<Rightarrow> 'w test_router" where
  "test_NewServer G mw q circ a = (\<lambda>token. NewRouter G (mw NewVerifier token) (handler_New q circ a))"

definition NewServerWithQueue :: "gin \<Rightarrow> auth_middleware \<Rightarrow> 'w Queue \<Rightarrow> 'w test_router" where
  "NewServerWithQueue G mw q = test_NewServer G mw q (fc_IsCircuitOpen False) (fa_Abandon None)"

definition NewServerWithAbandoner ::
  "gin \<Rightarrow> auth_middleware
     \<Rightarrow> (go_ctx \<Rightarrow> string \<Rightarrow> string list \<Rightarrow> string \<Rightarrow> 'w \<Rightarrow> go_error option \<times> log list \<times> 'w) \<Rightarrow> 'w test_router" where
  "NewServerWithAbandoner G mw a =
     test_NewServer G mw (fake_as_queue zero_FakeQueue) (fc_IsCircuitOpen False) a"

definition NewServerWithCircuit :: "gin \<Rightarrow> auth_middleware \<Rightarrow> ('w \<Rightarrow> bool) \<Rightarrow> 'w test_router" where
  "NewServerWithCircuit G mw circ = test_NewServer G mw (fake_as_queue zero_FakeQueue) circ (fa_Abandon None)"

definition Send ::
  "'w test_router \<Rightarrow> string \<Rightarrow> string \<Rightarrow> string option \<Rightarrow> string \<Rightarrow> 'w \<Rightarrow> (response \<times> log list \<times> 'w) option" where
  "Send router meth path auth b w = router auth \<lparr>rq_method = meth, rq_path = path, rq_body = b\<rparr> w"

definition SendEnqueue ::
  "'w test_router \<Rightarrow> string option \<Rightarrow> string \<Rightarrow> 'w \<Rightarrow> (response \<times> log list \<times> 'w) option" where
  "SendEnqueue router auth b = Send router ''POST'' PathEnqueue auth b"

definition SendCancel :: "'w test_router \<Rightarrow> string option \<Rightarrow> 'w \<Rightarrow> (response \<times> log list \<times> 'w) option" where
  "SendCancel router auth = Send router ''POST'' PathCancel auth []"

definition SendQueueSize :: "'w test_router \<Rightarrow> 'w \<Rightarrow> (response \<times> log list \<times> 'w) option" where
  "SendQueueSize router = Send router ''GET'' PathQueueSize NoAuth []"

definition SendHealth :: "'w test_router \<Rightarrow> 'w \<Rightarrow> (response \<times> log list \<times> 'w) option" where
  "SendHealth router = Send router ''GET'' PathHealth NoAuth []"

definition SendMatchAbandoned :: "'w test_router \<Rightarrow> string \<Rightarrow> 'w \<Rightarrow> (response \<times> log list \<times> 'w) option" where
  "SendMatchAbandoned router b = Send router ''POST'' PathMatchAbandoned NoAuth b"

lemmas send_defs = Send_def SendEnqueue_def SendCancel_def SendQueueSize_def SendHealth_def
  SendMatchAbandoned_def

lemmas server_defs = test_NewServer_def NewServerWithQueue_def NewServerWithAbandoner_def
  NewServerWithCircuit_def handler_New_def

definition unavailable :: "(response \<times> log list \<times> 'w) option \<Rightarrow> bool" where
  "unavailable a \<longleftrightarrow> (\<exists>ls w. a = Some (respond 503 (JsonError unavailableMessage []), ls, w)
     \<and> list_ex (\<lambda>l. log_lvl l = LevelError) ls)"

text \<open>
  With a queue that always fails, every route on the queue answers 503 with the same message and logs
  the failure at level error.
\<close>

lemma failing_queue_unavailable:
  assumes "\<And>rq. mw NewVerifier (WithToken tokenPlayer1) rq = Inr PlayerID1"
  shows "unavailable (SendCancel (NewServerWithQueue G mw (fake_as_queue (NewFailingQueue msg))) (WithToken tokenPlayer1) w)"
    and "unavailable (SendQueueSize (NewServerWithQueue G mw (fake_as_queue (NewFailingQueue msg))) w)"
    and "gin_bind_enqueue G b = Inr req \<Longrightarrow> \<not> er_DeckID req <s minDeckID \<Longrightarrow> \<not> is_blank (er_Name req)
      \<Longrightarrow> \<not> is_blank (er_GatewayInstanceID req)
      \<Longrightarrow> unavailable (SendEnqueue (NewServerWithQueue G mw (fake_as_queue (NewFailingQueue msg))) (WithToken tokenPlayer1) b w)"
  by (simp_all add: send_defs server_defs assms handle_Cancel_def handle_Enqueue_def handle_RespondQueueSize_def
      fake_as_queue_def fq_Cancel_def fq_Enqueue_def fq_Size_def with_err_def NewFailingQueue_def Let_def
      respondUnavailable_def unavailable_def NewRouter_def)

lemma failing_abandoner_unavailable:
  assumes "gin_bind_abandoned G b = Inr req" and "ma_MatchID req \<noteq> []" and "length (ma_PlayerIDs req) = MatchPlayerCount"
    and "check_player_ids [] (ma_PlayerIDs req) = None" and "reason_Valid (ma_Reason req)"
  shows "unavailable (SendMatchAbandoned (NewServerWithAbandoner G mw (fa_Abandon (Some err))) b w)"
  using assms by (simp add: send_defs server_defs handle_ReportMatchAbandoned_def fa_Abandon_def
      respondUnavailable_def unavailable_def NewRouter_def)

lemma fake_circuit_health:
  "SendHealth (NewServerWithCircuit G mw (fc_IsCircuitOpen isopen)) w =
     Some (if isopen then respond 503 (JsonHealth ''degraded'' ''open'') else respond 200 (JsonHealth ''ok'' ''closed''), [], w)"
  by (simp add: send_defs server_defs NewRouter_def handle_RespondHealth_def fc_IsCircuitOpen_def
      healthStatusOK_def healthStatusDegraded_def healthCircuitClosed_def healthCircuitOpen_def)

section \<open>The fake of the service\<close>

text \<open>
  A callback gives a status and a body of a type \<open>'b\<close> (\<open>None\<close> for nil); it may change the test's world.
  \<open>decode_\<dots>\<close> is what \<open>json.Decoder.Decode\<close> leaves in the struct, \<open>encode\<close> what the encoder writes (nothing
  when it fails).
\<close>

record ('b, 'w) fake_Server =
  EnqueueFn :: "(EnqueueRequest \<Rightarrow> 'w \<Rightarrow> (int \<times> 'b option) \<times> 'w) option"
  CancelFn :: "('w \<Rightarrow> (int \<times> 'b option) \<times> 'w) option"
  MatchAbandonedFn :: "(MatchAbandonedRequest \<Rightarrow> 'w \<Rightarrow> (int \<times> 'b option) \<times> 'w) option"

record 'b json =
  decode_enqueue :: "string \<Rightarrow> EnqueueRequest"
  decode_abandoned :: "string \<Rightarrow> MatchAbandonedRequest"
  encode :: "'b \<Rightarrow> string"

text \<open>
  \<open>ResponseWriter\<close> as far as used: \<open>WriteHeader\<close> panics on a code outside of 100 to 999, which ends the
  connection; an informational code other than 101 is followed by the final 200; 101, 204 and 304 have no body.
\<close>

definition http_written :: "int \<Rightarrow> (string \<times> string) list \<Rightarrow> string \<Rightarrow> go_error + http_response" where
  "http_written code h b =
    (if code < 100 \<or> 999 < code then Inl (ErrOther ''EOF'')
     else
       (let final = (if code < 200 \<and> code \<noteq> 101 then 200 else code)
        in Inr \<lparr>hp_Status = [], hp_StatusCode = final, hp_Header = h,
                hp_Body = Inr (if final \<in> {101, 204, 304} then [] else b)\<rparr>))"

definition writeJSON :: "('b \<Rightarrow> string) \<Rightarrow> int \<Rightarrow> 'b option \<Rightarrow> go_error + http_response" where
  "writeJSON enc st b =
    (case b of
       None \<Rightarrow> http_written st [] []
     | Some v \<Rightarrow> http_written st [(''Content-Type'', ''application/json'')] (enc v))"

definition handleEnqueue ::
  "'b json \<Rightarrow> ('b, 'w) fake_Server \<Rightarrow> string \<Rightarrow> 'w \<Rightarrow> (go_error + http_response) \<times> 'w" where
  "handleEnqueue J s b w =
    (let req = decode_enqueue J b
     in case EnqueueFn s of
          None \<Rightarrow> (http_written 202 [] [], w)
        | Some f \<Rightarrow> (let ((st, v), w) = f req w in (writeJSON (encode J) st v, w)))"

definition handleCancel ::
  "'b json \<Rightarrow> ('b, 'w) fake_Server \<Rightarrow> 'w \<Rightarrow> (go_error + http_response) \<times> 'w" where
  "handleCancel J s w =
    (case CancelFn s of
       None \<Rightarrow> (http_written 200 [] [], w)
     | Some f \<Rightarrow> (let ((st, v), w) = f w in (writeJSON (encode J) st v, w)))"

definition handleMatchAbandoned ::
  "'b json \<Rightarrow> ('b, 'w) fake_Server \<Rightarrow> string \<Rightarrow> 'w \<Rightarrow> (go_error + http_response) \<times> 'w" where
  "handleMatchAbandoned J s b w =
    (let req = decode_abandoned J b
     in case MatchAbandonedFn s of
          None \<Rightarrow> (http_written 204 [] [], w)
        | Some f \<Rightarrow> (let ((st, v), w) = f req w in (writeJSON (encode J) st v, w)))"

text \<open>
  \<open>NewServer\<close>: the mux of the three routes behind a transport; another method on one of them is 405,
  another path 404. The request's context takes no part.
\<close>

definition fake_NewServer ::
  "'b json \<Rightarrow> ('u \<Rightarrow> string) \<Rightarrow> ('b, 'w) fake_Server \<Rightarrow> ('u, 'w) HttpRequestDoer" where
  "fake_NewServer J path s q w =
    (let p = path (hr_URL q); b = (case hr_Body q of None \<Rightarrow> [] | Some b \<Rightarrow> b)
     in if p \<notin> {''/internal/v1/enqueue'', ''/internal/v1/cancel'', ''/internal/v1/match-abandoned''} then
          (http_written 404 [] ''404 page not found'', w)
        else if hr_Method q \<noteq> ''POST'' then (http_written 405 [] ''Method Not Allowed'', w)
        else if p = ''/internal/v1/enqueue'' then handleEnqueue J s b w
        else if p = ''/internal/v1/cancel'' then handleCancel J s w
        else handleMatchAbandoned J s b w)"

text \<open>URLs resolve from the client's server to the route, and the client's editors keep the request.\<close>

definition resolves :: "'u net_url \<Rightarrow> ('u \<Rightarrow> string) \<Rightarrow> string \<Rightarrow> string \<Rightarrow> bool" where
  "resolves N path server p \<longleftrightarrow> (\<exists>su qu u. nu_Parse N server = Inr su \<and> nu_Ref N su (''.'' @ p) = Inr qu
     \<and> nu_Parse N (nu_String N qu) = Inr u \<and> path u = p)"

definition editors_pass :: "('u, 'w) RequestEditorFn list \<Rightarrow> bool" where
  "editors_pass fs \<longleftrightarrow> (\<forall>f \<in> set fs. \<forall>ctx q w. \<exists>q'. f ctx q w = (None, q', w)
     \<and> hr_Method q' = hr_Method q \<and> hr_URL q' = hr_URL q \<and> hr_Body q' = hr_Body q)"

lemma run_editors_pass:
  "editors_pass fs \<Longrightarrow> \<exists>q'. run_editors fs ctx q w = (None, q', w)
     \<and> hr_Method q' = hr_Method q \<and> hr_URL q' = hr_URL q \<and> hr_Body q' = hr_Body q"
proof (induction fs arbitrary: q)
  case (Cons f fs)
  obtain q1 where q1: "f ctx q w = (None, q1, w)"
    "hr_Method q1 = hr_Method q \<and> hr_URL q1 = hr_URL q \<and> hr_Body q1 = hr_Body q"
    using Cons.prems unfolding editors_pass_def by (metis list.set_intros(1))
  moreover have "editors_pass fs" using Cons.prems by (simp add: editors_pass_def)
  ultimately show ?case using Cons.IH [of q1] by auto
qed simp

lemma send_to:
  assumes "resolves N path (cl_Server c) p" and "hd p = CHR ''/''" and "p \<noteq> []"
    and "editors_pass (cl_RequestEditors c)" and "cl_Client c = Some doer"
  shows "\<exists>q. send_request c ctx (map_sum id (header_add k v) (new_request N ''POST'' (cl_Server c) p b)) [] w = doer q w
       \<and> hr_Method q = ''POST'' \<and> path (hr_URL q) = p \<and> hr_Body q = b"
    and "\<exists>q. send_request c ctx (new_request N ''POST'' (cl_Server c) p b) [] w = doer q w
       \<and> hr_Method q = ''POST'' \<and> path (hr_URL q) = p \<and> hr_Body q = b"
proof -
  obtain u where u: "new_request N ''POST'' (cl_Server c) p b =
      Inr \<lparr>hr_Method = ''POST'', hr_URL = u, hr_Header = [], hr_Body = b, hr_ctx = Background\<rparr>" "path u = p"
    using assms(1,2) by (auto simp: resolves_def new_request_def http_NewRequest_def operationPath_def)
  note pass = run_editors_pass [OF assms(4), of ctx _ w]
  show "\<exists>q. send_request c ctx (new_request N ''POST'' (cl_Server c) p b) [] w = doer q w
       \<and> hr_Method q = ''POST'' \<and> path (hr_URL q) = p \<and> hr_Body q = b"
    using pass [of "\<lparr>hr_Method = ''POST'', hr_URL = u, hr_Header = [], hr_Body = b, hr_ctx = ctx\<rparr>"] u
    by (auto simp: send_request_def applyEditors_def assms(5))
  show "\<exists>q. send_request c ctx (map_sum id (header_add k v) (new_request N ''POST'' (cl_Server c) p b)) [] w = doer q w
       \<and> hr_Method q = ''POST'' \<and> path (hr_URL q) = p \<and> hr_Body q = b"
    using pass [of "\<lparr>hr_Method = ''POST'', hr_URL = u, hr_Header = [(k, v)], hr_Body = b, hr_ctx = ctx\<rparr>"] u
    by (auto simp: send_request_def applyEditors_def assms(5) header_add_def)
qed

text \<open>The callbacks answer with final status codes.\<close>

definition answers_final :: "('b, 'w) fake_Server \<Rightarrow> bool" where
  "answers_final s \<longleftrightarrow>
     (\<forall>f r w. EnqueueFn s = Some f \<longrightarrow> fst (fst (f r w)) \<in> {200..999})
     \<and> (\<forall>f w. CancelFn s = Some f \<longrightarrow> fst (fst (f w)) \<in> {200..999})
     \<and> (\<forall>f r w. MatchAbandonedFn s = Some f \<longrightarrow> fst (fst (f r w)) \<in> {200..999})"

text \<open>What the client makes of a callback's answer, and of none.\<close>

definition told :: "string \<Rightarrow> int \<Rightarrow> ((int \<times> 'b option) \<times> 'w) option \<Rightarrow> 'w \<Rightarrow> go_error option \<times> 'w" where
  "told opn expected a w =
    (case a of
       None \<Rightarrow> (None, w)
     | Some ((st, v), w') \<Rightarrow> (if st = expected then None else Some (newStatusError opn st), w'))"

lemma answers_finalD:
  assumes "answers_final s"
  shows "map_option (\<lambda>f. f x w) (EnqueueFn s) = Some y \<Longrightarrow> fst (fst y) \<in> {200..999}"
    and "map_option (\<lambda>f. f w) (CancelFn s) = Some y \<Longrightarrow> fst (fst y) \<in> {200..999}"
    and "map_option (\<lambda>f. f z w) (MatchAbandonedFn s) = Some y \<Longrightarrow> fst (fst y) \<in> {200..999}"
  using assms unfolding answers_final_def map_option_eq_Some by blast+

lemma writeJSON_final:
  "st \<in> {200..999} \<Longrightarrow> \<exists>h b. writeJSON enc st v = Inr \<lparr>hp_Status = [], hp_StatusCode = st, hp_Header = h, hp_Body = Inr b\<rparr>"
  by (auto simp: writeJSON_def http_written_def split: option.split)

lemma http_written_final:
  "st \<in> {200..999} \<Longrightarrow> \<exists>b'. http_written st h b = Inr \<lparr>hp_Status = [], hp_StatusCode = st, hp_Header = h, hp_Body = Inr b'\<rparr>"
  by (auto simp: http_written_def)

text \<open>An operation of the client, from the fake's answer on.\<close>

lemma told_by_status:
  assumes "answer = (case a of None \<Rightarrow> (http_written expected [] [], w)
      | Some ((st, v), w') \<Rightarrow> (writeJSON enc st v, w'))"
    and "expected \<in> {200..999}" and "\<And>y. a = Some y \<Longrightarrow> fst (fst y) \<in> {200..999}"
    and parse: "\<And>st h b. \<exists>x. parse \<lparr>hp_Status = [], hp_StatusCode = st, hp_Header = h, hp_Body = Inr b\<rparr> = Inr x \<and> code x = st"
  shows "status_result wrap opn expected code
           (case answer of (Inl err, w) \<Rightarrow> (Inl err, w) | (Inr rsp, w) \<Rightarrow> (parse rsp, w)) = told opn expected a w"
proof (cases a)
  case None
  obtain b where "http_written expected [] [] = Inr \<lparr>hp_Status = [], hp_StatusCode = expected, hp_Header = [], hp_Body = Inr b\<rparr>"
    using http_written_final [OF assms(2)] by blast
  moreover obtain x where "parse \<lparr>hp_Status = [], hp_StatusCode = expected, hp_Header = [], hp_Body = Inr b\<rparr> = Inr x" "code x = expected"
    using parse by blast
  ultimately show ?thesis by (simp add: None assms(1) told_def status_result_def)
next
  case (Some y)
  obtain st v w' where y: "y = ((st, v), w')" by (metis surj_pair)
  obtain h b where "writeJSON enc st v = Inr \<lparr>hp_Status = [], hp_StatusCode = st, hp_Header = h, hp_Body = Inr b\<rparr>"
    using writeJSON_final [of st enc v] assms(3) [OF Some] y by auto
  moreover obtain x where "parse \<lparr>hp_Status = [], hp_StatusCode = st, hp_Header = h, hp_Body = Inr b\<rparr> = Inr x" "code x = st"
    using parse by blast
  ultimately show ?thesis by (simp add: Some y assms(1) told_def status_result_def)
qed

lemma parse_codes:
  "\<exists>x. ParseEnqueuePlayerResponse \<lparr>hp_Status = [], hp_StatusCode = st, hp_Header = h, hp_Body = Inr b\<rparr> = Inr x \<and> ep_StatusCode x = st"
  "\<exists>x. ParseCancelPlayerResponse \<lparr>hp_Status = [], hp_StatusCode = st, hp_Header = h, hp_Body = Inr b\<rparr> = Inr x \<and> cp_StatusCode x = st"
  "\<exists>x. ParseReportMatchAbandonedResponse \<lparr>hp_Status = [], hp_StatusCode = st, hp_Header = h, hp_Body = Inr b\<rparr> = Inr x \<and> ra_StatusCode x = st"
  by (simp_all add: ParseEnqueuePlayerResponse_def ParseCancelPlayerResponse_def ParseReportMatchAbandonedResponse_def
      ep_StatusCode_def cp_StatusCode_def ra_StatusCode_def rsp_StatusCode_def)

text \<open>
  The fake of the service fits the API client: each of the client's three operations reaches the
  callback of its route with the client's request and reports its status, nil exactly for the
  operation's own success status, and without a callback it returns nil and changes nothing.
\<close>

lemma client_against_fake:
  assumes "cl_Client c = Some (fake_NewServer J path s)" and "editors_pass (cl_RequestEditors c)"
    and "list_all (resolves N path (cl_Server c))
      [''/internal/v1/enqueue'', ''/internal/v1/cancel'', ''/internal/v1/match-abandoned'']"
    and "answers_final s"
  shows "api_EnqueuePlayer (api_over N c) ctx r w = told ''EnqueuePlayer'' 202
           (map_option (\<lambda>f. f (decode_enqueue J (marshal_EnqueueRequest r)) w) (EnqueueFn s)) w
    \<and> api_CancelPlayer (api_over N c) ctx w = told ''CancelPlayer'' 200 (map_option (\<lambda>f. f w) (CancelFn s)) w
    \<and> api_ReportMatchAbandoned (api_over N c) ctx a w = told ''ReportMatchAbandoned'' 204
           (map_option (\<lambda>f. f (decode_abandoned J (marshal_MatchAbandonedRequest a)) w) (MatchAbandonedFn s)) w"
proof -
  have route: "resolves N path (cl_Server c) ''/internal/v1/enqueue''" "resolves N path (cl_Server c) ''/internal/v1/cancel''"
    "resolves N path (cl_Server c) ''/internal/v1/match-abandoned''"
    using assms(3) by simp_all
  obtain q1 where q1: "openapi_EnqueuePlayer N c ctx r [] w = fake_NewServer J path s q1 w" "hr_Method q1 = ''POST''"
      "path (hr_URL q1) = ''/internal/v1/enqueue''" "hr_Body q1 = Some (marshal_EnqueueRequest r)"
    using send_to(1) [OF route(1) _ _ assms(2,1), of ctx "''Content-Type''" "''application/json''"
        "Some (marshal_EnqueueRequest r)" w]
    by (auto simp: openapi_EnqueuePlayer_def NewEnqueuePlayerRequest_def NewEnqueuePlayerRequestWithBody_def)
  obtain q2 where q2: "openapi_CancelPlayer N c ctx [] w = fake_NewServer J path s q2 w" "hr_Method q2 = ''POST''"
      "path (hr_URL q2) = ''/internal/v1/cancel''"
    using send_to(2) [OF route(2) _ _ assms(2,1), of ctx None w] by (auto simp: openapi_CancelPlayer_def NewCancelPlayerRequest_def)
  obtain q3 where q3: "openapi_ReportMatchAbandoned N c ctx a [] w = fake_NewServer J path s q3 w" "hr_Method q3 = ''POST''"
      "path (hr_URL q3) = ''/internal/v1/match-abandoned''" "hr_Body q3 = Some (marshal_MatchAbandonedRequest a)"
    using send_to(1) [OF route(3) _ _ assms(2,1), of ctx "''Content-Type''" "''application/json''"
        "Some (marshal_MatchAbandonedRequest a)" w]
    by (auto simp: openapi_ReportMatchAbandoned_def NewReportMatchAbandonedRequest_def
        NewReportMatchAbandonedRequestWithBody_def)
  note final = answers_finalD [OF assms(4)]
  note told = told_by_status [where enc = "encode J"]
  have e: "api_EnqueuePlayer (api_over N c) ctx r w = told ''EnqueuePlayer'' 202
      (map_option (\<lambda>f. f (decode_enqueue J (marshal_EnqueueRequest r)) w) (EnqueueFn s)) w"
    unfolding api_EnqueuePlayer_def EnqueuePlayerWithResponse_def with_response_def q1(1)
    by (rule told) (use q1 final(1) parse_codes(1) in
        \<open>auto simp: fake_NewServer_def handleEnqueue_def Let_def split: option.split prod.split\<close>)
  have k: "api_CancelPlayer (api_over N c) ctx w = told ''CancelPlayer'' 200 (map_option (\<lambda>f. f w) (CancelFn s)) w"
    unfolding api_CancelPlayer_def CancelPlayerWithResponse_def with_response_def q2(1)
    by (rule told) (use q2 final(2) parse_codes(2) in
        \<open>auto simp: fake_NewServer_def handleCancel_def Let_def split: option.split prod.split\<close>)
  have m: "api_ReportMatchAbandoned (api_over N c) ctx a w = told ''ReportMatchAbandoned'' 204
      (map_option (\<lambda>f. f (decode_abandoned J (marshal_MatchAbandonedRequest a)) w) (MatchAbandonedFn s)) w"
    unfolding api_ReportMatchAbandoned_def ReportMatchAbandonedWithResponse_def with_response_def q3(1)
    by (rule told) (use q3 final(3) parse_codes(3) in
        \<open>auto simp: fake_NewServer_def handleMatchAbandoned_def Let_def split: option.split prod.split\<close>)
  from e k m show ?thesis by blast
qed

definition fake_example :: "(unit, nat) fake_Server" where
  "fake_example = \<lparr>EnqueueFn = None, CancelFn = Some (\<lambda>w. ((404, None), Suc w)), MatchAbandonedFn = None\<rparr>"

definition fake_client :: "(string, nat) Client" where
  "fake_client = \<lparr>cl_Server = ''http://m/'', cl_Client = Some (fake_NewServer
      \<lparr>decode_enqueue = (\<lambda>b. example_request), decode_abandoned = (\<lambda>b. \<lparr>ma_MatchID = [], ma_PlayerIDs = [], ma_Reason = []\<rparr>),
       encode = (\<lambda>v. [])\<rparr> (\<lambda>u. u) fake_example), cl_RequestEditors = []\<rparr>"

lemma client_against_fake_witness:
  "api_CancelPlayer (api_over example_url fake_client) RequestCtx 7 = (Some (newStatusError ''CancelPlayer'' 404), 8)"
proof -
  have "editors_pass (cl_RequestEditors fake_client)" "answers_final fake_example"
    "list_all (resolves example_url (\<lambda>u. u) (cl_Server fake_client))
      [''/internal/v1/enqueue'', ''/internal/v1/cancel'', ''/internal/v1/match-abandoned'']"
    by (simp_all add: fake_client_def editors_pass_def resolves_def example_url_def answers_final_def fake_example_def)
  with client_against_fake [of fake_client _ "\<lambda>u. u" fake_example example_url] show ?thesis
    by (simp add: fake_client_def) (simp add: fake_example_def told_def)
qed

end
