(* ===== verification/GoJson.thy ===== *)
theory GoJson
  imports Presenter
begin

text \<open>
  The validation and compaction that \<open>encoding/json\<close> applies to a \<open>json.RawMessage\<close>: the scanner of the
  package as a machine on bytes with its stack of open objects and arrays, the removal of white space, and
  the escaping of HTML characters and line separators. What \<open>json.Marshal\<close> writes for a string passes
  unchanged. Used for the bodies that the handlers' tests build.
\<close>

section \<open>The scanner\<close>

datatype json_frame = ObjectKey | ObjectValue | ArrayValue

datatype json_state =
    BeginValue | BeginValueOrEmpty | BeginString | BeginStringOrEmpty
  | EndValue | EndTop
  | InString | InStringEsc | InStringEscU nat
  | Neg | Digits | Zero | Dot | Fraction | Exponent | ExponentSign | ExponentDigits
  | InLiteral string

definition json_space :: "char \<Rightarrow> bool" where
  "json_space c \<longleftrightarrow> c \<in> {CHR 0x20, CHR 0x09, CHR 0x0D, CHR 0x0A}"

definition is_digit :: "char \<Rightarrow> bool" where
  "is_digit c \<longleftrightarrow> digit_val c \<noteq> None"

text \<open>The next state, the stack and whether the byte is left out; \<open>None\<close> is a syntax error.\<close>

type_synonym json_scan = "(json_state \<times> json_frame list \<times> bool) option"

definition json_goto :: "json_state \<Rightarrow> json_frame list \<Rightarrow> json_scan" where
  "json_goto s st = Some (s, st, False)"

definition json_push :: "json_state \<Rightarrow> json_frame \<Rightarrow> json_frame list \<Rightarrow> json_scan" where
  "json_push s f st = (if length st < 10000 then json_goto s (f # st) else None)"

definition json_pop :: "json_frame list \<Rightarrow> json_scan" where
  "json_pop st = json_goto (if st = [] then EndTop else EndValue) st"

fun json_end_value :: "json_frame list \<Rightarrow> char \<Rightarrow> json_scan" where
  "json_end_value [] c = (if json_space c then Some (EndTop, [], True) else None)"
| "json_end_value (f # st) c =
    (if json_space c then Some (EndValue, f # st, True)
     else case f of
       ObjectKey \<Rightarrow> if c = CHR '':'' then json_goto BeginValue (ObjectValue # st) else None
     | ObjectValue \<Rightarrow> if c = CHR '','' then json_goto BeginString (ObjectKey # st)
         else if c = CHR ''}'' then json_pop st else None
     | ArrayValue \<Rightarrow> if c = CHR '','' then json_goto BeginValue (ArrayValue # st)
         else if c = CHR '']'' then json_pop st else None)"

definition json_begin_value :: "json_frame list \<Rightarrow> char \<Rightarrow> json_scan" where
  "json_begin_value st c =
    (if json_space c then Some (BeginValue, st, True)
     else if c = CHR ''{'' then json_push BeginStringOrEmpty ObjectKey st
     else if c = CHR ''['' then json_push BeginValueOrEmpty ArrayValue st
     else if c = CHR 0x22 then json_goto InString st
     else if c = CHR ''-'' then json_goto Neg st
     else if c = CHR ''0'' then json_goto Zero st
     else if is_digit c then json_goto Digits st
     else if c = CHR ''t'' then json_goto (InLiteral ''rue'') st
     else if c = CHR ''f'' then json_goto (InLiteral ''alse'') st
     else if c = CHR ''n'' then json_goto (InLiteral ''ull'') st
     else None)"

definition json_begin_string :: "json_frame list \<Rightarrow> char \<Rightarrow> json_scan" where
  "json_begin_string st c =
    (if json_space c then Some (BeginString, st, True)
     else if c = CHR 0x22 then json_goto InString st else None)"

text \<open>After a number's integer part (\<open>frac\<close>: a fraction may follow) or its fraction.\<close>

definition json_number_tail :: "bool \<Rightarrow> json_frame list \<Rightarrow> char \<Rightarrow> json_scan" where
  "json_number_tail frac st c =
    (if frac \<and> c = CHR ''.'' then json_goto Dot st
     else if c = CHR ''e'' \<or> c = CHR ''E'' then json_goto Exponent st
     else json_end_value st c)"

fun json_step :: "json_state \<Rightarrow> json_frame list \<Rightarrow> char \<Rightarrow> json_scan" where
  "json_step BeginValue st c = json_begin_value st c"
| "json_step BeginValueOrEmpty st c =
    (if json_space c then Some (BeginValueOrEmpty, st, True)
     else if c = CHR '']'' then json_end_value st c else json_begin_value st c)"
| "json_step BeginString st c = json_begin_string st c"
| "json_step BeginStringOrEmpty st c =
    (if json_space c then Some (BeginStringOrEmpty, st, True)
     else if c = CHR ''}'' then json_end_value (ObjectValue # tl st) c else json_begin_string st c)"
| "json_step EndValue st c = json_end_value st c"
| "json_step EndTop st c = (if json_space c then Some (EndTop, st, True) else None)"
| "json_step InString st c =
    (if c = CHR 0x22 then json_goto EndValue st
     else if c = CHR 0x5C then json_goto InStringEsc st
     else if (of_char c :: nat) < 0x20 then None
     else json_goto InString st)"
| "json_step InStringEsc st c =
    (if c \<in> {CHR ''b'', CHR ''f'', CHR ''n'', CHR ''r'', CHR ''t'', CHR 0x5C, CHR ''/'', CHR 0x22} then json_goto InString st
     else if c = CHR ''u'' then json_goto (InStringEscU 4) st
     else None)"
| "json_step (InStringEscU k) st c =
    (if hex_val c = None then None
     else json_goto (if k \<le> 1 then InString else InStringEscU (k - 1)) st)"
| "json_step Neg st c =
    (if c = CHR ''0'' then json_goto Zero st else if is_digit c then json_goto Digits st else None)"
| "json_step Digits st c = (if is_digit c then json_goto Digits st else json_number_tail True st c)"
| "json_step Zero st c = json_number_tail True st c"
| "json_step Dot st c = (if is_digit c then json_goto Fraction st else None)"
| "json_step Fraction st c = (if is_digit c then json_goto Fraction st else json_number_tail False st c)"
| "json_step Exponent st c =
    (if c = CHR ''+'' \<or> c = CHR ''-'' then json_goto ExponentSign st
     else if is_digit c then json_goto ExponentDigits st else None)"
| "json_step ExponentSign st c = (if is_digit c then json_goto ExponentDigits st else None)"
| "json_step ExponentDigits st c = (if is_digit c then json_goto ExponentDigits st else json_end_value st c)"
| "json_step (InLiteral l) st c =
    (case l of
       [] \<Rightarrow> None
     | d # ds \<Rightarrow> if c = d then json_goto (if ds = [] then EndValue else InLiteral ds) st else None)"

text \<open>The end of the text is accepted where a blank would end the outermost value.\<close>

definition json_eof :: "json_state \<Rightarrow> json_frame list \<Rightarrow> bool" where
  "json_eof s st = (case json_step s st (CHR 0x20) of Some (s', _, _) \<Rightarrow> s' = EndTop | None \<Rightarrow> False)"

fun json_strip :: "json_state \<Rightarrow> json_frame list \<Rightarrow> string \<Rightarrow> string option" where
  "json_strip s st [] = (if json_eof s st then Some [] else None)"
| "json_strip s st (c # cs) =
    (case json_step s st c of
       None \<Rightarrow> None
     | Some (s', st', skip) \<Rightarrow> map_option (\<lambda>t. if skip then t else c # t) (json_strip s' st' cs))"

section \<open>Compaction\<close>

definition html_char :: "char \<Rightarrow> bool" where
  "html_char c \<longleftrightarrow> c = CHR ''<'' \<or> c = CHR ''>'' \<or> c = CHR ''&''"

text \<open>\<open>U+2028\<close> and \<open>U+2029\<close>: their bytes and the last digit of their escape.\<close>

fun separator_digit :: "string \<Rightarrow> char option" where
  "separator_digit (c # x # y # cs) =
    (if c = CHR 0xE2 \<and> x = CHR 0x80 \<and> y = CHR 0xA8 then Some (CHR ''8'')
     else if c = CHR 0xE2 \<and> x = CHR 0x80 \<and> y = CHR 0xA9 then Some (CHR ''9'')
     else None)"
| "separator_digit cs = None"

function escape_html :: "string \<Rightarrow> string" where
  "escape_html [] = []"
| "escape_html (c # cs) =
    (if html_char c then json_escape_byte (of_char c) @ escape_html cs
     else case separator_digit (c # cs) of
       Some d \<Rightarrow> [CHR 0x5C, CHR ''u'', CHR ''2'', CHR ''0'', CHR ''2'', d] @ escape_html (drop 2 cs)
     | None \<Rightarrow> c # escape_html cs)"
  by pat_completeness auto
termination
  by (relation "measure length") auto

definition json_compact :: "string \<Rightarrow> string option" where
  "json_compact raw = map_option escape_html (json_strip BeginValue [] raw)"

section \<open>What the encoder writes passes unchanged\<close>

lemma hex_val_hex_char: "d < 16 \<Longrightarrow> hex_val (hex_char d) \<noteq> None"
  by (auto simp: hex_val_def hex_char_def)

lemma hex_val_digits [simp]: "hex_val (CHR ''0'') = Some 0" "hex_val (CHR ''2'') = Some 2"
  "hex_val (CHR ''d'') = Some 13" "hex_val (CHR ''f'') = Some 15"
  by (simp_all add: hex_val_def)

text \<open>A piece of text inside a string through which the scanner goes.\<close>

definition passes :: "string \<Rightarrow> bool" where
  "passes p \<longleftrightarrow> (\<forall>st r. json_strip InString st (p @ r) =
    (case json_strip InString st r of None \<Rightarrow> None | Some t \<Rightarrow> Some (p @ t)))"

lemma passes_append: "passes p \<Longrightarrow> passes q \<Longrightarrow> passes (p @ q)"
  by (simp add: passes_def split: option.split)

lemma passes_plain: "32 \<le> (of_char c :: nat) \<Longrightarrow> c \<noteq> CHR 0x22 \<Longrightarrow> c \<noteq> CHR 0x5C \<Longrightarrow> passes [c]"
  by (simp add: passes_def json_goto_def split: option.split)

lemma passes_high: "128 \<le> (of_char c :: nat) \<Longrightarrow> passes [c]"
  by (rule passes_plain) auto

lemma passes_hex:
  "hex_val h3 \<noteq> None \<Longrightarrow> hex_val h2 \<noteq> None \<Longrightarrow> hex_val h1 \<noteq> None \<Longrightarrow> hex_val h0 \<noteq> None
     \<Longrightarrow> passes [CHR 0x5C, CHR ''u'', h3, h2, h1, h0]"
  by (elim not_None_eq [THEN iffD1, elim_format] exE) (simp add: passes_def json_goto_def split: option.split)

lemma passes_escape:
  "e \<in> {CHR ''b'', CHR ''f'', CHR ''n'', CHR ''r'', CHR ''t'', CHR 0x5C, CHR 0x22} \<Longrightarrow> passes [CHR 0x5C, e]"
  by (auto simp add: passes_def json_goto_def split: option.split)

lemma passes_json_escape_byte:
  assumes "b < 128"
  shows "passes (json_escape_byte b)"
proof (cases "b = 92 \<or> b = 34")
  case True
  have "char_of (92::nat) = CHR 0x5C" "char_of (34::nat) = CHR 0x22"
    by (simp_all only: char_of_eq_iff) simp_all
  with True show ?thesis by (auto simp: json_escape_byte_def intro!: passes_escape)
next
  case False
  have "b div 16 < 16" "b mod 16 < 16" using assms by simp_all
  note hex = hex_val_hex_char [OF this(1)] hex_val_hex_char [OF this(2)]
  show ?thesis using False hex by (simp add: json_escape_byte_def passes_escape passes_hex)
qed

lemma passes_highs: "list_all (\<lambda>c. 128 \<le> (of_char c :: nat)) p \<Longrightarrow> passes p"
proof (induction p)
  case Nil
  then show ?case by (simp add: passes_def split: option.split)
next
  case (Cons c p)
  then show ?case using passes_append [OF passes_high [of c], of p] by simp
qed

text \<open>A piece of text that \<open>escape_html\<close> keeps, whatever follows.\<close>

definition unescaped :: "string \<Rightarrow> bool" where
  "unescaped p \<longleftrightarrow> (\<forall>r. escape_html (p @ r) = p @ escape_html r)"

lemma unescaped_append: "unescaped p \<Longrightarrow> unescaped q \<Longrightarrow> unescaped (p @ q)"
  by (simp add: unescaped_def)

lemma separator_digit_lead: "c \<noteq> CHR 0xE2 \<Longrightarrow> separator_digit (c # cs) = None"
  by (cases "c # cs" rule: separator_digit.cases) auto

lemma unescaped_plain: "\<not> html_char c \<Longrightarrow> c \<noteq> CHR 0xE2 \<Longrightarrow> unescaped [c]"
  by (simp add: unescaped_def separator_digit_lead)

lemma unescaped_all: "list_all (\<lambda>c. \<not> html_char c \<and> c \<noteq> CHR 0xE2) p \<Longrightarrow> unescaped p"
proof (induction p)
  case Nil
  then show ?case by (simp add: unescaped_def)
next
  case (Cons c p)
  then show ?case using unescaped_append [OF unescaped_plain [of c], of p] by simp
qed

lemma of_hex_char: "d < 16 \<Longrightarrow> (of_char (hex_char d) :: nat) = (if d < 10 then 48 + d else 87 + d)"
  by (simp add: hex_char_def)

lemma hex_char_plain: "d < 16 \<Longrightarrow> \<not> html_char (hex_char d) \<and> hex_char d \<noteq> CHR 0xE2"
  using of_hex_char [of d] by (auto simp: html_char_def split: if_splits)

lemma unescaped_escape: "b < 128 \<Longrightarrow> unescaped (json_escape_byte b)"
proof (rule unescaped_all)
  assume "b < 128"
  then have "b div 16 < 16" "b mod 16 < 16" by simp_all
  note hex = hex_char_plain [OF this(1)] hex_char_plain [OF this(2)]
  show "list_all (\<lambda>c. \<not> html_char c \<and> c \<noteq> CHR 0xE2) (json_escape_byte b)"
    unfolding json_escape_byte_def using hex by (simp add: char_of_def html_char_def)
qed

text \<open>Outside of ASCII the encoder keeps the bytes of a character that is not a line separator.\<close>

lemma unescaped_character:
  assumes d: "decode_rune (c # cs) = (r, n)" and c: "128 \<le> (of_char c :: nat)"
    and "\<not> (r = rune_error \<and> n = 1)" and "r \<noteq> 0x2028" and "r \<noteq> 0x2029"
  shows "unescaped (take n (c # cs)) \<and> list_all (\<lambda>c. 128 \<le> (of_char c :: nat)) (take n (c # cs))"
  using d c
proof (cases rule: decode_rune_cases)
  case error
  with assms show ?thesis by simp
next
  case (two x1 cs')
  have "unescaped [c, x1]" by (rule unescaped_all) (use two c in \<open>auto simp: cont_byte_def html_char_def\<close>)
  then show ?thesis using two c by (simp add: cont_byte_def)
next
  case (three x1 x2 cs')
  have high: "128 \<le> (of_char x1 :: nat)" "128 \<le> (of_char x2 :: nat)"
    "of_char x1 \<le> (191 :: nat)" "of_char x2 \<le> (191 :: nat)"
    using three by (simp_all add: cont_byte_def)
  have plain: "\<not> html_char c" "\<not> html_char x1" "\<not> html_char x2" "x1 \<noteq> CHR 0xE2" "x2 \<noteq> CHR 0xE2"
    using c high by (auto simp: html_char_def)
  have "separator_digit (c # x1 # x2 # rest) = None" for rest
    using three assms(4,5) by (auto simp: of_char_eq_iff)
  then have "unescaped [c, x1, x2]"
    using plain by (simp add: unescaped_def separator_digit_lead)
  then show ?thesis using three c high by simp
next
  case (four x1 x2 x3 cs')
  have "c \<noteq> CHR 0xE2"
    using d four by (auto simp: decode_rune_def split: if_splits)
  then have "unescaped [c, x1, x2, x3]"
    by (intro unescaped_all) (use four c in \<open>auto simp: cont_byte_def html_char_def\<close>)
  then show ?thesis using four c by (simp add: cont_byte_def)
qed

text \<open>So a string as the encoder writes it passes the scanner and is compacted to itself.\<close>

lemma json_chars_pass: "passes (json_chars s) \<and> unescaped (json_chars s)"
proof (induction s rule: json_chars.induct)
  case 1
  then show ?case using passes_highs [of "[]"] unescaped_all [of "[]"] by simp
next
  case (2 c cs)
  let ?b = "of_char c :: nat"
  show ?case
  proof (cases "?b < 128")
    case True
    have "passes (if html_safe ?b then [c] else json_escape_byte ?b)"
      using passes_json_escape_byte [OF True] by (auto simp: html_safe_def intro!: passes_plain)
    moreover have "unescaped (if html_safe ?b then [c] else json_escape_byte ?b)"
      using unescaped_escape [OF True] True
      by (auto simp: html_safe_def html_char_def intro!: unescaped_plain)
    ultimately show ?thesis
      using "2.IH"(1) [OF refl True] True by (simp add: Let_def passes_append unescaped_append)
  next
    case False
    obtain r n where d: "decode_rune (c # cs) = (r, n)" by force
    have IH: "passes (json_chars (drop n (c # cs)))" "unescaped (json_chars (drop n (c # cs)))"
      using "2.IH"(2) [OF refl False d [symmetric] refl] by simp_all
    let ?p = "if r = rune_error \<and> n = 1 then [CHR 0x5C, CHR ''u'', CHR ''f'', CHR ''f'', CHR ''f'', CHR ''d'']
       else if r = 0x2028 \<or> r = 0x2029 then [CHR 0x5C, CHR ''u'', CHR ''2'', CHR ''0'', CHR ''2'', hex_char (r mod 16)]
       else take n (c # cs)"
    have "passes ?p"
      using unescaped_character [OF d] False passes_highs [of "take n (c # cs)"]
      by (auto intro!: passes_hex simp: hex_val_hex_char)
    moreover have "unescaped ?p"
      using unescaped_character [OF d] False
      using hex_char_plain [of 8] hex_char_plain [of 9] by (auto intro!: unescaped_all simp: html_char_def)
    moreover have "json_chars (c # cs) = ?p @ json_chars (drop n (c # cs))"
      using False d by (simp add: Let_def)
    ultimately show ?thesis using IH by (simp only: passes_append unescaped_append)
  qed
qed

lemma strip_string: "json_strip BeginValue st (json_string s @ r) =
    (case json_strip EndValue st r of None \<Rightarrow> None | Some t \<Rightarrow> Some (json_string s @ t))"
  using json_chars_pass [of s]
  by (simp add: json_string_def passes_def json_begin_value_def json_goto_def json_space_def split: option.split)

lemma unescaped_string: "unescaped (json_string s)"
proof -
  have "unescaped [CHR 0x22]" by (rule unescaped_plain) (simp_all add: html_char_def)
  then have "unescaped ([CHR 0x22] @ json_chars s @ [CHR 0x22])"
    using json_chars_pass [of s] by (intro unescaped_append) simp_all
  then show ?thesis by (simp add: json_string_def)
qed

lemma unescaped_id: "unescaped p \<Longrightarrow> escape_html p = p"
  unfolding unescaped_def by (metis append_Nil2 escape_html.simps(1))

lemma compact_string [simp]: "json_compact (json_string s) = Some (json_string s)"
  using strip_string [of "[]" s "[]"]
  by (simp add: json_compact_def json_eof_def json_space_def unescaped_id unescaped_string)

text \<open>The same for an array of strings.\<close>

lemma strip_more_strings: "json_strip EndValue (ArrayValue # st) (concat (map (\<lambda>s. CHR '','' # json_string s) ss) @ CHR '']'' # r) =
    (case json_pop st of None \<Rightarrow> None | Some (s', st', _) \<Rightarrow> (case json_strip s' st' r of None \<Rightarrow> None
       | Some t \<Rightarrow> Some (concat (map (\<lambda>s. CHR '','' # json_string s) ss) @ CHR '']'' # t)))"
  by (induction ss) (simp_all add: strip_string json_goto_def json_pop_def json_space_def split: option.split)

definition json_strings :: "string list \<Rightarrow> string" where
  "json_strings ss = ''['' @ join_comma (map json_string ss) @ '']''"

lemma compact_strings [simp]: "json_compact (json_strings ss) = Some (json_strings ss)"
proof (cases ss)
  case Nil
  then show ?thesis 
    by (simp add: json_strings_def json_compact_def json_begin_value_def json_push_def json_goto_def json_space_def
        json_pop_def json_eof_def html_char_def separator_digit_lead)
next
  case (Cons s rest)
  let ?r = "concat (map (\<lambda>s. CHR '','' # json_string s) rest) @ '']''"
  have eq: "json_strings ss = CHR ''['' # json_string s @ ?r"
    using Cons by (simp add: json_strings_def join_comma_Cons comp_def)
  have "json_strip BeginValueOrEmpty [ArrayValue] (json_string s @ ?r)
      = json_strip BeginValue [ArrayValue] (json_string s @ ?r)"
    by (simp add: json_string_def json_space_def)
  then have strip: "json_strip BeginValue [] (json_strings ss) = Some (json_strings ss)"
    using strip_more_strings [of "[]" rest "[]"]
    by (simp add: eq strip_string json_begin_value_def json_push_def json_goto_def json_space_def json_pop_def json_eof_def)
  have comma: "unescaped (CHR '','' # json_string x)" for x
    using unescaped_append [OF unescaped_plain [of "CHR '',''"] unescaped_string [of x]] by (simp add: html_char_def)
  have more: "unescaped (concat (map (\<lambda>s. CHR '','' # json_string s) rest))"
  proof (induction rest)
    case Nil
    then show ?case by (simp add: unescaped_def)
  next
    case (Cons a rest)
    then show ?case using unescaped_append [OF comma [of a]] by simp
  qed
  have "unescaped ([CHR ''[''] @ json_string s @ concat (map (\<lambda>s. CHR '','' # json_string s) rest) @ [CHR '']''])"
    by (intro unescaped_append unescaped_string more unescaped_plain) (simp_all add: html_char_def)
  then have "unescaped (json_strings ss)" by (simp add: eq)
  with strip show ?thesis by (simp add: json_compact_def unescaped_id)
qed

end
