(* ===== verification/TestBodies.thy ===== *)
theory TestBodies
  imports TestHttp GoJson "HOL-Library.AList"
begin

text \<open>
  The rest of internal/adapter/httphandler/httphandlertest: the JSON bodies that the handlers' tests send
  (request.go), what they read from the answers, and the server over a real queue (valkey.go). The bodies are
  built as the code builds them, from raw fields by way of \<open>json.Marshal\<close>; the properties show that the
  unchanged body is what the API client sends for the same request, whatever the gateway's identifier, so that
  the tests' request and the client's have the same effect on the queue.
\<close>

section \<open>Values of the tests\<close>

definition defaultMatch :: string where "defaultMatch = ''mch_TST0001''"
definition defaultReason :: string where "defaultReason = ''player_not_connected''"

definition AuthPlayer1 :: "string option" where "AuthPlayer1 = WithToken tokenPlayer1"
definition AuthPlayer2 :: "string option" where "AuthPlayer2 = WithToken tokenPlayer2"
definition AuthPlayer3 :: "string option" where "AuthPlayer3 = WithToken tokenPlayer3"
definition AuthInvalid :: "string option" where "AuthInvalid = WithToken tokenInvalid"

text \<open>The name in \<open>EnqueueBody\<close>, in UTF-8.\<close>

definition testName :: string where
  "testName = [CHR 0xE3, CHR 0x83, CHR 0x86, CHR 0xE3, CHR 0x82, CHR 0xB9, CHR 0xE3, CHR 0x83, CHR 0x88,
     CHR 0xE5, CHR 0xA4, CHR 0xAA, CHR 0xE9, CHR 0x83, CHR 0x8E]"

section \<open>Bodies\<close>

text \<open>
  \<open>mustMarshal\<close> by the type of its argument: a string, a slice of strings (the variadic argument of
  \<open>PlayerIDs\<close> is the nil slice when there is none), a map of raw messages. Of the three only the last can
  fail, and panic (\<open>None\<close>): a raw message must be JSON.
\<close>

definition mustMarshal_string :: "string \<Rightarrow> string" where
  "mustMarshal_string s = json_string s"

definition mustMarshal_strings :: "string list \<Rightarrow> string" where
  "mustMarshal_strings ss = (if ss = [] then ''null'' else json_strings ss)"

definition mustMarshal :: "(string \<times> string) list \<Rightarrow> string option" where
  "mustMarshal members =
     map_option (\<lambda>parts. ''{'' @ join_comma parts @ ''}'')
       (those (map (\<lambda>(k, raw). map_option (\<lambda>v. json_string k @ '':'' @ v) (json_compact raw)) (sort_key fst members)))"

type_synonym BodyMod = "(string \<times> string) list \<Rightarrow> (string \<times> string) list"

definition body_Set :: "string \<Rightarrow> string \<Rightarrow> BodyMod" where
  "body_Set key rawJSON = AList.update key rawJSON"

definition Omit :: "string \<Rightarrow> BodyMod" where
  "Omit key = AList.delete key"

definition GatewayInstanceID :: "string \<Rightarrow> BodyMod" where
  "GatewayInstanceID i = body_Set ''gateway_instance_id'' (mustMarshal_string i)"

definition PlayerIDs :: "string list \<Rightarrow> BodyMod" where
  "PlayerIDs ids = body_Set ''player_ids'' (mustMarshal_strings ids)"

definition buildBody :: "(string \<times> string) list \<Rightarrow> BodyMod list \<Rightarrow> string option" where
  "buildBody members mods = mustMarshal (foldl (\<lambda>ms md. md ms) members mods)"

definition EnqueueBody :: "BodyMod list \<Rightarrow> string option" where
  "EnqueueBody mods = buildBody
     [(''deck_id'', ''11''), (''name'', mustMarshal_string testName), (''level'', ''7''),
      (''gateway_instance_id'', mustMarshal_string GatewayID1)] mods"

definition AbandonBody :: "BodyMod list \<Rightarrow> string option" where
  "AbandonBody mods = buildBody
     [(''match_id'', mustMarshal_string defaultMatch),
      (''player_ids'', mustMarshal_strings [PlayerID1, PlayerID2]),
      (''reason'', mustMarshal_string defaultReason)] mods"

definition SendEnqueueFromGateway ::
  "'w test_router \<Rightarrow> string option \<Rightarrow> string \<Rightarrow> 'w \<Rightarrow> (response \<times> log list \<times> 'w) option" where
  "SendEnqueueFromGateway router auth gatewayID w =
    (case EnqueueBody [GatewayInstanceID gatewayID] of
       None \<Rightarrow> None
     | Some b \<Rightarrow> SendEnqueue router auth b w)"

section \<open>Answers\<close>

text \<open>
  What \<open>json.Unmarshal\<close> gives for one field of the body; a field that is not there is the zero value,
  and an empty body fails the test (\<open>None\<close>). A message is kept as its format and its arguments.
\<close>

definition ReadErrorMessage :: "response \<Rightarrow> (string \<times> fmt_arg list) option" where
  "ReadErrorMessage r =
    (case rs_body r of
       NoBody \<Rightarrow> None
     | JsonError m as \<Rightarrow> Some (m, as)
     | JsonSize n \<Rightarrow> Some ([], [])
     | JsonHealth h c \<Rightarrow> Some ([], []))"

definition AssertErrorResponse :: "response \<Rightarrow> nat \<Rightarrow> string \<times> fmt_arg list \<Rightarrow> bool" where
  "AssertErrorResponse r st message \<longleftrightarrow> rs_status r = st \<and> ReadErrorMessage r = Some message"

definition ReadQueueSize :: "'w test_router \<Rightarrow> 'w \<Rightarrow> (int \<times> log list \<times> 'w) option" where
  "ReadQueueSize router w =
    (case SendQueueSize router w of
       None \<Rightarrow> None
     | Some (r, ls, w) \<Rightarrow>
         if rs_status r \<noteq> 200 then None
         else (case rs_body r of
             NoBody \<Rightarrow> None
           | JsonSize n \<Rightarrow> Some (n, ls, w)
           | JsonError m as \<Rightarrow> Some (0, ls, w)
           | JsonHealth h c \<Rightarrow> Some (0, ls, w)))"

definition ReadHealth :: "response \<Rightarrow> (string \<times> string) option" where
  "ReadHealth r =
    (case rs_body r of
       NoBody \<Rightarrow> None
     | JsonError m as \<Rightarrow> Some ([], [])
     | JsonSize n \<Rightarrow> Some ([], [])
     | JsonHealth h c \<Rightarrow> Some (h, c))"

section \<open>The server over a real queue\<close>

text \<open>\<open>flush\<close> is \<open>valkeyClient.FlushAll\<close>; a failure ends the test (\<open>None\<close>).\<close>

definition NewServerWithRealQueue ::
  "gin \<Rightarrow> auth_middleware \<Rightarrow> 's redis \<Rightarrow> ('s \<Rightarrow> go_error option \<times> 's) \<Rightarrow> 's \<Rightarrow> ('s test_router \<times> 's) option" where
  "NewServerWithRealQueue G mw R flush s =
    (case flush s of
       (Some err, s) \<Rightarrow> None
     | (None, s) \<Rightarrow>
         (let q = NewRedisQueue R
          in Some (test_NewServer G mw q (fc_IsCircuitOpen False) (Abandon (abandon_New q)), s)))"

section \<open>The body of the tests is the client's\<close>

definition test_request :: "string \<Rightarrow> EnqueueRequest" where
  "test_request g = \<lparr>er_DeckID = 11, er_GatewayInstanceID = g, er_Level = 7, er_Name = testName\<rparr>"

definition test_report :: MatchAbandonedRequest where
  "test_report = \<lparr>ma_MatchID = defaultMatch, ma_PlayerIDs = [PlayerID1, PlayerID2], ma_Reason = defaultReason\<rparr>"

lemma compact_number [simp]: "json_compact ''11'' = Some ''11''" "json_compact ''7'' = Some ''7''"
  by (simp_all add: json_compact_def json_begin_value_def json_goto_def json_space_def is_digit_def digit_val_def
      json_number_tail_def json_eof_def html_char_def separator_digit_lead)

lemma fmt_number: "fmt_int 11 = ''11''" "fmt_int 7 = ''7''"
proof -
  have "digit_char 1 = CHR ''1''" "digit_char 7 = CHR ''7''"
    by (simp_all add: digit_char_def char_of_eq_iff del: One_nat_def)
  then show "fmt_int 11 = ''11''" "fmt_int 7 = ''7''"
    by (simp_all add: fmt_int_def fmt_nat.simps)
qed

lemma json_key_string:
  "json_string ''deck_id'' = butlast (json_key ''deck_id'')"
  "json_string ''gateway_instance_id'' = butlast (json_key ''gateway_instance_id'')"
  "json_string ''level'' = butlast (json_key ''level'')" "json_string ''name'' = butlast (json_key ''name'')"
  "json_string ''match_id'' = butlast (json_key ''match_id'')" "json_string ''reason'' = butlast (json_key ''reason'')"
  "json_string ''player_ids'' = butlast (json_key ''player_ids'')"
  by (simp_all add: json_string_def json_key_def html_safe_def)

text \<open>
  The body that the tests send for a gateway is the client's encoding of the request, byte by byte.
\<close>

lemma gateway_body: "EnqueueBody [GatewayInstanceID g] = Some (marshal_EnqueueRequest (test_request g))"
  by (simp add: EnqueueBody_def buildBody_def mustMarshal_def GatewayInstanceID_def body_Set_def
      mustMarshal_string_def marshal_EnqueueRequest_def test_request_def json_key_string json_key_def fmt_number)

lemma default_body: "EnqueueBody [] = Some (marshal_EnqueueRequest (test_request GatewayID1))"
  by (simp add: EnqueueBody_def buildBody_def mustMarshal_def
      mustMarshal_string_def marshal_EnqueueRequest_def test_request_def json_key_string json_key_def fmt_number)

lemma default_report: "AbandonBody [] = Some (marshal_MatchAbandonedRequest test_report)"
  by (simp add: AbandonBody_def buildBody_def mustMarshal_def mustMarshal_strings_def
      mustMarshal_string_def marshal_MatchAbandonedRequest_def test_report_def json_key_string json_key_def)
    (simp add: json_strings_def)

section \<open>Enqueueing through the tests' server\<close>

text \<open>One request answered with 202, over a Redis queue.\<close>

lemma gateway_enqueue:
  assumes "redis_server R alpha" and "queue_inv (alpha s)"
    and srv: "router = test_NewServer G mw (NewRedisQueue R) circ (Abandon (abandon_New (NewRedisQueue R)))"
    and gin: "gin_bind_enqueue G (marshal_EnqueueRequest (test_request g)) = Inr (test_request g)"
    and auth: "\<And>rq. mw NewVerifier token rq = Inr p"
    and sent: "SendEnqueueFromGateway router token g s = Some (resp, ls, s')" and ok: "rs_status resp = 202"
  shows "queue_inv (alpha s') \<and> stored_instance (alpha s') = Some g
    \<and> PlayerID ` set (queue_entries (alpha s')) = insert p
        (if stored_instance (alpha s) = Some g then PlayerID ` set (queue_entries (alpha s)) else {})"
proof -
  let ?rq = "post ''/internal/v1/enqueue'' (marshal_EnqueueRequest (test_request g))"
  have run: "handle_Enqueue G (redis_handler R circ) p ?rq s = (resp, ls, s')"
    using sent auth by (simp add: SendEnqueueFromGateway_def gateway_body SendEnqueue_def Send_def srv test_NewServer_def
        redis_handler_def [symmetric] post_def [symmetric])
  obtain r s1 where r: "redis_Enqueue R RequestCtx p 11 testName 7 g s = (r, s1)" by fastforce
  obtain k where k: "r = Inr k" "s' = s1"
    using run ok r gin by (cases r) (auto simp: handle_Enqueue_def test_request_def respondUnavailable_def split: if_splits)
  show ?thesis using enqueue_effect [OF assms(1,2) r [unfolded k(1)]] k(2) by auto
qed

text \<open>
  C19. Over the real queue, emptied first: after players 1 and 2 were enqueued from the gateway instances
  \<open>g1\<close> and \<open>g2\<close>, each answered with 202, the queue size read is 2 and both wait when the instances are the
  same; otherwise it is 1 and only player 2 waits. Used of the libraries: the binding decodes the client's
  encoding of these requests, and the middleware passes on what the verifier says.
\<close>

theorem gateway_change_resets_queue:
  assumes "redis_server R alpha" and "flush s0 = (None, s)" and "queue_inv (alpha s)"
    and "queue_entries (alpha s) = []"
    and srv: "NewServerWithRealQueue G mw R flush s0 = Some (router, s)"
    and gin: "gin_bind_enqueue G (marshal_EnqueueRequest (test_request g1)) = Inr (test_request g1)"
      "gin_bind_enqueue G (marshal_EnqueueRequest (test_request g2)) = Inr (test_request g2)"
    and "\<And>rq. mw NewVerifier AuthPlayer1 rq = Inr PlayerID1" and "\<And>rq. mw NewVerifier AuthPlayer2 rq = Inr PlayerID2"
    and "SendEnqueueFromGateway router AuthPlayer1 g1 s = Some (r1, ls1, s1)" and "rs_status r1 = 202"
    and "SendEnqueueFromGateway router AuthPlayer2 g2 s1 = Some (r2, ls2, s2)" and "rs_status r2 = 202"
    and size: "ReadQueueSize router s2 = Some (n, ls3, s3)"
  shows "n = (if g1 = g2 then 2 else 1)
    \<and> PlayerID ` set (queue_entries (alpha s3)) = (if g1 = g2 then {PlayerID1, PlayerID2} else {PlayerID2})"
proof -
  have router: "router = test_NewServer G mw (NewRedisQueue R) (fc_IsCircuitOpen False) (Abandon (abandon_New (NewRedisQueue R)))"
    using srv assms(2) by (simp add: NewServerWithRealQueue_def Let_def)
  note first = gateway_enqueue [OF assms(1,3) router gin(1) assms(8,10,11)]
  then have "queue_inv (alpha s1)" by simp
  note second = gateway_enqueue [OF assms(1) this router gin(2) assms(9,12,13)]
  have players: "PlayerID ` set (queue_entries (alpha s2)) = (if g1 = g2 then {PlayerID1, PlayerID2} else {PlayerID2})"
    using first second assms(4) by auto
  have "distinct (map PlayerID (queue_entries (alpha s2)))"
    using queue_contract.unique [OF redis_server.contract [OF assms(1)], of s2] second by simp
  then have card: "length (queue_entries (alpha s2)) = card (PlayerID ` set (queue_entries (alpha s2)))"
    by (metis distinct_card length_map set_map)
  have len: "int (length (queue_entries (alpha s2))) = (if g1 = g2 then 2 else 1)"
    unfolding card players by (simp add: PlayerID1_def PlayerID2_def)
  obtain r s' where r: "redis_Size R RequestCtx s2 = (r, s')" by fastforce
  have "r = Inr n" "s3 = s'"
    using size r by (cases r; auto simp: ReadQueueSize_def SendQueueSize_def Send_def router test_NewServer_def NewRouter_def
        handler_New_def NewRedisQueue_def handle_RespondQueueSize_def respondUnavailable_def split: if_splits)+
  then show ?thesis
    using redis_server.Size_cases [OF assms(1) _ r] second players len by auto
qed

text \<open>A binding for two gateway instances and a middleware that refuses with 401.\<close>

definition test_gin :: gin where
  "test_gin = \<lparr>
     gin_bind_enqueue = (\<lambda>b. Inr (test_request
       (if b = marshal_EnqueueRequest (test_request ''g1'') then ''g1'' else ''g2''))),
     gin_bind_abandoned = (\<lambda>b. Inr test_report)\<rparr>"

definition test_middleware :: auth_middleware where
  "test_middleware verify token rq =
    (case map_option verify token of
       Some (Some (Inr p)) \<Rightarrow> Inr p
     | _ \<Rightarrow> Inl (respond 401 NoBody))"

definition example_router :: "ref_world test_router" where
  "example_router = test_NewServer test_gin test_middleware (NewRedisQueue ref_redis) (fc_IsCircuitOpen False)
     (Abandon (abandon_New (NewRedisQueue ref_redis)))"

lemma test_gin_binds:
  "gin_bind_enqueue test_gin (marshal_EnqueueRequest (test_request ''g1'')) = Inr (test_request ''g1'')"
  "gin_bind_enqueue test_gin (marshal_EnqueueRequest (test_request ''g2'')) = Inr (test_request ''g2'')"
  by (simp_all add: test_gin_def marshal_EnqueueRequest_def test_request_def json_string_def html_safe_def)

lemma test_middleware_verifies:
  "test_middleware NewVerifier AuthPlayer1 rq = Inr PlayerID1" "test_middleware NewVerifier AuthPlayer2 rq = Inr PlayerID2"
  by (simp_all add: test_middleware_def NewVerifier_def verificationByToken_def AuthPlayer1_def AuthPlayer2_def
      WithToken_def token_defs PlayerID1_def PlayerID2_def)

lemma test_request_valid: "g \<in> {''g1'', ''g2''} \<Longrightarrow> \<not> er_DeckID (test_request g) <s minDeckID
    \<and> \<not> is_blank (er_Name (test_request g)) \<and> \<not> is_blank (er_GatewayInstanceID (test_request g))"
proof -
  have "\<not> is_blank testName"
    by (subst is_blank.simps) (simp add: testName_def decode_rune_def cont_byte_def is_space_def)
  moreover have "\<not> (11 :: int64) <s 1" by (simp add: word_sless_alt)
  ultimately show "g \<in> {''g1'', ''g2''} \<Longrightarrow> ?thesis" by (auto simp: test_request_def minDeckID_def is_space_def)
qed

lemma test_send:
  assumes "rw_net w = []" and "g \<in> {''g1'', ''g2''}" and "validateMemberPlayerID p = None"
    and "\<And>rq. test_middleware NewVerifier token rq = Inr p"
  obtains ls w' where "SendEnqueueFromGateway example_router token g w = Some (respond 202 NoBody, ls, w')"
    and "rw_net w' = []"
proof -
  have "g \<noteq> []" using assms(2) by auto
  from ref_enqueue_succeeds [OF assms(1,3) this, of 11 testName 7] obtain i v
    where "redis_Enqueue ref_redis RequestCtx p 11 testName 7 g w = (Inr i, v)" "rw_net v = []" by blast
  then show thesis
    using test_request_valid [OF assms(2)] assms(2,4) test_gin_binds
    by (intro that [of "if 0 < i then [Log LevelWarn ''matchmaking queue reset for new gateway instance''
          [(''gateway_instance_id'', AStr g), (''removed_entries'', AInt i)]] else []" v])
      (auto simp: SendEnqueueFromGateway_def gateway_body SendEnqueue_def Send_def example_router_def
        test_NewServer_def NewRouter_def handle_Enqueue_def handler_New_def NewRedisQueue_def test_request_def
        simp del: is_blank_ascii)
qed

lemma gateway_change_resets_queue_witness:
  "\<exists>r1 ls1 w1 r2 ls2 w2 ls3 w3.
     SendEnqueueFromGateway example_router AuthPlayer1 ''g1'' example_world = Some (r1, ls1, w1)
     \<and> SendEnqueueFromGateway example_router AuthPlayer2 ''g2'' w1 = Some (r2, ls2, w2)
     \<and> ReadQueueSize example_router w2 = Some (1, ls3, w3)
     \<and> PlayerID ` set (queue_entries (ref_view w3)) = {PlayerID2}"
proof -
  have net: "rw_net example_world = []" by (simp add: example_world_def)
  have valid: "validateMemberPlayerID PlayerID1 = None" "validateMemberPlayerID PlayerID2 = None"
    by (simp_all add: validate_None_iff PlayerID1_def PlayerID2_def)
  obtain ls1 w1 where s1: "SendEnqueueFromGateway example_router AuthPlayer1 ''g1'' example_world = Some (respond 202 NoBody, ls1, w1)"
    "rw_net w1 = []"
    by (rule test_send [OF net _ valid(1) test_middleware_verifies(1), of "''g1''"]) simp_all
  obtain ls2 w2 where s2: "SendEnqueueFromGateway example_router AuthPlayer2 ''g2'' w1 = Some (respond 202 NoBody, ls2, w2)"
    "rw_net w2 = []"
    by (rule test_send [OF s1(2) _ valid(2) test_middleware_verifies(2), of "''g2''"]) simp_all
  obtain n where n: "ReadQueueSize example_router w2 = Some (n, [], w2)"
    using s2(2) by (simp add: ReadQueueSize_def SendQueueSize_def Send_def example_router_def test_NewServer_def NewRouter_def
        handler_New_def NewRedisQueue_def handle_RespondQueueSize_def redis_Size_def ref_redis_def)
  have srv: "NewServerWithRealQueue test_gin test_middleware ref_redis (Pair None) example_world = Some (example_router, example_world)"
    by (simp add: NewServerWithRealQueue_def example_router_def Let_def)
  have one: "n = 1" and two: "PlayerID ` set (queue_entries (ref_view w2)) = {PlayerID2}"
    using gateway_change_resets_queue [OF ref.redis_server_axioms _ example_inv example_entries(1) srv test_gin_binds
        test_middleware_verifies s1(1) _ s2(1) _ n] by simp_all
  show ?thesis
    by (intro exI conjI) (rule s1(1), rule s2(1), rule n [unfolded one], rule two)
qed

end
