(* ===== verification/GoTesting.thy ===== *)
theory GoTesting
  imports Prelude
begin

text \<open>
  The part of Go's \<open>testing.T\<close> that the test helpers of the repository use, as state passing: \<open>Errorf\<close> marks
  the test as failed, \<open>require.NoError\<close> and \<open>Fatalf\<close> also stop it (\<open>None\<close>), \<open>Cleanup\<close> registers a function
  that runs at the end of the test, last one first, whether the test was stopped or not. A cleanup says
  whether it was content; one that is not marks the test as failed and the others still run.
\<close>

record 'w testing =
  t_world :: 'w
  t_failed :: bool
  t_cleanups :: "('w \<Rightarrow> bool \<times> 'w) list"

type_synonym ('a, 'w) helper = "'w testing \<Rightarrow> 'a option \<times> 'w testing"

definition t_start :: "'w \<Rightarrow> 'w testing" where
  "t_start w = \<lparr>t_world = w, t_failed = False, t_cleanups = []\<rparr>"

definition t_Errorf :: "'w testing \<Rightarrow> 'w testing" where
  "t_Errorf t = t\<lparr>t_failed := True\<rparr>"

definition t_Cleanup :: "('w \<Rightarrow> bool \<times> 'w) \<Rightarrow> 'w testing \<Rightarrow> 'w testing" where
  "t_Cleanup f t = t\<lparr>t_cleanups := f # t_cleanups t\<rparr>"

text \<open>A call on the world whose error ends the test.\<close>

definition require :: "('w \<Rightarrow> (go_error + 'a) \<times> 'w) \<Rightarrow> ('a, 'w) helper" where
  "require f t =
    (case f (t_world t) of
       (Inl err, w) \<Rightarrow> (None, t_Errorf (t\<lparr>t_world := w\<rparr>))
     | (Inr a, w) \<Rightarrow> (Some a, t\<lparr>t_world := w\<rparr>))"

definition require_nil :: "('w \<Rightarrow> go_error option \<times> 'w) \<Rightarrow> (unit, 'w) helper" where
  "require_nil f = require (\<lambda>w. case f w of (Some err, w) \<Rightarrow> (Inl err, w) | (None, w) \<Rightarrow> (Inr (), w))"

text \<open>A cleanup that requires the absence of an error.\<close>

definition no_error :: "('w \<Rightarrow> go_error option \<times> 'w) \<Rightarrow> 'w \<Rightarrow> bool \<times> 'w" where
  "no_error f w = (case f w of (e, w) \<Rightarrow> (e = None, w))"

text \<open>The end of the test: its verdict and the world that the cleanups leave.\<close>

fun run_cleanups :: "('w \<Rightarrow> bool \<times> 'w) list \<Rightarrow> 'w \<Rightarrow> bool \<times> 'w" where
  "run_cleanups [] w = (True, w)"
| "run_cleanups (f # fs) w =
    (let (ok, w) = f w; (oks, w) = run_cleanups fs w in (ok \<and> oks, w))"

definition t_finish :: "'w testing \<Rightarrow> bool \<times> 'w" where
  "t_finish t = (let (ok, w) = run_cleanups (t_cleanups t) (t_world t) in (\<not> t_failed t \<and> ok, w))"

text \<open>\<open>errors.Join\<close> leaves out what is nil, and is nil for nothing.\<close>

definition errors_join :: "go_error option list \<Rightarrow> go_error option" where
  "errors_join es = (let present = List.map_filter id es in if present = [] then None else Some (ErrJoin present))"

lemma errors_join_Some [simp]:
  "errors_join [Some e, None] = Some (ErrJoin [e])" "errors_join [Some e, Some e'] = Some (ErrJoin [e, e'])"
  by (simp_all add: errors_join_def List.map_filter_def)

lemma errors_is_joined: "errors_join es = Some e \<Longrightarrow> Some x \<in> set es \<Longrightarrow> errors_is x e"
proof -
  assume e: "errors_join es = Some e" and x: "Some x \<in> set es"
  have "x \<in> set (List.map_filter id es)" using x by (force simp: List.map_filter_def)
  moreover have "e = ErrJoin (List.map_filter id es)" using e by (auto simp: errors_join_def Let_def split: if_splits)
  ultimately show "errors_is x e" by (auto simp: list_ex_iff intro: errors_is_refl)
qed

lemma errors_join_None: "errors_join es = None \<longleftrightarrow> set es \<subseteq> {None}"
  by (auto simp: errors_join_def List.map_filter_def Let_def filter_empty_conv)

lemma require_world: "require f t = (r, t') \<Longrightarrow> t_world t' = snd (f (t_world t)) \<and> t_cleanups t' = t_cleanups t"
  by (auto simp: require_def t_Errorf_def split: prod.splits sum.splits)

end
