(* ===== verification/TestLogs.thy ===== *)
theory TestLogs
  imports TestHttp GoTesting
begin

text \<open>
  How the tests read the structured log: the capture of internal/adapter/httphandler/httphandlertest/logs.go,
  which keeps records, and that of internal/usecase/usecasetest/logs.go, which keeps the lines of slog's JSON
  handler. A handler's log records are those of the model, with \<open>slog.Value.String\<close> as the parameter \<open>str\<close>;
  decoding a line (\<open>json.Unmarshal\<close> into a map) and \<open>fmt.Sprint\<close> are parameters of the second capture.
  The lemmas show that a capture gives back what was logged, in order, and that the default logger is
  restored at the end of the test.
\<close>

section \<open>Records\<close>

record LogRecord =
  lr_Level :: log_level
  lr_Message :: string
  lr_Attrs :: "string \<Rightarrow> string option"

record LogCapture =
  lc_records :: "LogRecord list"

definition recordsExcluding :: "(LogRecord \<Rightarrow> bool) \<Rightarrow> LogCapture \<Rightarrow> LogRecord list" where
  "recordsExcluding isExcluded c = filter (\<lambda>r. \<not> isExcluded r) (lc_records c)"

definition RecordsAt :: "log_level \<Rightarrow> LogCapture \<Rightarrow> LogRecord list" where
  "RecordsAt lvl = recordsExcluding (\<lambda>r. lr_Level r \<noteq> lvl)"

definition RecordsWithMessage :: "string \<Rightarrow> LogCapture \<Rightarrow> LogRecord list" where
  "RecordsWithMessage message = recordsExcluding (\<lambda>r. lr_Message r \<noteq> message)"

definition capture_append :: "LogRecord \<Rightarrow> LogCapture \<Rightarrow> LogCapture" where
  "capture_append r c = c\<lparr>lc_records := lc_records c @ [r]\<rparr>"

text \<open>A \<open>captureHandler\<close>: the capture it writes to (an address) and its own attributes.\<close>

record captureHandler =
  ch_capture :: nat
  ch_attrs :: "(string \<times> fmt_arg) list"

definition ch_Enabled :: "captureHandler \<Rightarrow> go_ctx \<Rightarrow> log_level \<Rightarrow> bool" where
  "ch_Enabled h ctx lvl = True"

definition attrs_text :: "(fmt_arg \<Rightarrow> string) \<Rightarrow> (string \<times> fmt_arg) list \<Rightarrow> string \<Rightarrow> string option" where
  "attrs_text str as = foldl (\<lambda>m (k, v). m(k \<mapsto> str v)) (\<lambda>k. None) as"

definition ch_Handle :: "(fmt_arg \<Rightarrow> string) \<Rightarrow> captureHandler \<Rightarrow> log \<Rightarrow> LogCapture \<Rightarrow> LogCapture" where
  "ch_Handle str h rec = capture_append
     \<lparr>lr_Level = log_lvl rec, lr_Message = log_msg rec, lr_Attrs = attrs_text str (ch_attrs h @ log_attrs rec)\<rparr>"

definition ch_WithAttrs :: "(string \<times> fmt_arg) list \<Rightarrow> captureHandler \<Rightarrow> captureHandler" where
  "ch_WithAttrs as h = h\<lparr>ch_attrs := ch_attrs h @ as\<rparr>"

definition ch_WithGroup :: "string \<Rightarrow> captureHandler \<Rightarrow> captureHandler" where
  "ch_WithGroup g h = h"

text \<open>
  The default logger \<open>'l\<close> of the process and the captures \<open>'k\<close> made so far. A capture sets a logger that
  writes to it, and the end of the test sets the previous one again.
\<close>

record ('l, 'k) slog_world =
  sl_default :: 'l
  sl_captures :: "'k list"

definition capture_into :: "'k \<Rightarrow> (nat \<Rightarrow> 'l) \<Rightarrow> ('l, 'k) slog_world testing \<Rightarrow> nat \<times> ('l, 'k) slog_world testing" where
  "capture_into k logger t =
    (let w = t_world t; capture = length (sl_captures w); previous = sl_default w;
         w = w\<lparr>sl_captures := sl_captures w @ [k], sl_default := logger capture\<rparr>
     in (capture, t_Cleanup (\<lambda>w. (True, w\<lparr>sl_default := previous\<rparr>)) (t\<lparr>t_world := w\<rparr>)))"

text \<open>\<open>new\<close> is \<open>slog.New\<close>.\<close>

definition CaptureLogs ::
  "(captureHandler \<Rightarrow> 'l) \<Rightarrow> ('l, LogCapture) slog_world testing \<Rightarrow> nat \<times> ('l, LogCapture) slog_world testing" where
  "CaptureLogs new = capture_into \<lparr>lc_records = []\<rparr> (\<lambda>capture. new \<lparr>ch_capture = capture, ch_attrs = []\<rparr>)"

text \<open>After any number of captures in one test, the default logger is the first one again.\<close>

lemma capture_restored:
  "sl_default (snd (t_finish (((snd \<circ> capture_into k logger) ^^ n) (t_start w)))) = sl_default w"
proof -
  let ?t = "\<lambda>n. ((snd \<circ> capture_into k logger) ^^ n) (t_start w)"
  have keep: "sl_default (snd (run_cleanups (t_cleanups (?t n)) v)) = (if n = 0 then sl_default v else sl_default w)" for v
  proof (induction n arbitrary: v)
    case 0
    then show ?case by (simp add: t_start_def)
  next
    case (Suc n)
    have d: "n = 0 \<Longrightarrow> sl_default (t_world (?t n)) = sl_default w" by (simp add: t_start_def)
    show ?case using Suc d
      by (cases n) (simp_all add: capture_into_def t_Cleanup_def Let_def case_prod_beta)
  qed
  show ?thesis unfolding t_finish_def using keep
    by (cases n) (simp_all add: Let_def case_prod_beta t_start_def)
qed

text \<open>What is logged through a handler is captured in order, and read back by level or message.\<close>

definition capture_all :: "(fmt_arg \<Rightarrow> string) \<Rightarrow> captureHandler \<Rightarrow> log list \<Rightarrow> LogCapture" where
  "capture_all str h ls = fold (ch_Handle str h) ls \<lparr>lc_records = []\<rparr>"

lemma fold_Handle_records:
  "lc_records (fold (ch_Handle str h) ls c) = lc_records c @ map (\<lambda>l. \<lparr>lr_Level = log_lvl l, lr_Message = log_msg l,
     lr_Attrs = attrs_text str (ch_attrs h @ log_attrs l)\<rparr>) ls"
  by (induction ls arbitrary: c) (simp_all add: ch_Handle_def capture_append_def)

lemma captured_at:
  "map lr_Message (RecordsAt lvl (capture_all str h ls)) = map log_msg (filter (\<lambda>l. log_lvl l = lvl) ls)"
  "map lr_Level (RecordsWithMessage msg (capture_all str h ls)) = map log_lvl (filter (\<lambda>l. log_msg l = msg) ls)"
  by (simp_all add: RecordsAt_def RecordsWithMessage_def recordsExcluding_def capture_all_def fold_Handle_records
      filter_map comp_def)

lemma attrs_text_snoc: "attrs_text str (as @ [(k, v)]) = (attrs_text str as)(k \<mapsto> str v)"
  by (simp add: attrs_text_def)

lemma attrs_text_last: "distinct (map fst as) \<Longrightarrow> (k, v) \<in> set as \<Longrightarrow> attrs_text str as k = Some (str v)"
  by (induction as rule: rev_induct) (auto simp: attrs_text_snoc image_iff)

text \<open>An unavailable dependency leaves one error record, with the route and the cause.\<close>

lemma unavailable_captured:
  "\<exists>r. RecordsAt LevelError (capture_all str \<lparr>ch_capture = c, ch_attrs = []\<rparr> (snd (respondUnavailable rq err))) = [r]
     \<and> lr_Attrs r ''path'' = Some (str (AStr (rq_path rq))) \<and> lr_Attrs r ''error'' = Some (str (AVal err))"
  by (simp add: RecordsAt_def recordsExcluding_def capture_all_def ch_Handle_def capture_append_def
      respondUnavailable_def attrs_text_def)

section \<open>Lines\<close>

text \<open>A decoded JSON value; a number keeps its text.\<close>

datatype json_value =
    JNull | JBool bool | JNumber string | JString string | JArray "json_value list"
  | JObject "(string \<times> json_value) list"

type_synonym json_object = "string \<Rightarrow> json_value option"

text \<open>\<open>slog.Level.String\<close> of the levels that the repository uses.\<close>

fun level_String :: "log_level \<Rightarrow> string" where
  "level_String LevelInfo = ''INFO''"
| "level_String LevelWarn = ''WARN''"
| "level_String LevelError = ''ERROR''"

record Logs =
  lg_buf :: string

record LogEntry =
  le_attrs :: json_object

text \<open>\<open>newJSON\<close> is \<open>slog.New\<close> of a JSON handler on the buffer, from level debug.\<close>

definition usecase_CaptureLogs ::
  "(nat \<Rightarrow> 'l) \<Rightarrow> ('l, Logs) slog_world testing \<Rightarrow> nat \<times> ('l, Logs) slog_world testing" where
  "usecase_CaptureLogs newJSON = capture_into \<lparr>lg_buf = []\<rparr> newJSON"

definition logs_Write :: "string \<Rightarrow> Logs \<Rightarrow> (nat \<times> go_error option) \<times> Logs" where
  "logs_Write p l = ((length p, None), l\<lparr>lg_buf := lg_buf l @ p\<rparr>)"

definition logs_Count :: "Logs \<Rightarrow> nat" where
  "logs_Count l = length (filter (\<lambda>c. c = CHR 0x0A) (lg_buf l))"

text \<open>\<open>bytes.Split\<close> on the line feed, and \<open>bytes.TrimSpace\<close> by whole runes from either end.\<close>

fun split_lines :: "string \<Rightarrow> string list" where
  "split_lines [] = [[]]"
| "split_lines (c # cs) =
    (if c = CHR 0x0A then [] # split_lines cs
     else (case split_lines cs of [] \<Rightarrow> [[c]] | l # ls \<Rightarrow> (c # l) # ls))"

function trim_left :: "string \<Rightarrow> string" where
  "trim_left s = (if s \<noteq> [] \<and> is_space (fst (decode_rune s)) then trim_left (drop (snd (decode_rune s)) s) else s)"
  by pat_completeness auto
termination
  by (relation "measure length") (auto simp: decode_rune_width intro!: diff_less)

declare trim_left.simps [simp del]

definition rune_start :: "char \<Rightarrow> bool" where
  "rune_start c \<longleftrightarrow> \<not> cont_byte (of_char c)"

definition decode_last_rune :: "string \<Rightarrow> nat \<times> nat" where
  "decode_last_rune s =
    (if s = [] then (rune_error, 0)
     else if of_char (last s) < (128::nat) then (of_char (last s), 1)
     else (case find (\<lambda>k. rune_start (s ! (length s - k))) [2..<Suc (min 4 (length s))] of
         None \<Rightarrow> (rune_error, 1)
       | Some k \<Rightarrow>
           (let (r, n) = decode_rune (drop (length s - k) s)
            in if n = k then (r, n) else (rune_error, 1))))"

lemma decode_last_rune_width: "s \<noteq> [] \<Longrightarrow> 0 < snd (decode_last_rune s)"
proof -
  assume s: "s \<noteq> []"
  have two: "2 \<le> k" if "find P [2..<m] = Some k" for P m k
    using that by (auto simp: find_Some_iff)
  show ?thesis
  proof (cases "find (\<lambda>k. rune_start (s ! (length s - k))) [2..<Suc (min 4 (length s))]")
    case None
    then show ?thesis using s by (simp add: decode_last_rune_def del: upt_Suc)
  next
    case (Some k)
    then show ?thesis using s two [OF Some] by (simp add: decode_last_rune_def case_prod_beta del: upt_Suc)
  qed
qed

function trim_right :: "string \<Rightarrow> string" where
  "trim_right s =
    (if s \<noteq> [] \<and> is_space (fst (decode_last_rune s)) then trim_right (take (length s - snd (decode_last_rune s)) s) else s)"
  by pat_completeness auto
termination
  by (relation "measure length") (auto simp: decode_last_rune_width intro!: diff_less)

declare trim_right.simps [simp del]

definition entry_matches :: "log_level \<Rightarrow> string \<Rightarrow> json_object \<Rightarrow> bool" where
  "entry_matches lvl message attrs \<longleftrightarrow>
     attrs ''level'' = Some (JString (level_String lvl)) \<and> attrs ''msg'' = Some (JString message)"

definition logs_Entries :: "(string \<Rightarrow> json_object option) \<Rightarrow> log_level \<Rightarrow> string \<Rightarrow> Logs \<Rightarrow> LogEntry list" where
  "logs_Entries decode lvl message l =
    map (\<lambda>attrs. \<lparr>le_attrs = attrs\<rparr>)
      (filter (entry_matches lvl message)
        (List.map_filter decode (split_lines (trim_right (trim_left (lg_buf l))))))"

text \<open>\<open>sprint\<close> is \<open>fmt.Sprint\<close>; a missing key gives nil, the value \<open>None\<close>.\<close>

definition entry_Text :: "(json_value option \<Rightarrow> string) \<Rightarrow> LogEntry \<Rightarrow> string \<Rightarrow> string" where
  "entry_Text sprint e key = sprint (le_attrs e key)"

definition entry_Texts :: "(json_value option \<Rightarrow> string) \<Rightarrow> LogEntry \<Rightarrow> string \<Rightarrow> string list" where
  "entry_Texts sprint e key =
    (case le_attrs e key of Some (JArray vs) \<Rightarrow> map (\<lambda>v. sprint (Some v)) vs | _ \<Rightarrow> [])"

section \<open>The lines that were written come back\<close>

text \<open>A line as the JSON handler writes it: an object on one line.\<close>

definition object_line :: "string \<Rightarrow> bool" where
  "object_line s \<longleftrightarrow> (\<exists>b. s = CHR ''{'' # b @ ''}'' \<and> CHR 0x0A \<notin> set b)"

definition write_lines :: "string list \<Rightarrow> Logs" where
  "write_lines ls = fold (\<lambda>s l. snd (logs_Write (s @ [CHR 0x0A]) l)) ls \<lparr>lg_buf = []\<rparr>"

lemma write_lines_buf: "lg_buf (write_lines ls) = concat (map (\<lambda>s. s @ [CHR 0x0A]) ls)"
proof -
  have "lg_buf (fold (\<lambda>s l. snd (logs_Write (s @ [CHR 0x0A]) l)) ls l) = lg_buf l @ concat (map (\<lambda>s. s @ [CHR 0x0A]) ls)" for l
    by (induction ls arbitrary: l) (simp_all add: logs_Write_def)
  then show ?thesis by (simp add: write_lines_def)
qed

lemma split_line: "CHR 0x0A \<notin> set s \<Longrightarrow> split_lines (s @ CHR 0x0A # r) = s # split_lines r"
  by (induction s) auto

lemma split_one: "CHR 0x0A \<notin> set s \<Longrightarrow> split_lines s = [s]"
  by (induction s) auto

lemma split_joined: "list_all (\<lambda>s. CHR 0x0A \<notin> set s) ls \<Longrightarrow> CHR 0x0A \<notin> set s
    \<Longrightarrow> split_lines (concat (map (\<lambda>s. s @ [CHR 0x0A]) ls) @ s) = ls @ [s]"
  by (induction ls) (simp_all add: split_line split_one)

lemma trim_left_ascii: "of_char c < (128::nat) \<Longrightarrow> \<not> is_space (of_char c) \<Longrightarrow> trim_left (c # cs) = c # cs"
  by (subst trim_left.simps) (simp add: decode_rune_def)

lemma trim_right_ascii: "of_char c < (128::nat) \<Longrightarrow>
    trim_right (s @ [c]) = (if is_space (of_char c) then trim_right s else s @ [c])"
  by (subst trim_right.simps) (simp add: decode_last_rune_def)

lemma trimmed_lines:
  assumes "list_all object_line ls" and "object_line s"
  shows "split_lines (trim_right (trim_left (concat (map (\<lambda>s. s @ [CHR 0x0A]) (ls @ [s]))))) = ls @ [s]"
proof -
  let ?t = "concat (map (\<lambda>s. s @ [CHR 0x0A]) ls) @ s"
  obtain c where "?t @ [CHR 0x0A] = CHR ''{'' # c"
    using assms by (cases ls) (auto simp: object_line_def)
  then have l: "trim_left (?t @ [CHR 0x0A]) = ?t @ [CHR 0x0A]"
    by (simp add: trim_left_ascii is_space_def)
  obtain d where d: "?t = d @ ''}''" using assms(2) by (auto simp: object_line_def)
  have "trim_right (?t @ [CHR 0x0A]) = trim_right ?t"
    using trim_right_ascii [of "CHR 0x0A" ?t] by (simp add: is_space_def)
  also have "\<dots> = ?t" unfolding d using trim_right_ascii [of "CHR ''}''" d] by (simp add: is_space_def)
  finally have "trim_right (?t @ [CHR 0x0A]) = ?t" .
  moreover have "split_lines ?t = ls @ [s]"
    using assms by (intro split_joined) (auto simp: list_all_iff object_line_def)
  ultimately show ?thesis using l by simp
qed

text \<open>
  After the lines were written in order, \<open>Count\<close> is their number and \<open>Entries\<close> gives back the decoded lines
  of the level and the message, in the order of writing.
\<close>

lemma logs_read_back:
  assumes "list_all object_line ls" and "\<And>s. s \<in> set ls \<Longrightarrow> decode s \<noteq> None" and "decode [] = None"
  shows "logs_Count (write_lines ls) = length ls"
    and "logs_Entries decode lvl msg (write_lines ls) =
           map (\<lambda>a. \<lparr>le_attrs = a\<rparr>) (filter (entry_matches lvl msg) (map (\<lambda>s. the (decode s)) ls))"
proof -
  have "filter (\<lambda>c. c = CHR 0x0A) s = []" if "object_line s" for s
    using that by (auto simp: object_line_def filter_empty_conv)
  then show "logs_Count (write_lines ls) = length ls" using assms(1)
    unfolding logs_Count_def write_lines_buf by (induction ls) simp_all
  show "logs_Entries decode lvl msg (write_lines ls) =
           map (\<lambda>a. \<lparr>le_attrs = a\<rparr>) (filter (entry_matches lvl msg) (map (\<lambda>s. the (decode s)) ls))"
  proof (cases ls rule: rev_cases)
    case Nil
    then show ?thesis using assms(3)
      by (simp add: logs_Entries_def write_lines_def trim_left.simps trim_right.simps List.map_filter_def)
  next
    case (snoc ks s)
    then have "split_lines (trim_right (trim_left (lg_buf (write_lines ls)))) = ls"
      unfolding write_lines_buf using trimmed_lines [of ks s] assms(1) by simp
    moreover have "List.map_filter decode ls = map (\<lambda>s. the (decode s)) ls"
      using assms(2) by (auto simp: List.map_filter_def intro!: filter_True)
    ultimately show ?thesis by (simp add: logs_Entries_def)
  qed
qed

end
