(* ===== verification/TestContainers.thy ===== *)
theory TestContainers
  imports GoTesting
begin

text \<open>
  The containers of the integration tests: Valkey (internal/adapter/redisqueue/redisqueuetest and
  internal/adapter/httphandler/httphandlertest/valkey.go) and the Pub/Sub emulator
  (internal/adapter/pubsub/pubsubtest/emulator.go, up to the topics). The container library, go-redis and the
  Pub/Sub client are parameters. The lemmas show that a container that was started is either handed out
  or terminated with the termination's own error reported, that closing tries every part, and in which order the
  parts of a test are taken down.
\<close>

section \<open>The libraries\<close>

text \<open>\<open>ContainerRequest\<close> with \<open>Started: true\<close>; the waiting strategy is the awaited log line and its limit.\<close>

record ContainerRequest =
  cr_Image :: string
  cr_ExposedPorts :: "string list"
  cr_Cmd :: "string list"
  cr_WaitLog :: string
  cr_StartupTimeout :: int

text \<open>\<open>MappedPort\<close> gives the port's number as text.\<close>

record ('c, 'w) testcontainers =
  tc_GenericContainer :: "go_ctx \<Rightarrow> ContainerRequest \<Rightarrow> 'w \<Rightarrow> (go_error + 'c) \<times> 'w"
  tc_Host :: "'c \<Rightarrow> go_ctx \<Rightarrow> 'w \<Rightarrow> (go_error + string) \<times> 'w"
  tc_MappedPort :: "'c \<Rightarrow> go_ctx \<Rightarrow> string \<Rightarrow> 'w \<Rightarrow> (go_error + string) \<times> 'w"
  tc_Terminate :: "'c \<Rightarrow> go_ctx \<Rightarrow> 'w \<Rightarrow> go_error option \<times> 'w"

text \<open>go-redis: options \<open>'o\<close> with their address, clients \<open>'r\<close>.\<close>

record ('o, 'r, 'w) redis_lib =
  rl_ParseURL :: "string \<Rightarrow> go_error + 'o"
  rl_Addr :: "'o \<Rightarrow> string"
  rl_NewClient :: "'o \<Rightarrow> 'r"
  rl_NewClientDialer :: "string \<Rightarrow> 'r"
  rl_FlushDB :: "'r \<Rightarrow> go_ctx \<Rightarrow> 'w \<Rightarrow> go_error option \<times> 'w"
  rl_Close :: "'r \<Rightarrow> 'w \<Rightarrow> go_error option \<times> 'w"

section \<open>Valkey\<close>

definition valkeyPort :: string where "valkeyPort = ''6379/tcp''"

definition valkeyImage :: string where "valkeyImage = ''valkey/valkey:8-alpine''"
definition valkeyReadyLog :: string where "valkeyReadyLog = ''Ready to accept connections''"
definition valkeyStartupTimeout :: int where "valkeyStartupTimeout = 60 * second"

definition valkey_request :: ContainerRequest where
  "valkey_request = \<lparr>cr_Image = valkeyImage, cr_ExposedPorts = [valkeyPort], cr_Cmd = [],
     cr_WaitLog = valkeyReadyLog, cr_StartupTimeout = valkeyStartupTimeout\<rparr>"

record 'c Container =
  cn_container :: 'c
  cn_url :: string

definition cn_Terminate :: "('c, 'w) testcontainers \<Rightarrow> 'c Container \<Rightarrow> go_ctx \<Rightarrow> 'w \<Rightarrow> go_error option \<times> 'w" where
  "cn_Terminate T c ctx = tc_Terminate T (cn_container c) ctx"

definition cn_URL :: "'c Container \<Rightarrow> string" where
  "cn_URL c = cn_url c"

text \<open>\<open>errors.Join(err, container.Terminate(ctx))\<close>, the end of each failed start.\<close>

definition join_terminate ::
  "('c, 'w) testcontainers \<Rightarrow> 'c \<Rightarrow> go_ctx \<Rightarrow> go_error \<Rightarrow> 'w \<Rightarrow> (go_error + 'a) \<times> 'w" where
  "join_terminate T c ctx err w =
    (case tc_Terminate T c ctx w of
       (te, w) \<Rightarrow> (case errors_join [Some err, te] of Some e \<Rightarrow> (Inl e, w) | None \<Rightarrow> (Inl err, w)))"

definition valkey_New :: "('c, 'w) testcontainers \<Rightarrow> go_ctx \<Rightarrow> 'w \<Rightarrow> (go_error + 'c Container) \<times> 'w" where
  "valkey_New T ctx w =
    (case tc_GenericContainer T ctx valkey_request w of
       (Inl err, w) \<Rightarrow> (Inl (Errorf ''start valkey container: %w'' [AErr err]), w)
     | (Inr c, w) \<Rightarrow>
         (case tc_Host T c ctx w of
            (Inl err, w) \<Rightarrow> join_terminate T c ctx (Errorf ''container host: %w'' [AErr err]) w
          | (Inr host, w) \<Rightarrow>
              (case tc_MappedPort T c ctx valkeyPort w of
                 (Inl err, w) \<Rightarrow> join_terminate T c ctx (Errorf ''mapped port: %w'' [AErr err]) w
               | (Inr p, w) \<Rightarrow> (Inr \<lparr>cn_container = c, cn_url = ''redis://'' @ host @ '':'' @ p\<rparr>, w))))"

section \<open>Clients of the tests\<close>

definition t_bind :: "('a, 'w) helper \<Rightarrow> ('a \<Rightarrow> ('b, 'w) helper) \<Rightarrow> ('b, 'w) helper" where
  "t_bind m k t = (case m t of (None, t) \<Rightarrow> (None, t) | (Some a, t) \<Rightarrow> k a t)"

definition t_return :: "'a \<Rightarrow> ('a, 'w) helper" where
  "t_return a t = (Some a, t)"

definition with_cleanup :: "('w \<Rightarrow> bool \<times> 'w) \<Rightarrow> ('a, 'w) helper \<Rightarrow> ('a, 'w) helper" where
  "with_cleanup f m t = m (t_Cleanup f t)"

definition redis_Start :: "('c, 'w) testcontainers \<Rightarrow> ('o, 'r, 'w) redis_lib \<Rightarrow> ('r, 'w) helper" where
  "redis_Start T L =
    t_bind (require (valkey_New T Background)) (\<lambda>container.
    with_cleanup (no_error (cn_Terminate T container Background)) (
    t_bind (require (Pair (rl_ParseURL L (cn_URL container)))) (\<lambda>options.
    let client = rl_NewClient L options
    in with_cleanup (no_error (rl_Close L client)) (t_return client))))"

definition redis_Flush :: "('o, 'r, 'w) redis_lib \<Rightarrow> 'r \<Rightarrow> (unit, 'w) helper" where
  "redis_Flush L client = require_nil (rl_FlushDB L client Background)"

text \<open>
  \<open>UnreachableStore\<close>: its client and the address that the client's dialer reads at each dial. \<open>listen\<close> is
  \<open>net.Listen\<close> on the loopback host with a port of the system's choice, giving the address; \<open>close\<close> closes
  that listener; \<open>dial\<close> is \<open>DialContext\<close>.
\<close>

record 'r UnreachableStore =
  us_Client :: 'r
  us_target :: string

definition NewUnreachableStore ::
  "('w \<Rightarrow> (go_error + string) \<times> 'w) \<Rightarrow> (string \<Rightarrow> 'w \<Rightarrow> go_error option \<times> 'w) \<Rightarrow> ('o, 'r, 'w) redis_lib
     \<Rightarrow> ('r UnreachableStore, 'w) helper" where
  "NewUnreachableStore listen close L =
    t_bind (require listen) (\<lambda>closedAddr.
    t_bind (require_nil (close closedAddr)) (\<lambda>_.
    let client = rl_NewClientDialer L closedAddr
    in with_cleanup (no_error (rl_Close L client)) (t_return \<lparr>us_Client = client, us_target = closedAddr\<rparr>)))"

definition us_Dialer ::
  "(go_ctx \<Rightarrow> string \<Rightarrow> string \<Rightarrow> 'w \<Rightarrow> 'x \<times> 'w) \<Rightarrow> 'r UnreachableStore \<Rightarrow> go_ctx \<Rightarrow> string \<Rightarrow> string \<Rightarrow> 'w \<Rightarrow> 'x \<times> 'w" where
  "us_Dialer dial s ctx network addr = dial ctx network (us_target s)"

definition StartStore ::
  "('c, 'w) testcontainers \<Rightarrow> ('o, 'r, 'w) redis_lib \<Rightarrow> 'r UnreachableStore \<Rightarrow> ('r UnreachableStore, 'w) helper" where
  "StartStore T L s =
    t_bind (require (valkey_New T Background)) (\<lambda>container.
    with_cleanup (no_error (cn_Terminate T container Background)) (
    t_bind (require (Pair (rl_ParseURL L (cn_URL container)))) (\<lambda>options.
    t_return (s\<lparr>us_target := rl_Addr L options\<rparr>))))"

text \<open>
  \<open>RunWithValkey\<close>: \<open>run\<close> is \<open>m.Run\<close> with the package's client; the result is the exit code and the error
  reported on stderr. The deferred calls run in reverse order and their errors are ignored.
\<close>

definition RunWithValkey ::
  "('c, 'w) testcontainers \<Rightarrow> ('o, 'r, 'w) redis_lib \<Rightarrow> ('r \<Rightarrow> 'w \<Rightarrow> int \<times> 'w) \<Rightarrow> 'w \<Rightarrow> (int \<times> go_error option) \<times> 'w" where
  "RunWithValkey T L run w =
    (case valkey_New T Background w of
       (Inl err, w) \<Rightarrow> ((1, Some err), w)
     | (Inr container, w) \<Rightarrow>
         (let (r, w) = (case rl_ParseURL L (cn_URL container) of
              Inl err \<Rightarrow> ((1, Some err), w)
            | Inr options \<Rightarrow>
                (let client = rl_NewClient L options; (code, w) = run client w; (_, w) = rl_Close L client w
                 in ((code, None), w)));
              (_, w) = cn_Terminate T container Background w
          in (r, w)))"

section \<open>The Pub/Sub emulator\<close>

text \<open>The process environment; a name or value that the system cannot hold is an error.\<close>

record 'v os_world =
  ow_env :: "string \<Rightarrow> string option"
  ow_rest :: 'v

definition os_Setenv :: "string \<Rightarrow> string \<Rightarrow> 'v os_world \<Rightarrow> go_error option \<times> 'v os_world" where
  "os_Setenv k v w =
    (if k = [] \<or> CHR ''='' \<in> set k \<or> CHR 0x00 \<in> set k \<or> CHR 0x00 \<in> set v then (Some (ErrOther ''setenv: invalid argument''), w)
     else (None, w\<lparr>ow_env := (ow_env w)(k \<mapsto> v)\<rparr>))"

definition os_Unsetenv :: "string \<Rightarrow> 'v os_world \<Rightarrow> go_error option \<times> 'v os_world" where
  "os_Unsetenv k w = (None, w\<lparr>ow_env := (ow_env w)(k := None)\<rparr>)"

text \<open>The Pub/Sub client \<open>'p\<close>, connected without authentication and without TLS to an endpoint.\<close>

record ('p, 'w) emulator_lib =
  gp_NewClient :: "go_ctx \<Rightarrow> string \<Rightarrow> string \<Rightarrow> 'w \<Rightarrow> (go_error + 'p) \<times> 'w"
  gp_Close :: "'p \<Rightarrow> 'w \<Rightarrow> go_error option \<times> 'w"
  gp_CreateTopic :: "'p \<Rightarrow> go_ctx \<Rightarrow> string \<Rightarrow> 'w \<Rightarrow> go_error option \<times> 'w"
  gp_CreateSubscription :: "'p \<Rightarrow> go_ctx \<Rightarrow> string \<Rightarrow> string \<Rightarrow> 'w \<Rightarrow> go_error option \<times> 'w"
  gp_DeleteSubscription :: "'p \<Rightarrow> go_ctx \<Rightarrow> string \<Rightarrow> 'w \<Rightarrow> go_error option \<times> 'w"
  gp_uuid :: "'w \<Rightarrow> string \<times> 'w"

definition emulatorPortNumber :: string where "emulatorPortNumber = ''8085''"

definition emulatorHostEnv :: string where "emulatorHostEnv = ''PUBSUB_EMULATOR_HOST''"

definition emulatorImage :: string where "emulatorImage = ''gcr.io/google.com/cloudsdktool/cloud-sdk:emulators''"
definition emulatorPort :: string where "emulatorPort = emulatorPortNumber @ ''/tcp''"
definition emulatorLogReady :: string where "emulatorLogReady = ''Server started, listening on '' @ emulatorPortNumber"
definition emulatorStartupTimeout :: int where "emulatorStartupTimeout = 90 * second"
definition idSuffixLength :: nat where "idSuffixLength = 8"

record ('c, 'p) Emulator =
  em_container :: 'c
  em_projectID :: string
  em_client :: 'p

definition emulator_request :: "string \<Rightarrow> ContainerRequest" where
  "emulator_request projectID = \<lparr>cr_Image = emulatorImage, cr_ExposedPorts = [emulatorPort],
     cr_Cmd = [''gcloud'', ''beta'', ''emulators'', ''pubsub'', ''start'', ''--host-port=0.0.0.0:'' @ emulatorPortNumber,
       ''--project='' @ projectID],
     cr_WaitLog = emulatorLogReady, cr_StartupTimeout = emulatorStartupTimeout\<rparr>"

definition newEmulatorClient :: "('p, 'w) emulator_lib \<Rightarrow> go_ctx \<Rightarrow> string \<Rightarrow> string \<Rightarrow> 'w \<Rightarrow> (go_error + 'p) \<times> 'w" where
  "newEmulatorClient P ctx projectID endpoint w =
    (case gp_NewClient P ctx projectID endpoint w of
       (Inl err, w) \<Rightarrow> (Inl (Errorf ''new pubsub client: %w'' [AErr err]), w)
     | (Inr client, w) \<Rightarrow> (Inr client, w))"

definition StartEmulator ::
  "('c, 'v os_world) testcontainers \<Rightarrow> ('p, 'v os_world) emulator_lib \<Rightarrow> go_ctx \<Rightarrow> string \<Rightarrow> 'v os_world
     \<Rightarrow> (go_error + ('c, 'p) Emulator) \<times> 'v os_world" where
  "StartEmulator T P ctx projectID w =
    (case tc_GenericContainer T ctx (emulator_request projectID) w of
       (Inl err, w) \<Rightarrow> (Inl (Errorf ''start pubsub emulator container: %w'' [AErr err]), w)
     | (Inr c, w) \<Rightarrow>
         (case tc_Host T c ctx w of
            (Inl err, w) \<Rightarrow> join_terminate T c ctx (Errorf ''container host: %w'' [AErr err]) w
          | (Inr host, w) \<Rightarrow>
              (case tc_MappedPort T c ctx emulatorPortNumber w of
                 (Inl err, w) \<Rightarrow> join_terminate T c ctx (Errorf ''mapped port: %w'' [AErr err]) w
               | (Inr p, w) \<Rightarrow>
                   (let endpoint = host @ '':'' @ p
                    in case os_Setenv emulatorHostEnv endpoint w of
                         (Some err, w) \<Rightarrow> join_terminate T c ctx (Errorf ''setenv PUBSUB_EMULATOR_HOST: %w'' [AErr err]) w
                       | (None, w) \<Rightarrow>
                           (case newEmulatorClient P ctx projectID endpoint w of
                              (Inl err, w) \<Rightarrow> join_terminate T c ctx err w
                            | (Inr client, w) \<Rightarrow>
                                (Inr \<lparr>em_container = c, em_projectID = projectID, em_client = client\<rparr>, w))))))"

definition wrapped :: "string \<Rightarrow> go_error option \<Rightarrow> go_error option" where
  "wrapped fmt e = map_option (\<lambda>err. Errorf fmt [AErr err]) e"

definition em_Close ::
  "('c, 'v os_world) testcontainers \<Rightarrow> ('p, 'v os_world) emulator_lib \<Rightarrow> ('c, 'p) Emulator \<Rightarrow> go_ctx \<Rightarrow> 'v os_world
     \<Rightarrow> go_error option \<times> 'v os_world" where
  "em_Close T P e ctx w =
    (let (e1, w) = gp_Close P (em_client e) w;
         (e2, w) = tc_Terminate T (em_container e) ctx w;
         (e3, w) = os_Unsetenv emulatorHostEnv w
     in (errors_join [wrapped ''close client: %w'' e1, wrapped ''terminate container: %w'' e2,
           wrapped ''unsetenv PUBSUB_EMULATOR_HOST: %w'' e3], w))"

definition GenerateTopicName :: "('p, 'w) emulator_lib \<Rightarrow> string \<Rightarrow> 'w \<Rightarrow> string \<times> 'w" where
  "GenerateTopicName P prefix w = (let (u, w) = gp_uuid P w in (prefix @ ''-'' @ take idSuffixLength u, w))"

definition topic_path :: "string \<Rightarrow> string \<Rightarrow> string" where
  "topic_path projectID topicName = ''projects/'' @ projectID @ ''/topics/'' @ topicName"

definition CreateTopicWithName ::
  "('p, 'w) emulator_lib \<Rightarrow> ('c, 'p) Emulator \<Rightarrow> string \<Rightarrow> (unit, 'w) helper" where
  "CreateTopicWithName P e topicName =
     require_nil (gp_CreateTopic P (em_client e) Background (topic_path (em_projectID e) topicName))"

definition CreateTopic :: "('p, 'w) emulator_lib \<Rightarrow> ('c, 'p) Emulator \<Rightarrow> string \<Rightarrow> (string, 'w) helper" where
  "CreateTopic P e prefix t =
    (let (topicName, w) = GenerateTopicName P prefix (t_world t)
     in t_bind (CreateTopicWithName P e topicName) (\<lambda>_. t_return topicName) (t\<lparr>t_world := w\<rparr>))"

section \<open>No started container is left behind\<close>

text \<open>The call ended with a termination of \<open>c\<close>, and the error says if that failed.\<close>

definition given_up :: "('c, 'w) testcontainers \<Rightarrow> 'c \<Rightarrow> go_ctx \<Rightarrow> go_error \<Rightarrow> 'w \<Rightarrow> bool" where
  "given_up T c ctx e w' \<longleftrightarrow> (\<exists>w te. tc_Terminate T c ctx w = (te, w') \<and> (\<forall>x. te = Some x \<longrightarrow> errors_is x e))"

lemma join_terminate_gives_up:
  "join_terminate T c ctx err w = (r, w') \<Longrightarrow> \<exists>e. r = Inl e \<and> given_up T c ctx e w'"
  using errors_is_joined [of "[Some err, fst (tc_Terminate T c ctx w)]"]
  by (fastforce simp: join_terminate_def given_up_def errors_join_def List.map_filter_def Let_def
      split: prod.splits option.splits)

lemma valkey_started_or_terminated:
  assumes "tc_GenericContainer T ctx valkey_request w = (Inr c, w1)" and "valkey_New T ctx w = (r, w')"
  shows "case r of Inr cn \<Rightarrow> cn_container cn = c | Inl e \<Rightarrow> given_up T c ctx e w'"
  using assms
  by (auto simp: valkey_New_def split: prod.splits sum.splits dest: join_terminate_gives_up)

lemma emulator_started_or_terminated:
  assumes "tc_GenericContainer T ctx (emulator_request projectID) w = (Inr c, w1)"
    and "StartEmulator T P ctx projectID w = (r, w')"
  shows "case r of Inr em \<Rightarrow> em_container em = c | Inl e \<Rightarrow> given_up T c ctx e w'"
  using assms
  by (auto simp: StartEmulator_def Let_def split: prod.splits sum.splits option.splits dest: join_terminate_gives_up)

text \<open>
  When only the client cannot be made, the container is terminated but the environment keeps its address;
  \<open>Close\<close> removes it, after trying to stop the client and the container whatever their answers.
\<close>

definition keeps_env :: "('v os_world \<Rightarrow> 'x \<times> 'v os_world) \<Rightarrow> bool" where
  "keeps_env f \<longleftrightarrow> (\<forall>w. ow_env (snd (f w)) = ow_env w)"

lemma failed_client_leaves_env:
  assumes "tc_GenericContainer T ctx (emulator_request pid) w = (Inr c, w1)"
    and "tc_Host T c ctx w1 = (Inr host, w2)" and "tc_MappedPort T c ctx emulatorPortNumber w2 = (Inr p, w3)"
    and "CHR 0x00 \<notin> set host" and "CHR 0x00 \<notin> set p"
    and "\<And>w. \<exists>err w'. gp_NewClient P ctx pid (host @ '':'' @ p) w = (Inl err, w')"
    and "keeps_env (gp_NewClient P ctx pid (host @ '':'' @ p))" and "keeps_env (tc_Terminate T c ctx)"
    and "StartEmulator T P ctx pid w = (r, w')"
  shows "\<exists>e. r = Inl e \<and> ow_env w' emulatorHostEnv = Some (host @ '':'' @ p)"
proof -
  let ?w = "w3\<lparr>ow_env := (ow_env w3)(emulatorHostEnv \<mapsto> host @ '':'' @ p)\<rparr>"
  have env: "os_Setenv emulatorHostEnv (host @ '':'' @ p) w3 = (None, ?w)"
    using assms(4,5) by (simp add: os_Setenv_def emulatorHostEnv_def)
  obtain err v where v: "gp_NewClient P ctx pid (host @ '':'' @ p) ?w = (Inl err, v)" using assms(6) by blast
  have "ow_env v = ow_env ?w" using assms(7) v by (metis keeps_env_def snd_conv)
  moreover obtain te u where u: "tc_Terminate T c ctx v = (te, u)" by fastforce
  moreover have "ow_env u = ow_env v" using assms(8) u by (metis keeps_env_def snd_conv)
  ultimately show ?thesis
    using assms(1-3,9) env v
    by (auto simp: StartEmulator_def newEmulatorClient_def join_terminate_def split: option.splits)
qed

lemma close_tries_all:
  assumes "gp_Close P (em_client e) w = (e1, w1)" and "tc_Terminate T (em_container e) ctx w1 = (e2, w2)"
    and "em_Close T P e ctx w = (r, w')"
  shows "w' = w2\<lparr>ow_env := (ow_env w2)(emulatorHostEnv := None)\<rparr>" and "r = None \<longleftrightarrow> e1 = None \<and> e2 = None"
  using assms by (auto simp: em_Close_def os_Unsetenv_def errors_join_None wrapped_def)

section \<open>The end of a test\<close>

text \<open>The client is closed before its container is terminated, and a failure of either fails the test.\<close>

lemma start_then_finish:
  assumes "valkey_New T Background w = (Inr c, w1)" and "rl_ParseURL L (cn_URL c) = Inr options"
    and "rl_Close L (rl_NewClient L options) w1 = (e1, w2)" and "cn_Terminate T c Background w2 = (e2, w3)"
  shows "\<exists>t. redis_Start T L (t_start w) = (Some (rl_NewClient L options), t)
    \<and> t_finish t = (e1 = None \<and> e2 = None, w3)"
  using assms
  by (simp add: redis_Start_def t_bind_def with_cleanup_def t_return_def require_def t_Cleanup_def t_finish_def
      no_error_def t_start_def Let_def)

text \<open>A test that cannot read the URL of its container still terminates it.\<close>

lemma unreadable_url_terminates:
  assumes "valkey_New T Background w = (Inr c, w1)" and "rl_ParseURL L (cn_URL c) = Inl err"
    and "cn_Terminate T c Background w1 = (e2, w2)"
  shows "\<exists>t. redis_Start T L (t_start w) = (None, t) \<and> t_finish t = (False, w2)"
  using assms
  by (simp add: redis_Start_def t_bind_def with_cleanup_def require_def t_Cleanup_def t_finish_def
      no_error_def t_start_def t_Errorf_def Let_def)

text \<open>The unreachable client dials its closed port until a store was started, then the store.\<close>

lemma dials_started_store:
  assumes "valkey_New T Background (t_world t) = (Inr c, w1)" and "rl_ParseURL L (cn_URL c) = Inr options"
  shows "\<exists>s' t'. StartStore T L s t = (Some s', t') \<and> us_Client s' = us_Client s
    \<and> us_Dialer dial s' ctx net addr = dial ctx net (rl_Addr L options)"
  using assms
  by (simp add: StartStore_def t_bind_def with_cleanup_def t_return_def require_def us_Dialer_def fun_eq_iff)

text \<open>\<open>RunWithValkey\<close> gives the code of the tests, and takes down the client before the container.\<close>

lemma run_with_valkey_code:
  assumes "valkey_New T Background w = (Inr c, w1)" and "rl_ParseURL L (cn_URL c) = Inr options"
    and "run (rl_NewClient L options) w1 = (code, w2)"
  shows "RunWithValkey T L run w =
    ((code, None), snd (cn_Terminate T c Background (snd (rl_Close L (rl_NewClient L options) w2))))"
  using assms by (simp add: RunWithValkey_def case_prod_beta)

end
