(* ===== verification/TestSubscription.thy ===== *)
theory TestSubscription
  imports TestContainers Presenter "HOL-Library.Multiset"
begin

text \<open>
  The subscription of internal/adapter/pubsub/pubsubtest/emulator.go and the body of match_made_body.go.
  A subscription is a transition system: the client library calls the callback for each message, at any time
  and several at once; a callback acknowledges and then either sends on the buffered channel or gives up
  when the context is cancelled. \<open>WaitForN\<close> is the relation between the states it starts and ends in; its
  \<open>select\<close> takes any of the ready cases. The first invariant says that no acknowledged message is lost before the
  subscription is stopped.
\<close>

section \<open>Subscriptions\<close>

definition ErrTimeout :: go_error where
  "ErrTimeout = ErrNew ''pubsubtest: timeout waiting for message''"

definition receivedMessageBufferSize :: nat where
  "receivedMessageBufferSize = 64"

record Message =
  Data :: string

text \<open>
  The channel, whether the context is cancelled, whether \<open>done\<close> is closed, the error of \<open>Receive\<close>, and the
  callbacks that acknowledged their message and stand at the \<open>select\<close>; \<open>sb_stopOnce\<close> says that \<open>stop\<close> was called. The last three fields record the history:
  all messages acknowledged, those given up, those that \<open>WaitForN\<close> received.
\<close>

record Subscription =
  sb_ch :: "Message list"
  sb_cancelled :: bool
  sb_stopOnce :: bool
  sb_done :: bool
  sb_receiveErr :: "go_error option"
  sb_sending :: "Message list"
  sb_acked :: "Message list"
  sb_dropped :: "Message list"
  sb_taken :: "Message list"

definition new_Subscription :: Subscription where
  "new_Subscription = \<lparr>sb_ch = [], sb_cancelled = False, sb_stopOnce = False, sb_done = False, sb_receiveErr = None, sb_sending = [],
     sb_acked = [], sb_dropped = [], sb_taken = []\<rparr>"

text \<open>
  \<open>Subscribe\<close>: the subscription is made under a name of its own, or the test ends; at its end the receiving is
  stopped (\<open>stop\<close>, an effect on the world) and the subscription deleted.
\<close>

definition subscription_path :: "string \<Rightarrow> string \<Rightarrow> string" where
  "subscription_path projectID name = ''projects/'' @ projectID @ ''/subscriptions/'' @ name"

definition Subscribe ::
  "('p, 'w) emulator_lib \<Rightarrow> ('w \<Rightarrow> 'w) \<Rightarrow> ('c, 'p) Emulator \<Rightarrow> string \<Rightarrow> (string \<times> Subscription, 'w) helper" where
  "Subscribe P stop e topicName t =
    (let (u, w) = gp_uuid P (t_world t);
         name = topicName @ ''-sub-'' @ take idSuffixLength u;
         path = subscription_path (em_projectID e) name
     in t_bind (require_nil (gp_CreateSubscription P (em_client e) Background path (topic_path (em_projectID e) topicName)))
          (\<lambda>_. with_cleanup (\<lambda>w. no_error (gp_DeleteSubscription P (em_client e) Background path) (stop w))
                 (t_return (name, new_Subscription))) (t\<lparr>t_world := w\<rparr>))"

inductive sub_step :: "Subscription \<Rightarrow> Subscription \<Rightarrow> bool" where
  callback: "\<not> sb_done s \<Longrightarrow>
    sub_step s (s\<lparr>sb_acked := sb_acked s @ [m], sb_sending := sb_sending s @ [m]\<rparr>)"
| send: "sb_sending s = ms @ m # ms' \<Longrightarrow> length (sb_ch s) < receivedMessageBufferSize \<Longrightarrow>
    sub_step s (s\<lparr>sb_sending := ms @ ms', sb_ch := sb_ch s @ [m]\<rparr>)"
| give_up: "sb_sending s = ms @ m # ms' \<Longrightarrow> sb_cancelled s \<Longrightarrow>
    sub_step s (s\<lparr>sb_sending := ms @ ms', sb_dropped := sb_dropped s @ [m]\<rparr>)"
| receive_returns: "sb_sending s = [] \<Longrightarrow> \<not> sb_done s \<Longrightarrow>
    sub_step s (s\<lparr>sb_receiveErr := e, sb_done := True\<rparr>)"
| stop: "sub_step s (s\<lparr>sb_cancelled := True\<rparr>)"

definition sub_take :: "Subscription \<Rightarrow> Subscription" where
  "sub_take s = (case sb_ch s of [] \<Rightarrow> s | m # ms \<Rightarrow> s\<lparr>sb_ch := ms, sb_taken := sb_taken s @ [m]\<rparr>)"

text \<open>\<open>fmt.Errorf\<close> with the error of \<open>Receive\<close>; a nil error is printed as such.\<close>

definition receive_stopped :: "go_error option \<Rightarrow> go_error" where
  "receive_stopped e = Errorf ''pubsubtest: receive stopped: %w''
     [case e of Some err \<Rightarrow> AErr err | None \<Rightarrow> AStr ''%!w(<nil>)'']"

inductive waits ::
  "nat \<Rightarrow> Message list \<Rightarrow> Subscription \<Rightarrow> Message list \<times> go_error option \<Rightarrow> Subscription \<Rightarrow> bool" for n where
  enough: "n \<le> length msgs \<Longrightarrow> waits n msgs s (msgs, None) s"
| others: "length msgs < n \<Longrightarrow> sub_step s s1 \<Longrightarrow> waits n msgs s1 r s' \<Longrightarrow> waits n msgs s r s'"
| message: "length msgs < n \<Longrightarrow> sb_ch s = m # ms \<Longrightarrow> waits n (msgs @ [m]) (sub_take s) r s' \<Longrightarrow> waits n msgs s r s'"
| stopped: "length msgs < n \<Longrightarrow> sb_done s \<Longrightarrow> waits n msgs s (msgs, Some (receive_stopped (sb_receiveErr s))) s"
| timer: "length msgs < n \<Longrightarrow> waits n msgs s (msgs, Some ErrTimeout) s"

definition WaitForN :: "nat \<Rightarrow> Subscription \<Rightarrow> Message list \<times> go_error option \<Rightarrow> Subscription \<Rightarrow> bool" where
  "WaitForN n s r s' \<longleftrightarrow> waits n [] s r s'"

text \<open>
  \<open>stop\<close>: the first call cancels the context and waits for \<open>done\<close>, while callbacks and \<open>Receive\<close> go on; a
  later one finds its work done. (\<open>sub_step.stop\<close> is its cancelling alone.)
\<close>

definition sub_stop :: "Subscription \<Rightarrow> Subscription \<Rightarrow> bool" where
  "sub_stop s s' \<longleftrightarrow>
     (if sb_stopOnce s then s' = s
      else sub_step\<^sup>*\<^sup>* (s\<lparr>sb_stopOnce := True, sb_cancelled := True\<rparr>) s' \<and> sb_done s')"

section \<open>No acknowledged message is lost\<close>

text \<open>The states that callbacks, stops and waits reach.\<close>

inductive sub_reach :: "Subscription \<Rightarrow> bool" where
  start: "sub_reach new_Subscription"
| step: "sub_reach s \<Longrightarrow> sub_step s s' \<Longrightarrow> sub_reach s'"
| stopping: "sub_reach s \<Longrightarrow> sub_reach (s\<lparr>sb_stopOnce := True, sb_cancelled := True\<rparr>)"
| taken: "sub_reach s \<Longrightarrow> sub_reach (sub_take s)"

definition sub_inv :: "Subscription \<Rightarrow> bool" where
  "sub_inv s \<longleftrightarrow>
     mset (sb_acked s) = mset (sb_taken s) + mset (sb_ch s) + mset (sb_sending s) + mset (sb_dropped s)
     \<and> length (sb_ch s) \<le> receivedMessageBufferSize
     \<and> (sb_dropped s \<noteq> [] \<longrightarrow> sb_cancelled s)
     \<and> (sb_done s \<longrightarrow> sb_sending s = [])"

lemma sub_step_inv: "sub_step s s' \<Longrightarrow> sub_inv s \<Longrightarrow> sub_inv s'"
  by (induction rule: sub_step.induct) (auto simp: sub_inv_def)

lemma sub_take_inv: "sub_inv s \<Longrightarrow> sub_inv (sub_take s)"
  by (auto simp: sub_inv_def sub_take_def split: list.split)

lemma sub_reach_inv: "sub_reach s \<Longrightarrow> sub_inv s"
proof (induction rule: sub_reach.induct)
  case start
  then show ?case by (simp add: sub_inv_def new_Subscription_def)
next
  case (stopping s)
  then show ?case by (simp add: sub_inv_def)
qed (simp_all add: sub_step_inv sub_take_inv)

lemma waits_reach: "waits n msgs s r s' \<Longrightarrow> sub_reach s \<Longrightarrow> sub_reach s'"
  by (induction rule: waits.induct) (auto intro: sub_reach.intros)

lemma sub_step_keeps: "sub_step s s' \<Longrightarrow> sb_taken s' = sb_taken s"
  by (induction rule: sub_step.induct) simp_all

text \<open>
  What \<open>WaitForN\<close> returns is what it took from the channel, in order: exactly \<open>n\<close> messages without an error,
  fewer with one, and the error is the time-out or that of a receiving that has stopped.
\<close>

lemma waits_result:
  "waits n msgs s r s' \<Longrightarrow> length msgs \<le> n \<Longrightarrow> \<exists>new. fst r = msgs @ new \<and> sb_taken s' = sb_taken s @ new
     \<and> (case snd r of None \<Rightarrow> length (fst r) = n
        | Some e \<Rightarrow> length (fst r) < n \<and> (e = ErrTimeout \<or> sb_done s' \<and> e = receive_stopped (sb_receiveErr s')))"
proof (induction rule: waits.induct)
  case (others msgs s s1 r s')
  then show ?case by (simp add: sub_step_keeps)
next
  case (message msgs s m ms r s')
  then show ?case by (fastforce simp: sub_take_def)
qed auto

text \<open>
  A subscription of the Pub/Sub tests loses no acknowledged message before it is stopped: at any time each one
  was received by a wait, is in the channel or is about to be sent; and a wait for \<open>n\<close> messages gives
  exactly the next \<open>n\<close> of the channel, or fewer with the time-out or the end of the receiving.
\<close>

theorem no_message_lost:
  assumes "sub_reach s" and "WaitForN n s (msgs, e) s'"
  shows "(\<not> sb_cancelled s' \<longrightarrow> mset (sb_acked s') = mset (sb_taken s') + mset (sb_ch s') + mset (sb_sending s'))
    \<and> sb_taken s' = sb_taken s @ msgs
    \<and> (case e of None \<Rightarrow> length msgs = n
         | Some err \<Rightarrow> length msgs < n \<and> (err = ErrTimeout \<or> sb_done s' \<and> err = receive_stopped (sb_receiveErr s')))"
proof -
  have "sub_inv s'" using waits_reach [of n "[]" s "(msgs, e)" s'] assms sub_reach_inv by (simp add: WaitForN_def)
  then have "\<not> sb_cancelled s' \<longrightarrow> mset (sb_acked s') = mset (sb_taken s') + mset (sb_ch s') + mset (sb_sending s')"
    by (auto simp: sub_inv_def)
  with waits_result [OF assms(2) [unfolded WaitForN_def]] show ?thesis by (auto split: option.splits)
qed

text \<open>One message arrives during the wait for one.\<close>

definition example_message :: Message where
  "example_message = \<lparr>Data = ''m''\<rparr>"

definition one_sent :: Subscription where
  "one_sent = new_Subscription\<lparr>sb_acked := [example_message], sb_ch := [example_message]\<rparr>"

lemma one_sent_reach: "sub_reach one_sent"
proof -
  have "sub_reach (new_Subscription\<lparr>sb_acked := [example_message], sb_sending := [example_message]\<rparr>)"
    using sub_reach.step [OF sub_reach.start sub_step.callback [of new_Subscription example_message]]
    by (simp add: new_Subscription_def)
  from sub_reach.step [OF this sub_step.send [of _ "[]" example_message "[]"]] show ?thesis
    by (simp add: one_sent_def new_Subscription_def receivedMessageBufferSize_def)
qed

lemma no_message_lost_witness:
  "sb_taken (sub_take one_sent) = [example_message]"
proof -
  have "WaitForN 1 one_sent ([example_message], None) (sub_take one_sent)"
    unfolding WaitForN_def
    by (rule waits.message [where m = example_message and ms = "[]"]) (auto simp: one_sent_def intro: waits.enough)
  from no_message_lost [OF one_sent_reach this] show ?thesis
    by (simp add: one_sent_def new_Subscription_def)
qed

text \<open>
  When the receiving has stopped, the \<open>select\<close> may take the closed \<open>done\<close> although a message is in the channel,
  so that a message that has arrived is not among those returned.
\<close>

lemma stopped_may_leave_message:
  "\<exists>s s'. sub_reach s \<and> WaitForN 1 s ([], Some (receive_stopped (sb_receiveErr s))) s' \<and> sb_ch s' = [example_message]"
proof -
  let ?s = "one_sent\<lparr>sb_receiveErr := Some (ErrOther ''unavailable''), sb_done := True\<rparr>"
  have "sub_reach ?s"
    by (rule sub_reach.step [OF one_sent_reach sub_step.receive_returns]) (simp_all add: one_sent_def new_Subscription_def)
  moreover have "WaitForN 1 ?s ([], Some (receive_stopped (sb_receiveErr ?s))) ?s"
    unfolding WaitForN_def by (rule waits.stopped) simp_all
  ultimately show ?thesis by (intro exI [of _ ?s] conjI) (simp_all add: one_sent_def)
qed

section \<open>Stopping\<close>

text \<open>
  \<open>stop\<close> can always return: a callback that stands at its \<open>select\<close> can give up once the context is cancelled,
  whatever the channel holds, and \<open>Receive\<close> returns when no callback runs. When it has returned, no callback is
  left that could still send.
\<close>

lemma callbacks_give_up:
  "sb_cancelled s \<Longrightarrow> \<exists>s'. sub_step\<^sup>*\<^sup>* s s' \<and> sb_sending s' = [] \<and> sb_done s' = sb_done s"
proof (induction "sb_sending s" arbitrary: s)
  case Nil
  then show ?case by auto
next
  case (Cons m ms)
  let ?s = "s\<lparr>sb_sending := [] @ ms, sb_dropped := sb_dropped s @ [m]\<rparr>"
  have "sub_step s ?s" using Cons by (intro sub_step.give_up) simp_all
  moreover obtain s' where "sub_step\<^sup>*\<^sup>* ?s s'" "sb_sending s' = []" "sb_done s' = sb_done s"
    using Cons.hyps(1) [of ?s] Cons.prems by auto
  ultimately show ?case by (blast intro: converse_rtranclp_into_rtranclp)
qed

lemma stop_can_return: "\<exists>s'. sub_stop s s'"
proof (cases "sb_stopOnce s")
  case False
  obtain s1 where s1: "sub_step\<^sup>*\<^sup>* (s\<lparr>sb_stopOnce := True, sb_cancelled := True\<rparr>) s1" "sb_sending s1 = []"
    using callbacks_give_up [of "s\<lparr>sb_stopOnce := True, sb_cancelled := True\<rparr>"] by auto
  show ?thesis
  proof (cases "sb_done s1")
    case True
    then show ?thesis using s1(1) False by (auto simp: sub_stop_def)
  next
    case running: False
    have "sub_step s1 (s1\<lparr>sb_receiveErr := None, sb_done := True\<rparr>)"
      by (rule sub_step.receive_returns) (use s1(2) running in simp_all)
    then have "sub_step\<^sup>*\<^sup>* (s\<lparr>sb_stopOnce := True, sb_cancelled := True\<rparr>) (s1\<lparr>sb_receiveErr := None, sb_done := True\<rparr>)"
      by (rule rtranclp.rtrancl_into_rtrancl [OF s1(1)])
    then show ?thesis using False by (auto simp: sub_stop_def)
  qed
qed (simp add: sub_stop_def)

lemma stopped_quiet:
  assumes "sub_reach s" and "\<not> sb_stopOnce s" and "sub_stop s s'"
  shows "sb_sending s' = [] \<and> sb_done s'"
proof -
  have "sub_step\<^sup>*\<^sup>* (s\<lparr>sb_stopOnce := True, sb_cancelled := True\<rparr>) s'"
    using assms(2,3) by (simp add: sub_stop_def)
  then have "sub_reach s'"
    by induction (auto intro: sub_reach.intros assms(1))
  then show ?thesis using assms(2,3) sub_reach_inv [of s'] by (simp add: sub_inv_def sub_stop_def)
qed

section \<open>The body of a match\<close>

text \<open>
  \<open>%q\<close>: a double-quoted Go string. \<open>printable\<close> is \<open>strconv.IsPrint\<close> of a character outside of ASCII.
\<close>

definition hex_digits :: "nat \<Rightarrow> nat \<Rightarrow> string" where
  "hex_digits n r = map (\<lambda>i. hex_char (r div 16 ^ i mod 16)) (rev [0..<n])"

definition quote_rune :: "(nat \<Rightarrow> bool) \<Rightarrow> nat \<Rightarrow> string \<Rightarrow> string" where
  "quote_rune printable r text =
    (if r = 0x22 \<or> r = 0x5C then CHR 0x5C # text
     else if (if r < 128 then 32 \<le> r \<and> r < 127 else printable r) then text
     else if r = 7 then [CHR 0x5C, CHR ''a'']
     else if r = 8 then [CHR 0x5C, CHR ''b'']
     else if r = 12 then [CHR 0x5C, CHR ''f'']
     else if r = 10 then [CHR 0x5C, CHR ''n'']
     else if r = 13 then [CHR 0x5C, CHR ''r'']
     else if r = 9 then [CHR 0x5C, CHR ''t'']
     else if r = 11 then [CHR 0x5C, CHR ''v'']
     else if r < 32 \<or> r = 127 then [CHR 0x5C, CHR ''x''] @ hex_digits 2 r
     else if r < 0x10000 then [CHR 0x5C, CHR ''u''] @ hex_digits 4 r
     else [CHR 0x5C, CHR ''U''] @ hex_digits 8 r)"

function quote_chars :: "(nat \<Rightarrow> bool) \<Rightarrow> string \<Rightarrow> string" where
  "quote_chars printable [] = []"
| "quote_chars printable (c # cs) =
    (let (r, n) = decode_rune (c # cs) in
     (if r = rune_error \<and> n = 1 then [CHR 0x5C, CHR ''x''] @ hex_digits 2 (of_char c)
      else quote_rune printable r (take n (c # cs))) @ quote_chars printable (drop n (c # cs)))"
  by pat_completeness auto
termination
proof (relation "measure (length \<circ> snd)")
  fix printable :: "nat \<Rightarrow> bool" and c :: char and cs x r n
  assume "x = decode_rune (c # cs)" "(r, n) = x"
  then have "0 < n" using decode_rune_width [of "c # cs"] by (metis list.discI snd_conv)
  then show "((printable, drop n (c # cs)), (printable, c # cs)) \<in> measure (length \<circ> snd)" by simp
qed auto

definition go_quote :: "(nat \<Rightarrow> bool) \<Rightarrow> string \<Rightarrow> string" where
  "go_quote printable s = CHR 0x22 # quote_chars printable s @ [CHR 0x22]"

definition BuildMatchMadeBody :: "(nat \<Rightarrow> bool) \<Rightarrow> string \<Rightarrow> string" where
  "BuildMatchMadeBody printable matchID =
     ''{'' @ json_key ''event_type'' @ [CHR 0x22] @ ''match_made'' @ [CHR 0x22] @ '','' @
     json_key ''match_id'' @ go_quote printable matchID @ '','' @
     json_key ''players'' @ ''[{'' @ json_key ''player_id'' @ [CHR 0x22] @ ''tst-player-a'' @ [CHR 0x22] @ '','' @
     json_key ''deck_id'' @ ''1,'' @ json_key ''name'' @ [CHR 0x22] @ ''tst-name-a'' @ [CHR 0x22] @ '','' @
     json_key ''level'' @ ''1},{'' @ json_key ''player_id'' @ [CHR 0x22] @ ''tst-player-b'' @ [CHR 0x22] @ '','' @
     json_key ''deck_id'' @ ''2,'' @ json_key ''name'' @ [CHR 0x22] @ ''tst-name-b'' @ [CHR 0x22] @ '','' @
     json_key ''level'' @ ''2}]}''"

definition built_event :: "string \<Rightarrow> MatchMadeEvent" where
  "built_event matchID = \<lparr>mm_MatchID = matchID, mm_Players =
     [\<lparr>mp_PlayerID = ''tst-player-a'', mp_DeckID = 1, mp_Name = ''tst-name-a'', mp_Level = 1\<rparr>,
      \<lparr>mp_PlayerID = ''tst-player-b'', mp_DeckID = 2, mp_Name = ''tst-name-b'', mp_Level = 2\<rparr>]\<rparr>"

lemma quoted_safe:
  "list_all (\<lambda>c. html_safe (of_char c) \<and> of_char c \<noteq> (127 :: nat)) s \<Longrightarrow> quote_chars printable s = s \<and> json_chars s = s"
  by (induction s) (auto simp: decode_rune_def html_safe_def quote_rune_def rune_error_def)

text \<open>
  For an identifier of plain characters, as the matcher generates, the tests' body is the payload that the
  presenter makes for a match with these players.
\<close>

lemma built_body_is_payload:
  assumes "list_all (\<lambda>c. html_safe (of_char c) \<and> of_char c \<noteq> (127 :: nat)) matchID"
  shows "ToMatchMadeWire (built_event matchID) = Inr (EventTypeMatchMade, BuildMatchMadeBody printable matchID)"
proof -
  have digits: "fmt_int 1 = ''1''" "fmt_int 2 = ''2''"
    by (simp_all add: fmt_int_def fmt_nat.simps digit_char_def char_of_eq_iff del: One_nat_def)
  have "quote_chars printable matchID = matchID" "json_chars matchID = matchID"
    using quoted_safe [OF assms] by simp_all
  then show ?thesis
    by (simp add: ToMatchMadeWire_eq BuildMatchMadeBody_def built_event_def wire_event_def wire_player_def marshal_event_def
        marshal_player_def json_string_def go_quote_def html_safe_def EventTypeMatchMade_def digits json_key_def)
qed

end
