(* ===== verification/TestRun.thy ===== *)
theory TestRun
  imports VirtualClock GoTesting
begin

text \<open>
  How the matcher's tests wait: the waits of internal/usecase/matcher/matchertest/clock.go on the virtual clock
  with the channel \<open>changed\<close> that wakes them, and the gates, the polling and the end of a run of
  internal/usecase/matcher/matchertest/run.go. A wait runs beside the goroutines that use the clock, so it is a
  transition system; the first property says that no wake-up is lost. Loops over real time are functions of their
  polls: what each poll sees and whether the time limit is still ahead; \<open>None\<close> is a loop still polling.
\<close>

section \<open>The clock with its waiters\<close>

text \<open>
  The \<open>i\<close>-th channel \<open>changed\<close> of the clock is closed when \<open>i < wt_changed\<close>; the one with number
  \<open>wt_changed\<close> is the current one.
\<close>

record watched =
  wt_clock :: vclock
  wt_changed :: nat

definition notifyChanged :: "watched \<Rightarrow> watched" where
  "notifyChanged w = w\<lparr>wt_changed := wt_changed w + 1\<rparr>"

inductive clock_step :: "watched \<Rightarrow> watched \<Rightarrow> bool" where
  after: "clock_step w (notifyChanged (w\<lparr>wt_clock := snd (vc_After d (wt_clock w))\<rparr>))"
| new_ticker: "clock_step w (notifyChanged (w\<lparr>wt_clock := snd (vc_NewTicker d (wt_clock w))\<rparr>))"
| stop: "clock_step w (notifyChanged (w\<lparr>wt_clock := vc_Stop ch (wt_clock w)\<rparr>))"
| advance: "vc_Advance d (wt_clock w) = Some c \<Longrightarrow> clock_step w (w\<lparr>wt_clock := c\<rparr>)"
| receive: "clock_step w (w\<lparr>wt_clock := snd (vc_receive ch (wt_clock w))\<rparr>)"

text \<open>
  A call of \<open>waitFor\<close>: before a look at the condition, at the \<open>select\<close> with the channel it found, or returned.
\<close>

datatype waiter = Looking | Selecting nat | Returned "go_error option"

text \<open>The third part is whether the context is done, \<open>err\<close> its error then.\<close>

inductive waitFor :: "go_error \<Rightarrow> (vclock \<Rightarrow> bool) \<Rightarrow> watched \<times> waiter \<times> bool \<Rightarrow> watched \<times> waiter \<times> bool \<Rightarrow> bool"
  for err isSatisfied where
  others: "clock_step w w' \<Longrightarrow> waitFor err isSatisfied (w, s, x) (w', s, x)"
| satisfied: "isSatisfied (wt_clock w) \<Longrightarrow> waitFor err isSatisfied (w, Looking, x) (w, Returned None, x)"
| not_yet: "\<not> isSatisfied (wt_clock w) \<Longrightarrow> waitFor err isSatisfied (w, Looking, x) (w, Selecting (wt_changed w), x)"
| changed: "ch < wt_changed w \<Longrightarrow> waitFor err isSatisfied (w, Selecting ch, x) (w, Looking, x)"
| expires: "waitFor err isSatisfied (w, s, False) (w, s, True)"
| cancelled: "waitFor err isSatisfied (w, Selecting ch, True) (w, Returned (Some err), True)"

inductive_cases clock_stepE: "clock_step w w'"

definition WaitForTimers :: "go_error \<Rightarrow> nat \<Rightarrow> watched \<times> waiter \<times> bool \<Rightarrow> watched \<times> waiter \<times> bool \<Rightarrow> bool" where
  "WaitForTimers err n = waitFor err (\<lambda>c. n \<le> length (vc_timers c))"

definition WaitForTickers :: "go_error \<Rightarrow> nat \<Rightarrow> watched \<times> waiter \<times> bool \<Rightarrow> watched \<times> waiter \<times> bool \<Rightarrow> bool" where
  "WaitForTickers err n = waitFor err (\<lambda>c. n \<le> countActiveTickers c)"

text \<open>
  \<open>WaitForTicksConsumed\<close> polls: each poll is the clock that \<open>hasUnreadTick\<close> sees, and whether the following
  \<open>select\<close> takes the end of the context.
\<close>

fun WaitForTicksConsumed :: "go_error \<Rightarrow> (vclock \<times> bool) list \<Rightarrow> go_error option option" where
  "WaitForTicksConsumed err [] = None"
| "WaitForTicksConsumed err ((c, cancelled) # polls) =
    (if \<not> hasUnreadTick c then Some None
     else if cancelled then Some (Some err) else WaitForTicksConsumed err polls)"

section \<open>No wake-up is lost\<close>

text \<open>Without a notification, nothing that these waits look at becomes true.\<close>

definition only_notified :: "(vclock \<Rightarrow> bool) \<Rightarrow> bool" where
  "only_notified P \<longleftrightarrow> (\<forall>w w'. clock_step w w' \<longrightarrow> wt_changed w' = wt_changed w \<longrightarrow> P (wt_clock w') \<longrightarrow> P (wt_clock w))"

lemma clock_step_changed: "clock_step w w' \<Longrightarrow> wt_changed w \<le> wt_changed w'"
  by (auto elim!: clock_stepE simp: notifyChanged_def)

text \<open>\<open>Advance\<close> makes no timer and starts no ticker, and leaves nothing due.\<close>

lemma due_fire_shrinks:
  "set (vc_timers (due_fire d c)) \<subseteq> set (vc_timers c)"
  "length (vc_timers (due_fire d c)) \<le> length (vc_timers c)"
  "countActiveTickers (due_fire d c) = countActiveTickers c"
proof -
  have "length (filter tk_isActive (map (\<lambda>u. if tk_ch u = ch then u\<lparr>tk_next := tk_next u + tk_interval u\<rparr> else u) ts))
      = length (filter tk_isActive ts)" for ts ch
    by (induction ts) auto
  then show "set (vc_timers (due_fire d c)) \<subseteq> set (vc_timers c)"
    "length (vc_timers (due_fire d c)) \<le> length (vc_timers c)"
    "countActiveTickers (due_fire d c) = countActiveTickers c"
    by (cases d; auto simp: due_fire_def fireTimer_def fireTicker_def countActiveTickers_def)+
qed

lemma advance_loop_shrinks:
  assumes "advance_loop target c = Some c'"
  shows "set (vc_timers c') \<subseteq> set (vc_timers c) \<and> length (vc_timers c') \<le> length (vc_timers c)
    \<and> countActiveTickers c' = countActiveTickers c \<and> dues target c' = []"
proof (rule advance_loop.raw_induct [OF _ assms, of "\<lambda>target c c'. set (vc_timers c') \<subseteq> set (vc_timers c)
    \<and> length (vc_timers c') \<le> length (vc_timers c) \<and> countActiveTickers c' = countActiveTickers c \<and> dues target c' = []"])
  fix loop target c r
  assume IH: "\<And>target c r. loop target c = Some r \<Longrightarrow> set (vc_timers r) \<subseteq> set (vc_timers c)
      \<and> length (vc_timers r) \<le> length (vc_timers c) \<and> countActiveTickers r = countActiveTickers c \<and> dues target r = []"
    and run: "(case earliestDue target c of None \<Rightarrow> Some c
      | Some d \<Rightarrow> loop target (due_fire d (c\<lparr>vc_now := due_at d\<rparr>))) = Some r"
  show "set (vc_timers r) \<subseteq> set (vc_timers c) \<and> length (vc_timers r) \<le> length (vc_timers c)
      \<and> countActiveTickers r = countActiveTickers c \<and> dues target r = []"
  proof (cases "earliestDue target c")
    case None
    with run show ?thesis by (simp add: earliestDue_None)
  next
    case (Some d)
    with run have "loop target (due_fire d (c\<lparr>vc_now := due_at d\<rparr>)) = Some r" by simp
    from IH [OF this] due_fire_shrinks [of d "c\<lparr>vc_now := due_at d\<rparr>"] show ?thesis
      by (simp add: countActiveTickers_def) blast
  qed
qed

lemma Advance_shrinks:
  assumes "vc_Advance d c = Some c'"
  shows "set (vc_timers c') \<subseteq> set (vc_timers c) \<and> length (vc_timers c') \<le> length (vc_timers c)
    \<and> countActiveTickers c' = countActiveTickers c \<and> list_all (\<lambda>t. vc_now c + d < tm_at t) (vc_timers c')"
proof -
  obtain c1 where c1: "advance_loop (vc_now c + d) c = Some c1" "c' = c1\<lparr>vc_now := vc_now c + d\<rparr>"
    using assms by (auto simp: vc_Advance_def Let_def)
  have "\<not> tm_at t \<le> vc_now c + d" if "t \<in> set (vc_timers c1)" for t
    using advance_loop_shrinks [OF c1(1)] in_dues(1) [of t "vc_now c + d" c1] that by auto
  then show ?thesis
    using advance_loop_shrinks [OF c1(1)] c1(2) by (auto simp: list_all_iff countActiveTickers_def not_le)
qed

lemma waits_only_notified:
  "only_notified (\<lambda>c. n \<le> length (vc_timers c))" "only_notified (\<lambda>c. n \<le> countActiveTickers c)"
  by (auto simp: only_notified_def notifyChanged_def vc_receive_def countActiveTickers_def
      elim!: clock_stepE dest: Advance_shrinks)

definition waiter_inv :: "(vclock \<Rightarrow> bool) \<Rightarrow> watched \<times> waiter \<times> bool \<Rightarrow> bool" where
  "waiter_inv P = (\<lambda>(w, s, x). (\<forall>ch. s = Selecting ch \<longrightarrow> ch \<le> wt_changed w \<and> (ch = wt_changed w \<longrightarrow> \<not> P (wt_clock w)))
     \<and> (\<forall>e. s = Returned (Some e) \<longrightarrow> x))"

lemma waitFor_inv:
  assumes "only_notified P"
  shows "waitFor err P a b \<Longrightarrow> waiter_inv P a \<Longrightarrow> waiter_inv P b"
proof (induction rule: waitFor.induct)
  case (others w w' s x)
  have "ch \<le> wt_changed w' \<and> (ch = wt_changed w' \<longrightarrow> \<not> P (wt_clock w'))" if "s = Selecting ch" for ch
    using others that clock_step_changed [OF others(1)] assms
    by (fastforce simp: waiter_inv_def only_notified_def)
  with others show ?case by (auto simp: waiter_inv_def)
qed (auto simp: waiter_inv_def)

lemma waits_reached:
  assumes "only_notified P" and "(waitFor err P)\<^sup>*\<^sup>* (w0, Looking, x0) b"
  shows "waiter_inv P b"
  using assms(2)
proof (induction rule: rtranclp_induct)
  case base
  then show ?case by (simp add: waiter_inv_def)
next
  case (step b c)
  then show ?case using waitFor_inv [OF assms(1)] by blast
qed

text \<open>
  C38. A wait for timers or for tickers loses no wake-up: in every interleaving with the goroutines that use the
  clock, a wait that stands at its \<open>select\<close> while its condition holds can go on, since its channel has been closed;
  and it returns an error only when its context is done.
\<close>

theorem no_lost_wakeup:
  assumes "(wait, P) \<in> {(WaitForTimers err n, \<lambda>c. n \<le> length (vc_timers c)),
      (WaitForTickers err n, \<lambda>c. n \<le> countActiveTickers c)}"
    and "wait\<^sup>*\<^sup>* (w0, Looking, x0) (w, s, x)"
  shows "(\<forall>ch. s = Selecting ch \<longrightarrow> P (wt_clock w) \<longrightarrow> wait (w, s, x) (w, Looking, x))
    \<and> (\<forall>e. s = Returned (Some e) \<longrightarrow> x)"
proof -
  have wait: "wait = waitFor err P" and "only_notified P"
    using assms(1) waits_only_notified by (auto simp: WaitForTimers_def WaitForTickers_def)
  then have "waiter_inv P (w, s, x)" using assms(2) waits_reached by blast
  then have inv: "s = Selecting ch \<Longrightarrow> P (wt_clock w) \<Longrightarrow> ch < wt_changed w" "s = Returned (Some e) \<Longrightarrow> x" for ch e
    by (auto simp: waiter_inv_def order.order_iff_strict)
  then show ?thesis by (auto simp: wait intro: waitFor.changed)
qed

definition example_watched :: watched where
  "example_watched = \<lparr>wt_clock = NewClock 0, wt_changed = 0\<rparr>"

lemma no_lost_wakeup_witness:
  "\<exists>w. WaitForTimers (ErrOther ''deadline'') 1 (w, Selecting 0, False) (w, Looking, False)"
proof -
  let ?w = "notifyChanged (example_watched\<lparr>wt_clock := snd (vc_After 3 (wt_clock example_watched))\<rparr>)"
  let ?step = "WaitForTimers (ErrOther ''deadline'') 1"
  have "\<not> 1 \<le> length (vc_timers (wt_clock example_watched))" by (simp add: example_watched_def NewClock_def)
  from waitFor.not_yet [of "\<lambda>c. 1 \<le> length (vc_timers c)", OF this]
  have a: "?step (example_watched, Looking, False) (example_watched, Selecting 0, False)"
    unfolding WaitForTimers_def by (simp add: example_watched_def)
  have b: "?step (example_watched, Selecting 0, False) (?w, Selecting 0, False)"
    unfolding WaitForTimers_def by (intro waitFor.others clock_step.after)
  from a b have r: "?step\<^sup>*\<^sup>* (example_watched, Looking, False) (?w, Selecting 0, False)"
    by (rule converse_rtranclp_into_rtranclp [OF _ r_into_rtranclp])
  have "1 \<le> length (vc_timers (wt_clock ?w))"
    by (simp add: example_watched_def notifyChanged_def vc_After_def NewClock_def Let_def)
  with no_lost_wakeup [OF _ r, of "\<lambda>c. 1 \<le> length (vc_timers c)"] show ?thesis by blast
qed

section \<open>Gates and polling\<close>

definition WaitLimit :: int where "WaitLimit = 5 * second"
definition PollInterval :: int where "PollInterval = second div 500"
definition quietPolls :: nat where "quietPolls = 8"
definition shutdownClockAdvance :: int where "shutdownClockAdvance = 3600 * second"

record Gate =
  gt_opened :: bool

definition NewGate :: Gate where "NewGate = \<lparr>gt_opened = False\<rparr>"

text \<open>\<open>Open\<close> closes the channel once; \<open>Opened\<close> can be received from when it is closed.\<close>

definition Open :: "Gate \<Rightarrow> Gate" where
  "Open g = (if gt_opened g then g else g\<lparr>gt_opened := True\<rparr>)"

definition Opened :: "Gate \<Rightarrow> bool" where
  "Opened g = gt_opened g"

definition WaitContext :: "('w \<Rightarrow> 'w) \<Rightarrow> 'w testing \<Rightarrow> go_ctx \<times> 'w testing" where
  "WaitContext cancel t = (WithTimeout Background WaitLimit, t_Cleanup (\<lambda>w. (True, cancel w)) t)"

text \<open>Each poll: whether the deadline is ahead, and the activity after the pause. The result is whether it was quiet.\<close>

fun quiet_polls :: "nat \<Rightarrow> int \<Rightarrow> (bool \<times> int) list \<Rightarrow> bool option" where
  "quiet_polls steady seen [] = (if steady < quietPolls then None else Some True)"
| "quiet_polls steady seen ((before, current) # polls) =
    (if steady < quietPolls \<and> before
     then (if current \<noteq> seen then quiet_polls 0 current polls else quiet_polls (steady + 1) seen polls)
     else Some (\<not> steady < quietPolls))"

definition WaitUntilQuiet :: "int \<Rightarrow> (bool \<times> int) list \<Rightarrow> 'w testing \<Rightarrow> (unit option \<times> 'w testing) option" where
  "WaitUntilQuiet first polls t =
    map_option (\<lambda>ok. (Some (), if ok then t else t_Errorf t)) (quiet_polls 0 first polls)"

section \<open>Runs\<close>

text \<open>A run: whether its context is cancelled and whether it has returned.\<close>

record Running =
  rn_cancelled :: bool
  rn_done :: bool

definition Shutdown :: "Running \<Rightarrow> Running" where
  "Shutdown r = r\<lparr>rn_cancelled := True\<rparr>"

definition IsDone :: "Running \<Rightarrow> bool" where
  "IsDone r = rn_done r"

text \<open>
  The cleanup of \<open>StartRun\<close> on the run, the clock and the rest \<open>'e\<close> of the test: after the shutdown it polls until
  the run has returned and \<open>isIdle\<close>, advancing the clock by an hour each time; \<open>pause\<close> is what the other goroutines do
  during a pause. \<open>None\<close> when the clock does not return or the polls given do not suffice.
\<close>

type_synonym 'e run_world = "Running \<times> vclock \<times> 'e"

fun drain_polls :: "('e \<Rightarrow> bool) \<Rightarrow> (bool \<times> ('e run_world \<Rightarrow> 'e run_world)) list \<Rightarrow> 'e run_world \<Rightarrow> (bool \<times> 'e run_world) option" where
  "drain_polls isIdle [] (r, c, e) = (if IsDone r \<and> isIdle e then Some (True, r, c, e) else None)"
| "drain_polls isIdle ((before, pause) # polls) (r, c, e) =
    (if before \<and> (\<not> IsDone r \<or> \<not> isIdle e)
     then (case vc_Advance shutdownClockAdvance c of
         None \<Rightarrow> None
       | Some c \<Rightarrow> drain_polls isIdle polls (pause (r, c, e)))
     else Some (IsDone r \<and> isIdle e, r, c, e))"

definition run_cleanup ::
  "('e \<Rightarrow> bool) \<Rightarrow> (bool \<times> ('e run_world \<Rightarrow> 'e run_world)) list \<Rightarrow> 'e run_world \<Rightarrow> (bool \<times> 'e run_world) option" where
  "run_cleanup isIdle polls w = (case w of (r, c, e) \<Rightarrow> drain_polls isIdle polls (Shutdown r, c, e))"

text \<open>
  \<open>StartRun\<close>: a fresh run beside the clock and the rest, and its cleanup; the goroutine closes \<open>done\<close> when \<open>run\<close>
  returns, which a pause of the cleanup may contain.
\<close>

definition run_returns :: "'e run_world \<Rightarrow> 'e run_world" where
  "run_returns w = (case w of (r, rest) \<Rightarrow> (r\<lparr>rn_done := True\<rparr>, rest))"

definition StartRun ::
  "vclock \<Rightarrow> ('e \<Rightarrow> bool) \<Rightarrow> (bool \<times> ('e run_world \<Rightarrow> 'e run_world)) list \<Rightarrow> 'e
     \<Rightarrow> 'e run_world \<times> ('e run_world \<Rightarrow> (bool \<times> 'e run_world) option)" where
  "StartRun c isIdle polls e = ((\<lparr>rn_cancelled = False, rn_done = False\<rparr>, c, e), run_cleanup isIdle polls)"

text \<open>A quiet result was preceded by nine equal readings in a row, the first reading counted.\<close>

lemma quiet_polls_True:
  "quiet_polls steady seen polls = Some True \<Longrightarrow> steady \<le> quietPolls \<Longrightarrow>
     \<exists>pre x post. replicate (Suc steady) seen @ map snd polls = pre @ replicate (Suc quietPolls) x @ post"
proof (induction steady seen polls rule: quiet_polls.induct)
  case (1 steady seen)
  then have "steady = quietPolls" by (simp split: if_splits)
  then show ?case by (intro exI [of _ "[]"] exI [of _ seen]) simp
next
  case (2 steady seen before current polls)
  consider (more) "steady < quietPolls" "before" | (enough) "steady = quietPolls"
    using "2.prems" by (auto split: if_splits)
  then show ?case
  proof cases
    case more
    show ?thesis
    proof (cases "current \<noteq> seen")
      case True
      then obtain pre x post where "current # map snd polls = pre @ replicate (Suc quietPolls) x @ post"
        using 2 more by auto
      then show ?thesis
        by (intro exI [of _ "replicate (Suc steady) seen @ pre"] exI [of _ x] exI [of _ post]) simp
    next
      case False
      then show ?thesis using 2 more by (auto simp: replicate_app_Cons_same)
    qed
  next
    case enough
    then show ?thesis
      by (intro exI [of _ "[]"] exI [of _ seen] exI [of _ "map snd ((before, current) # polls)"]) simp
  qed
qed

text \<open>The cleanup is content exactly when the run has returned and everything is idle.\<close>

lemma drain_polls_content:
  "drain_polls isIdle polls (r, c, e) = Some (ok, r', c', e') \<Longrightarrow> ok \<longleftrightarrow> IsDone r' \<and> isIdle e'"
proof (induction polls arbitrary: r c e)
  case (Cons p polls)
  obtain before pause where p: "p = (before, pause)" by force
  show ?case
  proof (cases "before \<and> (\<not> IsDone r \<or> \<not> isIdle e)")
    case True
    then obtain c1 where "vc_Advance shutdownClockAdvance c = Some c1"
      "drain_polls isIdle polls (pause (r, c1, e)) = Some (ok, r', c', e')"
      using Cons.prems p by (auto split: option.splits)
    then show ?thesis using Cons.IH by (metis prod_cases3)
  next
    case False
    then show ?thesis using Cons.prems p by auto
  qed
qed (auto split: if_splits)

text \<open>
  Each of its advances ends every wait of at most an hour that was pending: no timer set for up to an hour
  later is left.
\<close>

lemma shutdown_ends_waits:
  assumes "vc_Advance shutdownClockAdvance c = Some c'" and "list_all (\<lambda>t. tm_at t \<le> vc_now c + shutdownClockAdvance) (vc_timers c)"
  shows "vc_timers c' = []"
proof -
  note left = Advance_shrinks [OF assms(1), unfolded list_all_iff]
  have "t \<notin> set (vc_timers c')" for t
  proof
    assume t: "t \<in> set (vc_timers c')"
    with left have "t \<in> set (vc_timers c)" "vc_now c + shutdownClockAdvance < tm_at t" by auto
    with assms(2) show False by (auto simp: list_all_iff)
  qed
  then show ?thesis by (cases "vc_timers c'") auto
qed

text \<open>A run that returns in the first pause after its shutdown, with everything else idle, ends without a complaint.\<close>

lemma started_run_ends:
  assumes "vc_Advance shutdownClockAdvance c = Some c'" and "isIdle e"
  shows "case StartRun c isIdle [(True, run_returns)] e of (w, cleanup) \<Rightarrow>
    cleanup w = Some (True, \<lparr>rn_cancelled = True, rn_done = True\<rparr>, c', e)"
  using assms by (simp add: StartRun_def run_cleanup_def Shutdown_def IsDone_def run_returns_def)

end
