(* ===== verification/Spec2Isabelle.thy ===== *)
theory Spec2Isabelle
  imports Process ApiClient Delivery Retry Lua VirtualClock TestPorts TestHttp TestBodies TestLogs
    TestSubscription TestRun
begin

text \<open>
  A model of overload-party-matchmaking, the matchmaking service of a game: players enqueue over
  HTTP, wait in a sorted set on Redis, and every second one tick of the matcher takes the two
  who joined first and publishes their match on Pub/Sub.

  \<^bold>\<open>Conventions.\<close> A Go interface is a record of functions over a world \<open>'w\<close> (theory Domain), a struct a
  record, a result \<open>(T, error)\<close> the sum \<open>go_error + T\<close>, a method a definition that takes and returns
  the world. Go strings are byte strings, \<open>int64\<close> is a 64-bit word, a duration or an instant an integer
  of nanoseconds. Formatted messages stay a format with its arguments. Code outside the repository
  is a parameter: a record of the calls made (\<open>redis\<close>, \<open>gpubsub\<close>, \<open>gin\<close>, \<open>secrets\<close>, \<open>net_url\<close>,
  \<open>ulid_lib\<close>), of which nothing is assumed except for Redis, whose documented command effects are the
  laws of the locale \<open>redis_server\<close>; these describe a client that sends a call once (Retry: more often).

  \<^bold>\<open>Theories and the code they model.\<close>
  \<^item> Prelude, GoText, Base64: errors, contexts, logs; \<open>strconv\<close>, \<open>strings\<close>, UTF-8 and base64 as far as used.
  \<^item> Domain: internal/domain and internal/port.
  \<^item> Member, RedisServer, RedisQueue: internal/adapter/redisqueue, the member strings, the Lua scripts
    over the server's commands, the Go methods. QueueSpec, RedisRefine: the abstract queue \<open>mqueue\<close> and the
    proof that each script has exactly its operation's effect. QueueContract, RedisContract: the contract
    of \<open>port.Queue\<close> as the locale \<open>queue_contract\<close>, and \<open>sublocale\<close>: every server that obeys
    \<open>redis_server\<close> gives a queue that obeys it, lost calls and lost replies included. QueueProps: the
    properties of the Redis queue and of everything reachable from it. The interpretation \<open>ref\<close>
    (RedisServer) of a concrete store shows that the laws can hold together.
  \<^item> Lua: the Lua files as syntax trees, concatenated as lua\_scripts.go does, under an interpreter of their part of
    Lua: they compute the script functions of RedisQueue, which the other theories use.
  \<^item> Circuit, Matcher: internal/usecase/matcher without the loop. MatcherTrace records every call a tick makes,
    with arguments and answer, and classifies the recordings; MatcherQueue puts the matcher on a queue that
    keeps its contract; Delivery on Pub/Sub and ULIDs (internal/adapter/pubsub, internal/adapter/matchid).
  \<^item> Progress, Ledger: many ticks in a row when everything works (everyone is matched in order), and the
    balance of enqueues and pops over any history of calls (nobody is matched twice for one enqueue).
  \<^item> Activity, System: the service as a whole. Activity reads every request at the router as events (a player
    joined, a player was taken out) and shows what any sequence of requests does to the waiting players;
    System interleaves them with the ticks of the matcher, at every call of a tick that is not one on the queue, and
    shows that nobody is matched more often than they joined and that nobody vanishes without a record.
  \<^item> Retry: the same queue under a client that repeats calls, which go-redis does unless told otherwise: Enqueue,
    Cancel and Reenqueue bear it, PopPair does not.
  \<^item> RunLoop: \<open>Matcher.Run\<close> as an inductive step relation over all interleavings of the loop, the tick's
    goroutine, the ticker, the signal and the drain timer.
  \<^item> Presenter, Publisher: internal/presenter with the JSON writer, internal/adapter/pubsub.
  \<^item> Abandon, Handler: internal/usecase/abandon, internal/adapter/httphandler.
  \<^item> Config, SystemClock, Server: internal/config, internal/adapter/systemclock with the clock of internal/port,
    internal/adapter/secretmanager, cmd/server: \<open>run\<close> builds the matcher, the handlers and the HTTP server from the
    other theories' definitions.
  \<^item> Process: the whole program, what \<open>run\<close> builds from an environment with the loop's goroutines and the HTTP
    server in any interleaving; each execution is a history of System, so its counts hold for the process.
  \<^item> OpenapiClient, ApiClient: packages/api-matchmaking, the client that other services use.
  \<^item> VirtualClock, TestPorts, TestHttp: the code that the tests of this and of other services stand on: the
    clock and the scripted ports of internal/usecase/matcher/matchertest, the queue of
    internal/usecase/abandon/abandontest, the fakes and servers of internal/adapter/httphandler/httphandlertest,
    and packages/api-matchmaking/apimatchmakingserverfake. The lemmas say that these doubles record what the
    code under test did, and that the fake server fits the API client. internal/config/configtest is in Config.
  \<^item> GoJson, TestBodies: the bodies of the handlers' tests through \<open>json.Marshal\<close> of raw messages (the scanner and the
    compaction of encoding/json), which turn out to be the API client's bodies, and the tests' server over the real
    queue: a new gateway instance empties the queue.
  \<^item> GoTesting, TestLogs, TestContainers, TestSubscription, TestRun: \<open>testing.T\<close> with its cleanups; the log captures
    (httphandlertest/logs.go, usecasetest); Valkey and the Pub/Sub emulator in containers (redisqueuetest, pubsubtest),
    of which none is left running after a failed start; the emulator's subscriptions, which lose no acknowledged message
    before they are stopped and whose stopping can always return; the waits, gates and polls of matchertest, whose waits lose no wake-up.

  \<^bold>\<open>How the parts interact.\<close> The handlers and the use cases call \<open>port.Queue\<close>; its contract carries their
  lemmas, and \<open>redis_server.contract\<close> discharges it for the Redis queue. The matcher calls the queue, the
  publisher, the clock and the identifier source; between its calls other clients may change the world
  (\<open>env_keeps\<close> bounds how). The API client is composed with the router and the queue in ApiClient.

  \<^bold>\<open>Loops and bounds.\<close> Every definition is total except \<open>advance_loop\<close> of the tests' clock, which is a partial
  function: it returns when the active tickers have positive intervals, and not for a due
  ticker without one (\<open>clock_advance_diverges\<close>). The retry loop of \<open>reenqueueWithRetry\<close> terminates by its
  attempt counter (at most 5, so no fuel is needed), the JSON writer by the length of the text, the
  base-10 printer by its argument. The reader of the wire format takes the length of its input as fuel,
  which is enough because every player's text is longer than one byte (\<open>players_fit\<close>). The Lua interpreter
  bounds the depth of calls and the rounds of a \<open>while\<close>; one call and one round per entry (and one more) are enough.
  Counters of the breaker
  are 64-bit words; the theorems on them ask for fewer than \<open>2 ^ 63\<close> calls. Join times are exact as Redis
  scores while their milliseconds are below \<open>2 ^ 53\<close>, which \<open>redis_server\<close> asks of the clock.

  \<^bold>\<open>Not modelled.\<close> The parsing of the Lua texts (Lua has their syntax trees); panics of libraries (\<open>ulid.MustNew\<close> after the year 10889); the listener and TLS under the HTTP server,
  the token verifier, the transport of the API client, the container library and the Pub/Sub and Redis clients
  (parameters); mutexes, since each critical section is one step; the decoding of JSON into the structs of a handler or a test (a parameter or, for the service's own
  answers, the field itself); the deployment files.
\<close>

end
